theory Spec2Isabelle
  imports Complex_Main "HOL-Library.Word"
begin

unbundle bit_operations_syntax

section \<open>Machine types and run-time failures\<close>

type_synonym uint8 = "8 word"
type_synonym uint16 = "16 word"
type_synonym uint32 = "32 word"
type_synonym uint64 = "64 word"

text \<open>
  A Go panic is a value of type \<open>error\<close>; a function that can panic returns
  \<open>error + 'a\<close> with \<open>Inl\<close> for the panic. A nil pointer result is \<open>None\<close>.
\<close>

datatype error = NilDereference | TypeAssertion | IndexOutOfRange | SliceBounds | NonPositiveInterval

section \<open>Values of the packet package that the table package handles\<close>

text \<open>
  The wire codec (package \<open>packet\<close>) is not part of the sources under study. Its values
  are modelled by their decoded content; the header octets of an attribute (flags, length),
  which the codec's constructors recompute, are left out. An address (\<open>net.IP\<close>) is
  modelled by its canonical text, so that \<open>net.ParseIP\<close> and \<open>IP.String\<close> are the identity
  on valid address literals; the empty \<open>net.IP{}\<close> is the empty string.
\<close>

type_synonym ip = string

datatype AddrPrefixInterface =
    IPAddrPrefix (Length: uint8) (Prefix: ip)
  | OtherAddrPrefix (other_AFI: uint16) (other_SAFI: uint8) (other_text: string)

datatype As4PathParam = As4PathParam (as4_Type: uint8) (as4_Num: uint8) (as4_AS: "uint32 list")

datatype AsPathParam = AsPathParam (as2_Type: uint8) (as2_Num: uint8) (as2_AS: "uint16 list")

datatype AsPathParamInterface = P2 AsPathParam | P4 As4PathParam

datatype PathAttributeInterface =
    PathAttributeAsPath "AsPathParamInterface list"
  | PathAttributeAs4Path "As4PathParam list"
  | PathAttributeNextHop ip
  | PathAttributeMpReachNLRI ip "AddrPrefixInterface list"
  | PathAttributeMpUnreachNLRI "AddrPrefixInterface list"
  | PathAttributeMultiExitDisc uint32
  | PathAttributeLocalPref uint32
  | PathAttributeOriginatorId ip
  | PathAttributeClusterList "ip list"
  | PathAttributeUnknown uint8 "uint8 list"

text \<open>
  Modelled from the spec: the attribute type codes are constants of the packet package,
  declared outside the sources; they are the codes of the attributes the spec names
  (RFC 4271, 4456, 4760, 6793).
\<close>

definition BGP_ATTR_TYPE_AS_PATH :: uint8 where "BGP_ATTR_TYPE_AS_PATH = 2"
definition BGP_ATTR_TYPE_NEXT_HOP :: uint8 where "BGP_ATTR_TYPE_NEXT_HOP = 3"
definition BGP_ATTR_TYPE_MULTI_EXIT_DISC :: uint8 where "BGP_ATTR_TYPE_MULTI_EXIT_DISC = 4"
definition BGP_ATTR_TYPE_LOCAL_PREF :: uint8 where "BGP_ATTR_TYPE_LOCAL_PREF = 5"
definition BGP_ATTR_TYPE_ORIGINATOR_ID :: uint8 where "BGP_ATTR_TYPE_ORIGINATOR_ID = 9"
definition BGP_ATTR_TYPE_CLUSTER_LIST :: uint8 where "BGP_ATTR_TYPE_CLUSTER_LIST = 10"
definition BGP_ATTR_TYPE_MP_REACH_NLRI :: uint8 where "BGP_ATTR_TYPE_MP_REACH_NLRI = 14"
definition BGP_ATTR_TYPE_MP_UNREACH_NLRI :: uint8 where "BGP_ATTR_TYPE_MP_UNREACH_NLRI = 15"
definition BGP_ATTR_TYPE_AS4_PATH :: uint8 where "BGP_ATTR_TYPE_AS4_PATH = 17"

lemmas attr_type_defs =
  BGP_ATTR_TYPE_AS_PATH_def BGP_ATTR_TYPE_NEXT_HOP_def BGP_ATTR_TYPE_MULTI_EXIT_DISC_def
  BGP_ATTR_TYPE_LOCAL_PREF_def BGP_ATTR_TYPE_ORIGINATOR_ID_def BGP_ATTR_TYPE_CLUSTER_LIST_def
  BGP_ATTR_TYPE_MP_REACH_NLRI_def BGP_ATTR_TYPE_MP_UNREACH_NLRI_def BGP_ATTR_TYPE_AS4_PATH_def

fun GetType :: "PathAttributeInterface \<Rightarrow> uint8" where
  "GetType (PathAttributeAsPath _) = BGP_ATTR_TYPE_AS_PATH"
| "GetType (PathAttributeAs4Path _) = BGP_ATTR_TYPE_AS4_PATH"
| "GetType (PathAttributeNextHop _) = BGP_ATTR_TYPE_NEXT_HOP"
| "GetType (PathAttributeMpReachNLRI _ _) = BGP_ATTR_TYPE_MP_REACH_NLRI"
| "GetType (PathAttributeMpUnreachNLRI _) = BGP_ATTR_TYPE_MP_UNREACH_NLRI"
| "GetType (PathAttributeMultiExitDisc _) = BGP_ATTR_TYPE_MULTI_EXIT_DISC"
| "GetType (PathAttributeLocalPref _) = BGP_ATTR_TYPE_LOCAL_PREF"
| "GetType (PathAttributeOriginatorId _) = BGP_ATTR_TYPE_ORIGINATOR_ID"
| "GetType (PathAttributeClusterList _) = BGP_ATTR_TYPE_CLUSTER_LIST"
| "GetType (PathAttributeUnknown t _) = t"

section \<open>table/path.go: the Path value\<close>

subsection \<open>Bitmap\<close>

type_synonym Bitmap = "uint64 list"

definition Flag :: "Bitmap \<Rightarrow> nat \<Rightarrow> error + Bitmap" where
  "Flag b i =
     (if i div 64 < length b
      then Inr (b[i div 64 := (b ! (i div 64)) OR push_bit (i mod 64) 1])
      else Inl IndexOutOfRange)"

definition GetFlag :: "Bitmap \<Rightarrow> nat \<Rightarrow> error + bool" where
  "GetFlag b i =
     (if i div 64 < length b
      then Inr ((b ! (i div 64)) AND push_bit (i mod 64) 1 > 0)
      else Inl IndexOutOfRange)"

definition NewBitmap :: "nat \<Rightarrow> Bitmap" where
  "NewBitmap sz = replicate ((sz + 64 - 1) div 64) 0"

subsection \<open>Path and originInfo\<close>

text \<open>
  \<open>PeerInfo\<close> is declared outside the sources; the record has the fields that path.go
  reads. \<open>Address\<close> is a \<open>net.IP\<close> compared with nil, hence an option. The \<open>source\<close> and
  \<open>nlri\<close> of a path refer to existing objects. A timestamp is a number of nanoseconds.
\<close>

record PeerInfo =
  AS :: uint32
  LocalAS :: uint32
  ID :: ip
  Address :: "ip option"

record originInfo =
  nlri :: AddrPrefixInterface
  source :: PeerInfo
  timestamp :: int
  noImplicitWithdraw :: bool
  validation :: string
  isFromZebra :: bool
  key :: string
  uuid :: "uint8 list"

datatype PolicyDirection =
  POLICY_DIRECTION_NONE | POLICY_DIRECTION_IN | POLICY_DIRECTION_IMPORT | POLICY_DIRECTION_EXPORT

datatype Path = Path
  (info: "originInfo option")
  (IsWithdraw: bool)
  (pathAttrs: "PathAttributeInterface list")
  (reason: string)
  (parent: "Path option")
  (dels: "uint8 list")
  (filtered: "string \<Rightarrow> PolicyDirection option")

definition NewPath ::
  "PeerInfo \<Rightarrow> AddrPrefixInterface \<Rightarrow> bool \<Rightarrow> PathAttributeInterface list option \<Rightarrow> int \<Rightarrow> bool
    \<Rightarrow> Path option" where
  "NewPath src n isWithdraw pattrs ts noImplicit =
     (if \<not> isWithdraw \<and> pattrs = None then None
      else Some (Path
        (Some \<lparr>nlri = n, source = src, timestamp = ts, noImplicitWithdraw = noImplicit,
                validation = [], isFromZebra = False, key = [], uuid = []\<rparr>)
        isWithdraw
        (case pattrs of None \<Rightarrow> [] | Some l \<Rightarrow> l)
        []
        None
        []
        Map.empty))"

definition Clone :: "Path \<Rightarrow> bool \<Rightarrow> Path" where
  "Clone path isWithdraw = Path None isWithdraw [] [] (Some path) [] Map.empty"

fun root :: "Path \<Rightarrow> Path" where
  "root (Path i w attrs r par ds f) =
     (case par of None \<Rightarrow> Path i w attrs r par ds f | Some q \<Rightarrow> root q)"

definition OriginInfo :: "Path \<Rightarrow> originInfo option" where
  "OriginInfo path = info (root path)"

definition GetSource :: "Path \<Rightarrow> error + PeerInfo" where
  "GetSource path = (case OriginInfo path of None \<Rightarrow> Inl NilDereference | Some i \<Rightarrow> Inr (source i))"

definition GetNlri :: "Path \<Rightarrow> error + AddrPrefixInterface" where
  "GetNlri path = (case OriginInfo path of None \<Rightarrow> Inl NilDereference | Some i \<Rightarrow> Inr (nlri i))"

definition GetTimestamp :: "Path \<Rightarrow> error + int" where
  "GetTimestamp path =
     (case OriginInfo path of None \<Rightarrow> Inl NilDereference | Some i \<Rightarrow> Inr (timestamp i))"

definition NoImplicitWithdraw :: "Path \<Rightarrow> error + bool" where
  "NoImplicitWithdraw path =
     (case OriginInfo path of None \<Rightarrow> Inl NilDereference | Some i \<Rightarrow> Inr (noImplicitWithdraw i))"

definition IsLocal :: "Path \<Rightarrow> error + bool" where
  "IsLocal path = (case GetSource path of Inl e \<Rightarrow> Inl e | Inr s \<Rightarrow> Inr (Address s = None))"

subsection \<open>Attribute lookup, set and delete\<close>

fun getPathAttr :: "Path \<Rightarrow> uint8 \<Rightarrow> PathAttributeInterface option" where
  "getPathAttr (Path i w attrs r par ds f) typ =
     (if typ \<in> set ds then None
      else (case find (\<lambda>a. GetType a = typ) attrs of
              Some a \<Rightarrow> Some a
            | None \<Rightarrow> (case par of None \<Rightarrow> None | Some q \<Rightarrow> getPathAttr q typ)))"

fun replace_same_type :: "PathAttributeInterface \<Rightarrow> PathAttributeInterface list
    \<Rightarrow> PathAttributeInterface list option" where
  "replace_same_type a [] = None"
| "replace_same_type a (b # bs) =
     (if GetType a = GetType b then Some (a # bs)
      else map_option ((#) b) (replace_same_type a bs))"

definition setPathAttr :: "PathAttributeInterface \<Rightarrow> Path \<Rightarrow> Path" where
  "setPathAttr a path =
     (case path of Path i w attrs r par ds f \<Rightarrow>
        if length attrs = 0 then Path i w [a] r par ds f
        else (case replace_same_type a attrs of
                Some attrs' \<Rightarrow> Path i w attrs' r par ds f
              | None \<Rightarrow> Path i w (attrs @ [a]) r par ds f))"

definition delPathAttr :: "uint8 \<Rightarrow> Path \<Rightarrow> Path" where
  "delPathAttr typ path =
     (case path of Path i w attrs r par ds f \<Rightarrow>
        if length ds = 0 then Path i w attrs r par [typ] f
        else Path i w attrs r par (ds @ [typ]) f)"

subsection \<open>GetPathAttrs\<close>

fun flag_dels :: "Bitmap \<Rightarrow> uint8 list \<Rightarrow> error + Bitmap" where
  "flag_dels seen [] = Inr seen"
| "flag_dels seen (t # ts) =
     (case Flag seen (unat t) of Inl e \<Rightarrow> Inl e | Inr seen' \<Rightarrow> flag_dels seen' ts)"

fun collect_attrs :: "Bitmap \<Rightarrow> PathAttributeInterface list \<Rightarrow> PathAttributeInterface list
    \<Rightarrow> error + (Bitmap \<times> PathAttributeInterface list)" where
  "collect_attrs seen list [] = Inr (seen, list)"
| "collect_attrs seen list (a # as) =
     (case GetFlag seen (unat (GetType a)) of
        Inl e \<Rightarrow> Inl e
      | Inr flagged \<Rightarrow>
          if \<not> flagged
          then (case Flag seen (unat (GetType a)) of
                  Inl e \<Rightarrow> Inl e
                | Inr seen' \<Rightarrow> collect_attrs seen' (list @ [a]) as)
          else collect_attrs seen list as)"

fun GetPathAttrs_walk :: "Bitmap \<Rightarrow> PathAttributeInterface list \<Rightarrow> Path
    \<Rightarrow> error + PathAttributeInterface list" where
  "GetPathAttrs_walk seen list (Path i w attrs r par ds f) =
     (case flag_dels seen ds of
        Inl e \<Rightarrow> Inl e
      | Inr seen1 \<Rightarrow>
          (case collect_attrs seen1 list attrs of
             Inl e \<Rightarrow> Inl e
           | Inr (seen2, list2) \<Rightarrow>
               (case par of None \<Rightarrow> Inr list2 | Some q \<Rightarrow> GetPathAttrs_walk seen2 list2 q)))"

definition GetPathAttrs :: "Path \<Rightarrow> error + PathAttributeInterface list" where
  "GetPathAttrs path = GetPathAttrs_walk (NewBitmap 255) [] path"

section \<open>server/fsm.go: counters, hold time, keepalive ticker, connect loop\<close>

text \<open>
  The configuration structures (package \<open>config\<close>) are declared outside the sources. The
  record \<open>Neighbor\<close> has the fields of \<open>config.Neighbor\<close> that fsm.go and path.go read or
  write, each named by its Go path (\<open>pConf.Timers.Config.HoldTime\<close> is
  \<open>Timers_Config_HoldTime\<close>). The \<open>float64\<close> timer values are modelled as exact reals, the
  counters as 64-bit words, and a \<open>time.Duration\<close> as an integer number of nanoseconds
  (the durations computed here stay far from the 64-bit range for every hold time that the
  16-bit OPEN field can carry).
\<close>

record MessageCounters =
  Total :: uint64
  Open :: uint64
  Update :: uint64
  Notification :: uint64
  Keepalive :: uint64
  Refresh :: uint64
  Discarded :: uint64

datatype PeerType = PEER_TYPE_INTERNAL | PEER_TYPE_EXTERNAL | PEER_TYPE_INVALID

record Neighbor =
  Config_NeighborAddress :: string
  Config_PeerAs :: uint32
  Config_PeerType :: PeerType
  Transport_Config_LocalAddress :: string
  RouteServer_Config_RouteServerClient :: bool
  RouteReflector_Config_RouteReflectorClient :: bool
  RouteReflector_Config_RouteReflectorClusterId :: string
  Timers_Config_ConnectRetry :: real
  Timers_Config_HoldTime :: real
  Timers_Config_KeepaliveInterval :: real
  Timers_State_NegotiatedHoldTime :: real
  Timers_State_KeepaliveInterval :: real
  Timers_State_UpdateRecvTime :: int
  State_Messages_Sent :: MessageCounters
  State_Messages_Received :: MessageCounters

record Global =
  Config_As :: uint32

datatype FSMState =
  BGP_FSM_IDLE | BGP_FSM_ACTIVE | BGP_FSM_OPENSENT | BGP_FSM_OPENCONFIRM | BGP_FSM_ESTABLISHED

datatype FsmStateReason =
    FSM_NO_REASON
  | FSM_DYING
  | FSM_ADMIN_DOWN
  | FSM_READ_FAILED
  | FSM_WRITE_FAILED
  | FSM_NOTIFICATION_SENT
  | FSM_NOTIFICATION_RECV
  | FSM_HOLD_TIMER_EXPIRED
  | FSM_IDLE_HOLD_TIMER_EXPIRED
  | FSM_RESTART_TIMER_EXPIRED
  | FSM_GRACEFUL_RESTART
  | FSM_INVALID_MSG

text \<open>
  Modelled from the spec: the message type codes are constants of the packet package,
  declared outside the sources; the values are those of the five message types the spec
  names (RFC 4271, RFC 2918).
\<close>

definition BGP_MSG_OPEN :: uint8 where "BGP_MSG_OPEN = 1"
definition BGP_MSG_UPDATE :: uint8 where "BGP_MSG_UPDATE = 2"
definition BGP_MSG_NOTIFICATION :: uint8 where "BGP_MSG_NOTIFICATION = 3"
definition BGP_MSG_KEEPALIVE :: uint8 where "BGP_MSG_KEEPALIVE = 4"
definition BGP_MSG_ROUTE_REFRESH :: uint8 where "BGP_MSG_ROUTE_REFRESH = 5"

lemmas msg_type_defs =
  BGP_MSG_OPEN_def BGP_MSG_UPDATE_def BGP_MSG_NOTIFICATION_def BGP_MSG_KEEPALIVE_def
  BGP_MSG_ROUTE_REFRESH_def

subsection \<open>bgpMessageStateUpdate\<close>

text \<open>The argument \<open>now\<close> is the value of \<open>time.Now().Unix()\<close> at the call.\<close>

definition count_type :: "uint8 \<Rightarrow> MessageCounters \<Rightarrow> MessageCounters" where
  "count_type MessageType c =
     (if MessageType = BGP_MSG_OPEN then c\<lparr>Open := Open c + 1\<rparr>
      else if MessageType = BGP_MSG_UPDATE then c\<lparr>Update := Update c + 1\<rparr>
      else if MessageType = BGP_MSG_NOTIFICATION then c\<lparr>Notification := Notification c + 1\<rparr>
      else if MessageType = BGP_MSG_KEEPALIVE then c\<lparr>Keepalive := Keepalive c + 1\<rparr>
      else if MessageType = BGP_MSG_ROUTE_REFRESH then c\<lparr>Refresh := Refresh c + 1\<rparr>
      else c\<lparr>Discarded := Discarded c + 1\<rparr>)"

definition bgpMessageStateUpdate :: "uint8 \<Rightarrow> bool \<Rightarrow> int \<Rightarrow> Neighbor \<Rightarrow> Neighbor" where
  "bgpMessageStateUpdate MessageType isIn now pConf =
     (if isIn
      then (let c = State_Messages_Received pConf;
                pConf1 = pConf\<lparr>State_Messages_Received := count_type MessageType (c\<lparr>Total := Total c + 1\<rparr>)\<rparr>
            in if MessageType = BGP_MSG_UPDATE then pConf1\<lparr>Timers_State_UpdateRecvTime := now\<rparr>
               else pConf1)
      else (let c = State_Messages_Sent pConf
            in pConf\<lparr>State_Messages_Sent := count_type MessageType (c\<lparr>Total := Total c + 1\<rparr>)\<rparr>))"

subsection \<open>Sending: sendNotificatonFromErrorMsg and the send closure of sendMessageloop\<close>

text \<open>
  The outcome of \<open>conn.Write\<close> is an input: \<open>write_failed\<close> is true when \<open>Write\<close> returned an
  error. \<open>sendNotificatonFromErrorMsg\<close> builds a NOTIFICATION, writes it, and calls
  \<open>bgpMessageStateUpdate\<close> under the test \<open>err != nil\<close>.
\<close>

definition sendNotificatonFromErrorMsg :: "bool \<Rightarrow> int \<Rightarrow> Neighbor \<Rightarrow> Neighbor" where
  "sendNotificatonFromErrorMsg write_failed now pConf =
     (if write_failed then bgpMessageStateUpdate BGP_MSG_NOTIFICATION False now pConf
      else pConf)"

text \<open>
  The closure \<open>send\<close> of \<open>sendMessageloop\<close>: the result is the signal put on the error
  channel (if any), whether the closure returned an error, and the updated counters.
\<close>

definition send :: "uint8 \<Rightarrow> bool \<Rightarrow> bool \<Rightarrow> bool \<Rightarrow> int \<Rightarrow> Neighbor
    \<Rightarrow> FsmStateReason option \<times> bool \<times> Neighbor" where
  "send msgType serialize_failed deadline_failed write_failed now pConf =
     (if serialize_failed then (None, False, bgpMessageStateUpdate 0 False now pConf)
      else if deadline_failed then (Some FSM_WRITE_FAILED, True, pConf)
      else if write_failed then (Some FSM_WRITE_FAILED, True, pConf)
      else (let pConf1 = bgpMessageStateUpdate msgType False now pConf
            in if msgType = BGP_MSG_NOTIFICATION then (Some FSM_NOTIFICATION_SENT, True, pConf1)
               else (None, False, pConf1)))"

subsection \<open>Receiving: the accounting of recvMessageWithError\<close>

datatype recv_outcome =
    HeaderReadFailed
  | HeaderDecodeFailed
  | BodyReadFailed
  | BodyParseFailed
  | BodyParsed uint8

definition recv_accounting :: "recv_outcome \<Rightarrow> int \<Rightarrow> Neighbor \<Rightarrow> Neighbor" where
  "recv_accounting outcome now pConf =
     (case outcome of
        HeaderReadFailed \<Rightarrow> pConf
      | HeaderDecodeFailed \<Rightarrow> bgpMessageStateUpdate 0 True now pConf
      | BodyReadFailed \<Rightarrow> pConf
      | BodyParseFailed \<Rightarrow> bgpMessageStateUpdate 0 True now pConf
      | BodyParsed t \<Rightarrow> bgpMessageStateUpdate t True now pConf)"

subsection \<open>opensent: the hold time and keepalive interval on a received OPEN\<close>

text \<open>
  The branch of \<open>opensent\<close> that handles a received OPEN. \<open>valid\<close> is the verdict of the
  codec's \<open>ValidateOpenMsg\<close>, \<open>recvHoldTime\<close> the 16-bit hold time of the OPEN. The router
  id and the capability maps, which the branch also records, are not part of the record.
\<close>

definition opensent_recv_open :: "bool \<Rightarrow> bool \<Rightarrow> uint16 \<Rightarrow> int \<Rightarrow> Neighbor
    \<Rightarrow> FSMState \<times> FsmStateReason \<times> Neighbor" where
  "opensent_recv_open valid write_failed recvHoldTime now pConf =
     (if \<not> valid
      then (BGP_FSM_IDLE, FSM_INVALID_MSG, sendNotificatonFromErrorMsg write_failed now pConf)
      else (let holdTime = real (unat recvHoldTime);
                myHoldTime = Timers_Config_HoldTime pConf;
                pConf1 = (if holdTime > myHoldTime
                          then pConf\<lparr>Timers_State_NegotiatedHoldTime := myHoldTime\<rparr>
                          else pConf\<lparr>Timers_State_NegotiatedHoldTime := holdTime\<rparr>);
                n = Timers_State_NegotiatedHoldTime pConf1;
                keepalive = (if n < myHoldTime then n / 3
                             else Timers_Config_KeepaliveInterval pConf1);
                pConf2 = pConf1\<lparr>Timers_State_KeepaliveInterval := keepalive\<rparr>
            in (BGP_FSM_OPENCONFIRM, FSM_NO_REASON,
                bgpMessageStateUpdate BGP_MSG_KEEPALIVE False now pConf2)))"

subsection \<open>keepaliveTicker\<close>

definition Second :: int where "Second = 1000000000"

text \<open>The conversion of a \<open>float64\<close> to an integer type truncates towards zero.\<close>

definition go_int :: "real \<Rightarrow> int" where
  "go_int x = (if 0 \<le> x then \<lfloor>x\<rfloor> else \<lceil>x\<rceil>)"

text \<open>
  The result is \<open>None\<close> for the inert \<open>&time.Ticker{}\<close>, which never fires, and \<open>Some d\<close>
  for \<open>time.NewTicker(d)\<close> with \<open>d\<close> in nanoseconds; \<open>NewTicker\<close> panics on a
  non-positive period.
\<close>

definition keepaliveTicker :: "Neighbor \<Rightarrow> error + int option" where
  "keepaliveTicker pConf =
     (if Timers_State_NegotiatedHoldTime pConf = 0 then Inr None
      else (let sec = Second * go_int (Timers_State_KeepaliveInterval pConf);
                sec1 = (if sec = 0 then 1 else sec)
            in if sec1 \<le> 0 then Inl NonPositiveInterval else Inr (Some sec1)))"

subsection \<open>connectLoop\<close>

text \<open>
  Modelled from the spec: the constant \<open>MIN_CONNECT_RETRY\<close> is declared outside the
  sources; the spec gives the ticker period as the larger of the configured connect-retry
  and 5. \<open>BGP_PORT\<close> is the port 179 the spec names.
\<close>

definition MIN_CONNECT_RETRY :: int where "MIN_CONNECT_RETRY = 5"

definition BGP_PORT :: nat where "BGP_PORT = 179"

text \<open>
  What one pass of the loop does is recorded as a list of effects: a sleep, a dial (remote
  address and port, local address if one is bound, timeout) and the arming of the retry
  ticker, with durations in nanoseconds.
\<close>

datatype effect =
    Sleep int
  | Dial string nat "string option" int
  | NewTicker int
  | StopTicker

datatype loop_event = Dying | RetryTick | GetActive

definition tick :: "Neighbor \<Rightarrow> int" where
  "tick pConf =
     (if go_int (Timers_Config_ConnectRetry pConf) < MIN_CONNECT_RETRY then MIN_CONNECT_RETRY
      else go_int (Timers_Config_ConnectRetry pConf))"

text \<open>
  The closure \<open>connect\<close>; \<open>resolved\<close> tells whether \<open>net.ResolveTCPAddr\<close> accepted the
  configured local address.
\<close>

definition connect :: "FSMState \<Rightarrow> bool \<Rightarrow> Neighbor \<Rightarrow> effect list" where
  "connect state resolved pConf =
     (if state = BGP_FSM_ACTIVE
      then (let addr = Config_NeighborAddress pConf;
                laddr = Transport_Config_LocalAddress pConf
            in if laddr \<noteq> []
               then (if \<not> resolved then []
                     else [Dial addr BGP_PORT (Some laddr) ((MIN_CONNECT_RETRY - 1) * Second)])
               else [Dial addr BGP_PORT None ((MIN_CONNECT_RETRY - 1) * Second)])
      else [])"

text \<open>
  One pass of the \<open>select\<close> of \<open>connectLoop\<close>. \<open>rnd\<close> is the value returned by
  \<open>r.Intn(MIN_CONNECT_RETRY)\<close>, a number from 0 up to but excluding \<open>MIN_CONNECT_RETRY\<close>.
  The second component tells whether the loop goes on.
\<close>

definition connectLoop_step :: "loop_event \<Rightarrow> FSMState \<Rightarrow> bool \<Rightarrow> int \<Rightarrow> Neighbor
    \<Rightarrow> effect list \<times> bool" where
  "connectLoop_step ev state resolved rnd pConf =
     (case ev of
        Dying \<Rightarrow> ([StopTicker], False)
      | RetryTick \<Rightarrow> (connect state resolved pConf, True)
      | GetActive \<Rightarrow>
          ([Sleep ((rnd + MIN_CONNECT_RETRY) * Second)] @ connect state resolved pConf
             @ [NewTicker (tick pConf * Second)], True))"

section \<open>The AS_PATH reconciler: UpdatePathAttrs2ByteAs and UpdatePathAttrs4ByteAs\<close>

text \<open>
  Modelled from the spec: the segment type codes and \<open>AS_TRANS\<close> are constants of the
  packet package, declared outside the sources. \<open>AS_TRANS\<close> is the sentinel 23456 of the
  spec's glossary; the segment types are the four the spec names (AS_SET, AS_SEQUENCE,
  AS_CONFED_SEQUENCE, AS_CONFED_SET), with their codes of RFC 4271 and RFC 5065.
\<close>

definition AS_TRANS :: uint16 where "AS_TRANS = 23456"

definition BGP_ASPATH_ATTR_TYPE_SET :: uint8 where "BGP_ASPATH_ATTR_TYPE_SET = 1"
definition BGP_ASPATH_ATTR_TYPE_SEQ :: uint8 where "BGP_ASPATH_ATTR_TYPE_SEQ = 2"
definition BGP_ASPATH_ATTR_TYPE_CONFED_SEQ :: uint8 where "BGP_ASPATH_ATTR_TYPE_CONFED_SEQ = 3"
definition BGP_ASPATH_ATTR_TYPE_CONFED_SET :: uint8 where "BGP_ASPATH_ATTR_TYPE_CONFED_SET = 4"

lemmas seg_type_defs =
  BGP_ASPATH_ATTR_TYPE_SET_def BGP_ASPATH_ATTR_TYPE_SEQ_def
  BGP_ASPATH_ATTR_TYPE_CONFED_SEQ_def BGP_ASPATH_ATTR_TYPE_CONFED_SET_def

text \<open>
  Modelled from the spec: the constructors \<open>NewAsPathParam\<close> and \<open>NewAs4PathParam\<close> and the
  method \<open>ASLen\<close> belong to the packet package, outside the sources. A constructor stores
  the segment type and the AS list, and the AS count in \<open>Num\<close>. \<open>ASLen\<close> is the length a
  segment contributes to the path: the spec's non-confed length, that is the number of
  ASes of a sequence, one for a set, and nothing for a confederation segment.
\<close>

definition NewAsPathParam :: "uint8 \<Rightarrow> uint16 list \<Rightarrow> AsPathParam" where
  "NewAsPathParam segType as = AsPathParam segType (of_nat (length as)) as"

definition NewAs4PathParam :: "uint8 \<Rightarrow> uint32 list \<Rightarrow> As4PathParam" where
  "NewAs4PathParam segType as = As4PathParam segType (of_nat (length as)) as"

definition ASLen :: "As4PathParam \<Rightarrow> int" where
  "ASLen a =
     (if as4_Type a = BGP_ASPATH_ATTR_TYPE_SEQ then int (length (as4_AS a))
      else if as4_Type a = BGP_ASPATH_ATTR_TYPE_SET then 1
      else 0)"

record BGPUpdate =
  WithdrawnRoutes :: "AddrPrefixInterface list"
  PathAttributes :: "PathAttributeInterface list"
  NLRI :: "AddrPrefixInterface list"

subsection \<open>UpdatePathAttrs2ByteAs\<close>

text \<open>The first loop: the first AS_PATH attribute and its index.\<close>

fun find_AsPath :: "PathAttributeInterface list \<Rightarrow> nat
    \<Rightarrow> (nat \<times> AsPathParamInterface list) option" where
  "find_AsPath [] i = None"
| "find_AsPath (PathAttributeAsPath v # rest) i = Some (i, v)"
| "find_AsPath (_ # rest) i = find_AsPath rest (Suc i)"

text \<open>The loop over the ASes of one segment, with the flag \<open>mkAs4\<close> and \<open>as2Path\<close>.\<close>

fun as2Path_loop :: "uint32 list \<Rightarrow> bool \<Rightarrow> uint16 list \<Rightarrow> bool \<times> uint16 list" where
  "as2Path_loop [] mkAs4 as2Path = (mkAs4, as2Path)"
| "as2Path_loop (as # rest) mkAs4 as2Path =
     (if as > (push_bit 16 1) - 1
      then as2Path_loop rest True (as2Path @ [AS_TRANS])
      else as2Path_loop rest mkAs4 (as2Path @ [ucast as]))"

text \<open>
  The loop over the segments; the type assertion \<open>param.(*bgp.As4PathParam)\<close> panics on a
  2-byte segment.
\<close>

fun as2Params_loop :: "AsPathParamInterface list \<Rightarrow> As4PathParam list
    \<Rightarrow> AsPathParamInterface list \<Rightarrow> bool
    \<Rightarrow> error + (As4PathParam list \<times> AsPathParamInterface list \<times> bool)" where
  "as2Params_loop [] as4Params as2Params mkAs4 = Inr (as4Params, as2Params, mkAs4)"
| "as2Params_loop (P2 _ # rest) as4Params as2Params mkAs4 = Inl TypeAssertion"
| "as2Params_loop (P4 as4Param # rest) as4Params as2Params mkAs4 =
     (case as2Path_loop (as4_AS as4Param) mkAs4 [] of
        (mkAs4', as2Path) \<Rightarrow>
          as2Params_loop rest
            (if as4_Type as4Param \<noteq> BGP_ASPATH_ATTR_TYPE_CONFED_SEQ
                \<and> as4_Type as4Param \<noteq> BGP_ASPATH_ATTR_TYPE_CONFED_SET
             then as4Params @ [as4Param] else as4Params)
            (as2Params @ [P2 (NewAsPathParam (as4_Type as4Param) as2Path)])
            mkAs4')"

definition UpdatePathAttrs2ByteAs :: "BGPUpdate \<Rightarrow> error + BGPUpdate" where
  "UpdatePathAttrs2ByteAs msg =
     (case find_AsPath (PathAttributes msg) 0 of
        None \<Rightarrow> Inr msg
      | Some (idx, v) \<Rightarrow>
          (case as2Params_loop v [] [] False of
             Inl e \<Rightarrow> Inl e
           | Inr (as4Params, as2Params, mkAs4) \<Rightarrow>
               (let attrs1 = (PathAttributes msg)[idx := PathAttributeAsPath as2Params]
                in Inr (msg\<lparr>PathAttributes :=
                     (if mkAs4 then attrs1 @ [PathAttributeAs4Path as4Params] else attrs1)\<rparr>))))"

subsection \<open>UpdatePathAttrs4ByteAs\<close>

fun widen_param :: "AsPathParamInterface \<Rightarrow> As4PathParam" where
  "widen_param (P2 as2Param) = NewAs4PathParam (as2_Type as2Param) (map ucast (as2_AS as2Param))"
| "widen_param (P4 as4Param) = as4Param"

text \<open>
  The first loop widens every AS_PATH attribute in place and remembers the last AS_PATH
  and the last AS4_PATH with their positions. After it every segment of an AS_PATH is an
  \<open>As4PathParam\<close>, so the later assertions \<open>param.(*bgp.As4PathParam)\<close> cannot fail and the
  remembered AS_PATH is kept as a list of \<open>As4PathParam\<close>.
\<close>

fun scan_attrs :: "PathAttributeInterface list \<Rightarrow> nat
    \<Rightarrow> As4PathParam list option \<Rightarrow> nat \<Rightarrow> As4PathParam list option \<Rightarrow> nat
    \<Rightarrow> PathAttributeInterface list
    \<Rightarrow> PathAttributeInterface list \<times> As4PathParam list option \<times> nat
        \<times> As4PathParam list option \<times> nat" where
  "scan_attrs [] i asAttr asAttrPos as4Attr as4AttrPos done =
     (done, asAttr, asAttrPos, as4Attr, as4AttrPos)"
| "scan_attrs (PathAttributeAsPath v # rest) i asAttr asAttrPos as4Attr as4AttrPos done =
     scan_attrs rest (Suc i) (Some (map widen_param v)) i as4Attr as4AttrPos
       (done @ [PathAttributeAsPath (map (P4 \<circ> widen_param) v)])"
| "scan_attrs (PathAttributeAs4Path v # rest) i asAttr asAttrPos as4Attr as4AttrPos done =
     scan_attrs rest (Suc i) asAttr asAttrPos (Some v) i (done @ [PathAttributeAs4Path v])"
| "scan_attrs (a # rest) i asAttr asAttrPos as4Attr as4AttrPos done =
     scan_attrs rest (Suc i) asAttr asAttrPos as4Attr as4AttrPos (done @ [a])"

text \<open>The loop that adds up \<open>asLen\<close> and \<open>asConfedLen\<close>.\<close>

fun asLen_loop :: "As4PathParam list \<Rightarrow> int \<Rightarrow> int \<Rightarrow> int \<times> int" where
  "asLen_loop [] asLen asConfedLen = (asLen, asConfedLen)"
| "asLen_loop (p # rest) asLen asConfedLen =
     asLen_loop rest (asLen + ASLen p)
       (if as4_Type p = BGP_ASPATH_ATTR_TYPE_CONFED_SET then asConfedLen + 1
        else if as4_Type p = BGP_ASPATH_ATTR_TYPE_CONFED_SEQ then asConfedLen + int (length (as4_AS p))
        else asConfedLen)"

text \<open>The loop over the AS4_PATH segments, which skips the confederation segments.\<close>

fun as4Len_loop :: "As4PathParam list \<Rightarrow> int \<Rightarrow> As4PathParam list \<Rightarrow> int \<times> As4PathParam list" where
  "as4Len_loop [] as4Len as4Params = (as4Len, as4Params)"
| "as4Len_loop (p # rest) as4Len as4Params =
     (if as4_Type p = BGP_ASPATH_ATTR_TYPE_CONFED_SEQ \<or> as4_Type p = BGP_ASPATH_ATTR_TYPE_CONFED_SET
      then as4Len_loop rest as4Len as4Params
      else as4Len_loop rest (as4Len + ASLen p) (as4Params @ [p]))"

text \<open>
  The loop that keeps the leading segments. It yields \<open>newParams\<close> and the segments it did
  not reach; a kept segment may have been cut in place (\<open>param.AS = param.AS[:keepNum]\<close>).
\<close>

fun keep_loop :: "As4PathParam list \<Rightarrow> int \<Rightarrow> As4PathParam list
    \<Rightarrow> error + (As4PathParam list \<times> As4PathParam list)" where
  "keep_loop [] keepNum newParams = Inr (newParams, [])"
| "keep_loop (param # rest) keepNum newParams =
     (if keepNum - ASLen param \<ge> 0
      then (if keepNum - ASLen param \<le> 0 then Inr (newParams @ [param], rest)
            else keep_loop rest (keepNum - ASLen param) (newParams @ [param]))
      else (if keepNum < 0 \<or> keepNum > int (length (as4_AS param)) then Inl SliceBounds
            else Inr (newParams
                   @ [As4PathParam (as4_Type param) (as4_Num param)
                        (take (nat keepNum) (as4_AS param))], rest)))"

text \<open>
  The loop that grafts the AS4_PATH segments. \<open>lastParam\<close> is the last element of
  \<open>newParams\<close> and is changed in place; reading it when \<open>newParams\<close> is empty panics.
\<close>

fun graft_loop :: "As4PathParam list \<Rightarrow> As4PathParam list \<Rightarrow> error + As4PathParam list" where
  "graft_loop [] newParams = Inr newParams"
| "graft_loop (param # rest) newParams =
     (if newParams = [] then Inl IndexOutOfRange
      else (let lastParam = last newParams
            in if as4_Type param = as4_Type lastParam \<and> as4_Type param = BGP_ASPATH_ATTR_TYPE_SEQ
               then (if length (as4_AS lastParam) + length (as4_AS param) > 255
                     then (if length (as4_AS lastParam) > 255 then Inl SliceBounds
                           else (let lastParam1 = As4PathParam (as4_Type lastParam) (as4_Num lastParam)
                                       (as4_AS lastParam
                                          @ take (255 - length (as4_AS lastParam)) (as4_AS param));
                                     param1 = As4PathParam (as4_Type param) (as4_Num param)
                                       (drop (255 - length (as4_AS lastParam1)) (as4_AS param))
                                 in graft_loop rest (butlast newParams @ [lastParam1, param1])))
                     else graft_loop rest
                            (butlast newParams
                               @ [As4PathParam (as4_Type lastParam) (as4_Num lastParam)
                                    (as4_AS lastParam @ as4_AS param)]))
               else graft_loop rest (newParams @ [param])))"

text \<open>
  The function. The AS4_PATH is removed from the list before the new AS_PATH is stored at
  \<open>asAttrPos\<close>, an index taken before the removal. When the AS4_PATH stood before the
  AS_PATH, the old AS_PATH attribute is then one place to the left and stays in the list;
  its segments are the objects the two loops changed in place, that is the kept segments
  as they are at the end followed by the segments the keep loop did not reach.
\<close>

definition UpdatePathAttrs4ByteAs :: "BGPUpdate \<Rightarrow> error + BGPUpdate" where
  "UpdatePathAttrs4ByteAs msg =
     (case scan_attrs (PathAttributes msg) 0 None 0 None 0 [] of
        (attrs1, asAttr, asAttrPos, as4Attr, as4AttrPos) \<Rightarrow>
          (let attrs2 = (if as4Attr \<noteq> None
                         then take as4AttrPos attrs1 @ drop (as4AttrPos + 1) attrs1
                         else attrs1)
           in case (asAttr, as4Attr) of
                (Some asValue, Some as4Value) \<Rightarrow>
                  (case asLen_loop asValue 0 0 of
                     (asLen, asConfedLen) \<Rightarrow>
                       (case as4Len_loop as4Value 0 [] of
                          (as4Len, as4Params) \<Rightarrow>
                            if asLen + asConfedLen < as4Len
                            then Inr (msg\<lparr>PathAttributes := attrs2\<rparr>)
                            else (case keep_loop asValue (asLen + asConfedLen - as4Len) [] of
                                    Inl e \<Rightarrow> Inl e
                                  | Inr (kept, unreached) \<Rightarrow>
                                      (case graft_loop as4Params kept of
                                         Inl e \<Rightarrow> Inl e
                                       | Inr newParams \<Rightarrow>
                                           (let attrs3 =
                                                  (if as4AttrPos < asAttrPos
                                                   then attrs2[asAttrPos - 1 :=
                                                          PathAttributeAsPath (map P4
                                                            (take (length kept) newParams @ unreached))]
                                                   else attrs2)
                                            in if asAttrPos < length attrs3
                                               then Inr (msg\<lparr>PathAttributes :=
                                                      attrs3[asAttrPos := PathAttributeAsPath (map P4 newParams)]\<rparr>)
                                               else Inl IndexOutOfRange)))))
              | _ \<Rightarrow> Inr (msg\<lparr>PathAttributes := attrs2\<rparr>)))"

section \<open>table/path.go: the egress rewrites of UpdatePathAttrs\<close>

subsection \<open>Reading and setting the next hop and the AS_PATH\<close>

text \<open>
  A lookup is by type code; the result is then asserted to be of the Go type of that
  attribute, which panics for an attribute of another Go type carrying the same code.
\<close>

definition GetAsPath :: "Path \<Rightarrow> error + AsPathParamInterface list option" where
  "GetAsPath path =
     (case getPathAttr path BGP_ATTR_TYPE_AS_PATH of
        None \<Rightarrow> Inr None
      | Some (PathAttributeAsPath v) \<Rightarrow> Inr (Some v)
      | Some _ \<Rightarrow> Inl TypeAssertion)"

definition GetNexthop :: "Path \<Rightarrow> error + ip" where
  "GetNexthop path =
     (case getPathAttr path BGP_ATTR_TYPE_NEXT_HOP of
        Some (PathAttributeNextHop v) \<Rightarrow> Inr v
      | Some _ \<Rightarrow> Inl TypeAssertion
      | None \<Rightarrow>
          (case getPathAttr path BGP_ATTR_TYPE_MP_REACH_NLRI of
             Some (PathAttributeMpReachNLRI nh _) \<Rightarrow> Inr nh
           | Some _ \<Rightarrow> Inl TypeAssertion
           | None \<Rightarrow> Inr []))"

definition SetNexthop :: "ip \<Rightarrow> Path \<Rightarrow> error + Path" where
  "SetNexthop nexthop path =
     (let path1 = (case getPathAttr path BGP_ATTR_TYPE_NEXT_HOP of
                     None \<Rightarrow> path
                   | Some _ \<Rightarrow> setPathAttr (PathAttributeNextHop nexthop) path)
      in case getPathAttr path1 BGP_ATTR_TYPE_MP_REACH_NLRI of
           None \<Rightarrow> Inr path1
         | Some (PathAttributeMpReachNLRI _ v) \<Rightarrow>
             Inr (setPathAttr (PathAttributeMpReachNLRI nexthop v) path1)
         | Some _ \<Rightarrow> Inl TypeAssertion)"

fun cloneAsPath :: "AsPathParamInterface list \<Rightarrow> error + As4PathParam list" where
  "cloneAsPath [] = Inr []"
| "cloneAsPath (P2 _ # rest) = Inl TypeAssertion"
| "cloneAsPath (P4 asParam # rest) =
     (case cloneAsPath rest of
        Inl e \<Rightarrow> Inl e
      | Inr r \<Rightarrow> Inr (NewAs4PathParam (as4_Type asParam) (as4_AS asParam) # r))"

text \<open>
  The part of \<open>PrependAsn\<close> that prepends into a leading sequence: the result is the new
  segment list and the ASes still to be placed. \<open>asns\<close> has length and capacity \<open>repeat\<close>,
  so that the slice \<open>asns[:repeat]\<close> with a larger bound panics.
\<close>

definition prepend_first :: "As4PathParam list \<Rightarrow> uint32 list \<Rightarrow> uint8
    \<Rightarrow> error + (As4PathParam list \<times> uint32 list)" where
  "prepend_first asPath asns repeat =
     (case asPath of
        [] \<Rightarrow> Inr ([], asns)
      | frst # rest \<Rightarrow>
          if as4_Type frst = BGP_ASPATH_ATTR_TYPE_SEQ
          then (let repeat1 = (if int (length (as4_AS frst)) + uint repeat > 255
                               then word_of_int (255 - int (length (as4_AS frst)))
                               else repeat)
                in if unat repeat1 > length asns then Inl SliceBounds
                   else Inr (As4PathParam (as4_Type frst) (as4_Num frst + repeat1)
                               (take (unat repeat1) asns @ as4_AS frst) # rest,
                             drop (unat repeat1) asns))
          else Inr (asPath, asns))"

definition PrependAsn :: "uint32 \<Rightarrow> uint8 \<Rightarrow> Path \<Rightarrow> error + Path" where
  "PrependAsn asn repeat path =
     (case GetAsPath path of
        Inl e \<Rightarrow> Inl e
      | Inr original \<Rightarrow>
          (case (case original of None \<Rightarrow> Inr [] | Some v \<Rightarrow> cloneAsPath v) of
             Inl e \<Rightarrow> Inl e
           | Inr asPath \<Rightarrow>
               (case prepend_first asPath (replicate (unat repeat) asn) repeat of
                  Inl e \<Rightarrow> Inl e
                | Inr (asPath1, asns1) \<Rightarrow>
                    Inr (setPathAttr
                           (PathAttributeAsPath (map P4
                              (if length asns1 > 0
                               then NewAs4PathParam BGP_ASPATH_ATTR_TYPE_SEQ asns1 # asPath1
                               else asPath1)))
                           path))))"

subsection \<open>UpdatePathAttrs\<close>

text \<open>
  \<open>config.IsConfederationMember\<close> is declared outside the sources and is a parameter.
  The local address is the configured text (\<open>net.ParseIP\<close> of a valid literal).
\<close>

definition drop_med :: "Path \<Rightarrow> error + Path" where
  "drop_med path =
     (case getPathAttr path BGP_ATTR_TYPE_MULTI_EXIT_DISC of
        None \<Rightarrow> Inr path
      | Some _ \<Rightarrow>
          (case IsLocal path of
             Inl e \<Rightarrow> Inl e
           | Inr l \<Rightarrow> Inr (if \<not> l then delPathAttr BGP_ATTR_TYPE_MULTI_EXIT_DISC path else path)))"

definition drop_local_pref :: "bool \<Rightarrow> Path \<Rightarrow> Path" where
  "drop_local_pref confed path =
     (if getPathAttr path BGP_ATTR_TYPE_LOCAL_PREF \<noteq> None \<and> \<not> confed
      then delPathAttr BGP_ATTR_TYPE_LOCAL_PREF path else path)"

definition ibgp_nexthop :: "ip \<Rightarrow> Path \<Rightarrow> error + Path" where
  "ibgp_nexthop localAddress path =
     (case GetNexthop path of
        Inl e \<Rightarrow> Inl e
      | Inr nexthop \<Rightarrow>
          (case IsLocal path of
             Inl e \<Rightarrow> Inl e
           | Inr l \<Rightarrow>
               if l \<and> (nexthop = ''0.0.0.0'' \<or> nexthop = ''::'')
               then SetNexthop localAddress path else Inr path))"

definition ibgp_as_path :: "Path \<Rightarrow> error + Path" where
  "ibgp_as_path path =
     (if getPathAttr path BGP_ATTR_TYPE_AS_PATH = None then PrependAsn 0 0 path else Inr path)"

definition ibgp_local_pref :: "Path \<Rightarrow> error + Path" where
  "ibgp_local_pref path =
     (case getPathAttr path BGP_ATTR_TYPE_LOCAL_PREF of
        None \<Rightarrow> Inr (setPathAttr (PathAttributeLocalPref 100) path)
      | Some _ \<Rightarrow>
          (case IsLocal path of
             Inl e \<Rightarrow> Inl e
           | Inr l \<Rightarrow> Inr (if \<not> l then setPathAttr (PathAttributeLocalPref 100) path else path)))"

definition ibgp_reflect :: "Neighbor \<Rightarrow> Path \<Rightarrow> error + Path" where
  "ibgp_reflect peer path =
     (case GetSource path of
        Inl e \<Rightarrow> Inl e
      | Inr i \<Rightarrow>
          if RouteReflector_Config_RouteReflectorClient peer
          then (let path1 = (if getPathAttr path BGP_ATTR_TYPE_ORIGINATOR_ID = None
                             then setPathAttr (PathAttributeOriginatorId (ID i)) path
                             else path);
                    id = RouteReflector_Config_RouteReflectorClusterId peer
                in case getPathAttr path1 BGP_ATTR_TYPE_CLUSTER_LIST of
                     None \<Rightarrow> Inr (setPathAttr (PathAttributeClusterList [id]) path1)
                   | Some (PathAttributeClusterList v) \<Rightarrow>
                       Inr (setPathAttr (PathAttributeClusterList (id # v)) path1)
                   | Some _ \<Rightarrow> Inl TypeAssertion)
          else Inr path)"

definition UpdatePathAttrs :: "(Global \<Rightarrow> Neighbor \<Rightarrow> bool) \<Rightarrow> Global \<Rightarrow> Neighbor \<Rightarrow> Path
    \<Rightarrow> error + Path" where
  "UpdatePathAttrs IsConfederationMember global peer path =
     (if RouteServer_Config_RouteServerClient peer then Inr path
      else (let localAddress = Transport_Config_LocalAddress peer
            in if Config_PeerType peer = PEER_TYPE_EXTERNAL
               then (case SetNexthop localAddress path of
                       Inl e \<Rightarrow> Inl e
                     | Inr path1 \<Rightarrow>
                         (case PrependAsn (Config_As global) 1 path1 of
                            Inl e \<Rightarrow> Inl e
                          | Inr path2 \<Rightarrow>
                              (case drop_med path2 of
                                 Inl e \<Rightarrow> Inl e
                               | Inr path3 \<Rightarrow>
                                   Inr (drop_local_pref (IsConfederationMember global peer) path3))))
               else if Config_PeerType peer = PEER_TYPE_INTERNAL
               then (case ibgp_nexthop localAddress path of
                       Inl e \<Rightarrow> Inl e
                     | Inr path1 \<Rightarrow>
                         (case ibgp_as_path path1 of
                            Inl e \<Rightarrow> Inl e
                          | Inr path2 \<Rightarrow>
                              (case ibgp_local_pref path2 of
                                 Inl e \<Rightarrow> Inl e
                               | Inr path3 \<Rightarrow> ibgp_reflect peer path3)))
               else Inr path))"

subsection \<open>The rewritten path in closed form\<close>

text \<open>The path that \<open>SetNexthop\<close> returns, case by case.\<close>

definition nexthop_set :: "ip \<Rightarrow> Path \<Rightarrow> Path" where
  "nexthop_set a p =
     (let p1 = (if getPathAttr p BGP_ATTR_TYPE_NEXT_HOP = None then p
                else setPathAttr (PathAttributeNextHop a) p)
      in case getPathAttr p BGP_ATTR_TYPE_MP_REACH_NLRI of
           Some (PathAttributeMpReachNLRI nh v) \<Rightarrow> setPathAttr (PathAttributeMpReachNLRI a v) p1
         | _ \<Rightarrow> p1)"

section \<open>The UPDATE batcher: createUpdateMsgFromPath and CreateUpdateMsgFromPaths\<close>

text \<open>
  Modelled from the spec: the address family codes, \<open>AfiSafiToRouteFamily\<close> and the limit
  \<open>BGP_MAX_MESSAGE_LENGTH\<close> belong to the packet package, outside the sources. IPv4 unicast
  is AFI 1 and SAFI 1, a route family packs the AFI above the 16 low bits that hold the
  SAFI, and the limit is the 4096 octets of the spec. An \<open>IPAddrPrefix\<close> is an IPv4
  unicast prefix.
\<close>

definition AFI_IP :: uint16 where "AFI_IP = 1"
definition SAFI_UNICAST :: uint8 where "SAFI_UNICAST = 1"

definition AfiSafiToRouteFamily :: "uint16 \<Rightarrow> uint8 \<Rightarrow> nat" where
  "AfiSafiToRouteFamily afi safi = unat afi * 65536 + unat safi"

definition RF_IPv4_UC :: nat where
  "RF_IPv4_UC = AfiSafiToRouteFamily AFI_IP SAFI_UNICAST"

definition BGP_MAX_MESSAGE_LENGTH :: nat where "BGP_MAX_MESSAGE_LENGTH = 4096"

fun AFI :: "AddrPrefixInterface \<Rightarrow> uint16" where
  "AFI (IPAddrPrefix _ _) = AFI_IP"
| "AFI (OtherAddrPrefix afi _ _) = afi"

fun SAFI :: "AddrPrefixInterface \<Rightarrow> uint8" where
  "SAFI (IPAddrPrefix _ _) = SAFI_UNICAST"
| "SAFI (OtherAddrPrefix _ safi _) = safi"

definition GetRouteFamily :: "Path \<Rightarrow> error + nat" where
  "GetRouteFamily path =
     (case OriginInfo path of
        None \<Rightarrow> Inl NilDereference
      | Some i \<Rightarrow> Inr (AfiSafiToRouteFamily (AFI (nlri i)) (SAFI (nlri i))))"

definition NewBGPUpdateMessage :: "AddrPrefixInterface list \<Rightarrow> PathAttributeInterface list
    \<Rightarrow> AddrPrefixInterface list \<Rightarrow> BGPUpdate" where
  "NewBGPUpdateMessage withdrawn attrs nlris =
     \<lparr>WithdrawnRoutes = withdrawn, PathAttributes = attrs, NLRI = nlris\<rparr>"

subsection \<open>createUpdateMsgFromPath\<close>

text \<open>
  Appending an NLRI to every MP_UNREACH_NLRI (or MP_REACH_NLRI) attribute of an open
  message; the attribute found by its type code is asserted to be of the Go type.
\<close>

fun append_unreach :: "AddrPrefixInterface \<Rightarrow> PathAttributeInterface list
    \<Rightarrow> error + PathAttributeInterface list" where
  "append_unreach n [] = Inr []"
| "append_unreach n (p # ps) =
     (if GetType p = BGP_ATTR_TYPE_MP_UNREACH_NLRI
      then (case p of
              PathAttributeMpUnreachNLRI v \<Rightarrow>
                (case append_unreach n ps of
                   Inl e \<Rightarrow> Inl e
                 | Inr r \<Rightarrow> Inr (PathAttributeMpUnreachNLRI (v @ [n]) # r))
            | _ \<Rightarrow> Inl TypeAssertion)
      else (case append_unreach n ps of Inl e \<Rightarrow> Inl e | Inr r \<Rightarrow> Inr (p # r)))"

fun append_reach :: "AddrPrefixInterface \<Rightarrow> PathAttributeInterface list
    \<Rightarrow> error + PathAttributeInterface list" where
  "append_reach n [] = Inr []"
| "append_reach n (p # ps) =
     (if GetType p = BGP_ATTR_TYPE_MP_REACH_NLRI
      then (case p of
              PathAttributeMpReachNLRI nh v \<Rightarrow>
                (case append_reach n ps of
                   Inl e \<Rightarrow> Inl e
                 | Inr r \<Rightarrow> Inr (PathAttributeMpReachNLRI nh (v @ [n]) # r))
            | _ \<Rightarrow> Inl TypeAssertion)
      else (case append_reach n ps of Inl e \<Rightarrow> Inl e | Inr r \<Rightarrow> Inr (p # r)))"

text \<open>The NLRIs of a withdrawn path of another family, from its MP_REACH or MP_UNREACH.\<close>

definition withdrawn_nlris :: "Path \<Rightarrow> error + AddrPrefixInterface list" where
  "withdrawn_nlris path =
     (case getPathAttr path BGP_ATTR_TYPE_MP_REACH_NLRI of
        None \<Rightarrow>
          (case getPathAttr path BGP_ATTR_TYPE_MP_UNREACH_NLRI of
             Some (PathAttributeMpUnreachNLRI v) \<Rightarrow> Inr v
           | Some _ \<Rightarrow> Inl TypeAssertion
           | None \<Rightarrow> Inl NilDereference)
      | Some (PathAttributeMpReachNLRI _ v) \<Rightarrow> Inr v
      | Some _ \<Rightarrow> Inl TypeAssertion)"

fun replace_first_mp :: "AddrPrefixInterface list \<Rightarrow> PathAttributeInterface list
    \<Rightarrow> PathAttributeInterface list" where
  "replace_first_mp nlris [] = []"
| "replace_first_mp nlris (a # as) =
     (if GetType a = BGP_ATTR_TYPE_MP_UNREACH_NLRI \<or> GetType a = BGP_ATTR_TYPE_MP_REACH_NLRI
      then PathAttributeMpUnreachNLRI nlris # as
      else a # replace_first_mp nlris as)"

text \<open>
  The result is the returned message (nil is \<open>None\<close>) together with the message passed
  in, as the function leaves it.
\<close>

definition createUpdateMsgFromPath :: "Path \<Rightarrow> BGPUpdate option
    \<Rightarrow> error + (BGPUpdate option \<times> BGPUpdate option)" where
  "createUpdateMsgFromPath path msg =
     (case GetRouteFamily path of
        Inl e \<Rightarrow> Inl e
      | Inr rf \<Rightarrow>
          (case GetNlri path of
             Inl e \<Rightarrow> Inl e
           | Inr n \<Rightarrow>
               if rf = RF_IPv4_UC
               then (case n of
                       OtherAddrPrefix _ _ _ \<Rightarrow> Inl TypeAssertion
                     | IPAddrPrefix _ _ \<Rightarrow>
                         if IsWithdraw path
                         then (case msg of
                                 Some u \<Rightarrow>
                                   Inr (None, Some (u\<lparr>WithdrawnRoutes := WithdrawnRoutes u @ [n]\<rparr>))
                               | None \<Rightarrow> Inr (Some (NewBGPUpdateMessage [n] [] []), None))
                         else (case msg of
                                 Some u \<Rightarrow> Inr (None, Some (u\<lparr>NLRI := NLRI u @ [n]\<rparr>))
                               | None \<Rightarrow>
                                   (case GetPathAttrs path of
                                      Inl e \<Rightarrow> Inl e
                                    | Inr pattrs \<Rightarrow>
                                        Inr (Some (NewBGPUpdateMessage [] pattrs [n]), None))))
               else if IsWithdraw path
               then (case msg of
                       Some u \<Rightarrow>
                         (case append_unreach n (PathAttributes u) of
                            Inl e \<Rightarrow> Inl e
                          | Inr attrs \<Rightarrow> Inr (None, Some (u\<lparr>PathAttributes := attrs\<rparr>)))
                     | None \<Rightarrow>
                         (case withdrawn_nlris path of
                            Inl e \<Rightarrow> Inl e
                          | Inr nlris \<Rightarrow>
                              (case GetPathAttrs path of
                                 Inl e \<Rightarrow> Inl e
                               | Inr clonedAttrs \<Rightarrow>
                                   Inr (Some (NewBGPUpdateMessage []
                                          (replace_first_mp nlris clonedAttrs) []), None))))
               else (case msg of
                       Some u \<Rightarrow>
                         (case append_reach n (PathAttributes u) of
                            Inl e \<Rightarrow> Inl e
                          | Inr attrs \<Rightarrow> Inr (None, Some (u\<lparr>PathAttributes := attrs\<rparr>)))
                     | None \<Rightarrow>
                         (case GetPathAttrs path of
                            Inl e \<Rightarrow> Inl e
                          | Inr pattrs \<Rightarrow>
                              Inr (Some (NewBGPUpdateMessage [] pattrs []), None)))))"

subsection \<open>CreateUpdateMsgFromPaths\<close>

text \<open>
  The codec's \<open>Serialize\<close> and \<open>Len\<close> of an attribute are parameters (\<open>ser\<close>, \<open>Len\<close>). The
  hash is FNV-1 on 32 bits, as \<open>fnv.New32\<close>. The Go map from keys to bucket lists is an
  association list; Go visits its keys in no fixed order, the model in the order of their
  first insertion, and nothing proved below depends on the order. The list of messages
  holds pointers, so that a message changed after it was appended changes in the list.
\<close>

definition fnv32 :: "uint8 list \<Rightarrow> uint32" where
  "fnv32 bs = foldl (\<lambda>h b. (h * 16777619) XOR ucast b) 2166136261 bs"

type_synonym bucket = "uint8 list \<times> Path list"

definition ipv4_announce :: "Path \<Rightarrow> error + bool" where
  "ipv4_announce p =
     (case GetRouteFamily p of
        Inl e \<Rightarrow> Inl e
      | Inr rf \<Rightarrow> Inr (if rf \<noteq> RF_IPv4_UC then False else if IsWithdraw p then False else True))"

fun add_to_bucket :: "uint8 list \<Rightarrow> Path \<Rightarrow> bucket list \<Rightarrow> bucket list option" where
  "add_to_bucket attrs path [] = None"
| "add_to_bucket attrs path (b # bl) =
     (if fst b = attrs then Some ((fst b, snd b @ [path]) # bl)
      else map_option ((#) b) (add_to_bucket attrs path bl))"

fun update_key :: "uint32 \<Rightarrow> bucket list \<Rightarrow> (uint32 \<times> bucket list) list
    \<Rightarrow> (uint32 \<times> bucket list) list" where
  "update_key k v [] = [(k, v)]"
| "update_key k v (e # es) = (if fst e = k then (k, v) # es else e # update_key k v es)"

definition insert_path :: "uint32 \<Rightarrow> uint8 list \<Rightarrow> Path \<Rightarrow> (uint32 \<times> bucket list) list
    \<Rightarrow> (uint32 \<times> bucket list) list" where
  "insert_path k attrs path pathByAttrs =
     (case map_of pathByAttrs k of
        Some bl \<Rightarrow>
          (case add_to_bucket attrs path bl of
             Some bl' \<Rightarrow> update_key k bl' pathByAttrs
           | None \<Rightarrow> update_key k (bl @ [(attrs, [path])]) pathByAttrs)
      | None \<Rightarrow> update_key k [(attrs, [path])] pathByAttrs)"

text \<open>The first loop: standalone messages and the buckets.\<close>

fun collect_loop :: "(PathAttributeInterface \<Rightarrow> uint8 list) \<Rightarrow> Path option list
    \<Rightarrow> BGPUpdate option list \<Rightarrow> (uint32 \<times> bucket list) list
    \<Rightarrow> error + (BGPUpdate option list \<times> (uint32 \<times> bucket list) list)" where
  "collect_loop ser [] msgs pathByAttrs = Inr (msgs, pathByAttrs)"
| "collect_loop ser (None # rest) msgs pathByAttrs = collect_loop ser rest msgs pathByAttrs"
| "collect_loop ser (Some path # rest) msgs pathByAttrs =
     (case ipv4_announce path of
        Inl e \<Rightarrow> Inl e
      | Inr y \<Rightarrow>
          if y
          then (case GetPathAttrs path of
                  Inl e \<Rightarrow> Inl e
                | Inr as \<Rightarrow>
                    (let total = concat (map ser as)
                     in collect_loop ser rest msgs (insert_path (fnv32 total) total path pathByAttrs)))
          else (case createUpdateMsgFromPath path None of
                  Inl e \<Rightarrow> Inl e
                | Inr (msg, _) \<Rightarrow> collect_loop ser rest (msgs @ [msg]) pathByAttrs))"

definition msgLen :: "(PathAttributeInterface \<Rightarrow> nat) \<Rightarrow> BGPUpdate \<Rightarrow> nat" where
  "msgLen Len u = 19 + 2 + 2 + sum_list (map Len (PathAttributes u)) + (length (NLRI u) + 1) * 5"

text \<open>
  The loop over the paths of one bucket. The open message \<open>msg\<close> is the one appended last
  to \<open>msgs\<close>.
\<close>

fun bucket_loop :: "(PathAttributeInterface \<Rightarrow> nat) \<Rightarrow> Path list \<Rightarrow> nat
    \<Rightarrow> BGPUpdate option list \<Rightarrow> error + BGPUpdate option list" where
  "bucket_loop Len [] i msgs = Inr msgs"
| "bucket_loop Len (path # rest) i msgs =
     (if i = 0
      then (case createUpdateMsgFromPath path None of
              Inl e \<Rightarrow> Inl e
            | Inr (msg, _) \<Rightarrow> bucket_loop Len rest (Suc i) (msgs @ [msg]))
      else if msgs = [] then Inl NilDereference
      else (case last msgs of
              None \<Rightarrow> Inl NilDereference
            | Some u \<Rightarrow>
                if msgLen Len u + 32 > BGP_MAX_MESSAGE_LENGTH
                then (case createUpdateMsgFromPath path None of
                        Inl e \<Rightarrow> Inl e
                      | Inr (msg, _) \<Rightarrow> bucket_loop Len rest (Suc i) (msgs @ [msg]))
                else (case createUpdateMsgFromPath path (Some u) of
                        Inl e \<Rightarrow> Inl e
                      | Inr (_, msg') \<Rightarrow> bucket_loop Len rest (Suc i) (butlast msgs @ [msg']))))"

fun buckets_loop :: "(PathAttributeInterface \<Rightarrow> nat) \<Rightarrow> bucket list \<Rightarrow> BGPUpdate option list
    \<Rightarrow> error + BGPUpdate option list" where
  "buckets_loop Len [] msgs = Inr msgs"
| "buckets_loop Len (b # bs) msgs =
     (case bucket_loop Len (snd b) 0 msgs of
        Inl e \<Rightarrow> Inl e
      | Inr msgs' \<Rightarrow> buckets_loop Len bs msgs')"

definition CreateUpdateMsgFromPaths :: "(PathAttributeInterface \<Rightarrow> uint8 list)
    \<Rightarrow> (PathAttributeInterface \<Rightarrow> nat) \<Rightarrow> Path option list \<Rightarrow> error + BGPUpdate option list" where
  "CreateUpdateMsgFromPaths ser Len pathList =
     (case collect_loop ser pathList [] [] of
        Inl e \<Rightarrow> Inl e
      | Inr (msgs, pathByAttrs) \<Rightarrow> buckets_loop Len (concat (map snd pathByAttrs)) msgs)"

subsection \<open>The size of an UPDATE on the wire\<close>

text \<open>
  Modelled from the spec: the codec's \<open>Serialize\<close> of a message is outside the sources. An
  UPDATE on the wire is the 19-octet header, the 2-octet length of the withdrawn routes,
  the withdrawn routes, the 2-octet length of the attributes, the attributes (each of
  \<open>Len\<close> octets) and the NLRI; an IPv4 prefix takes one octet for its bit length and the
  octets that hold that many bits.
\<close>

fun nlri_len :: "AddrPrefixInterface \<Rightarrow> nat" where
  "nlri_len (IPAddrPrefix l _) = 1 + (unat l + 7) div 8"
| "nlri_len (OtherAddrPrefix _ _ t) = length t"

definition serialized_size :: "(PathAttributeInterface \<Rightarrow> nat) \<Rightarrow> BGPUpdate \<Rightarrow> nat" where
  "serialized_size Len u =
     19 + 2 + sum_list (map nlri_len (WithdrawnRoutes u))
        + 2 + sum_list (map Len (PathAttributes u))
        + sum_list (map nlri_len (NLRI u))"

text \<open>
  A path fits alone when the message opened for it alone is within the limit; its prefix
  is in range when an IPv4 prefix has at most 32 bits.
\<close>

definition fits_alone :: "(PathAttributeInterface \<Rightarrow> nat) \<Rightarrow> Path \<Rightarrow> bool" where
  "fits_alone Len path =
     (case createUpdateMsgFromPath path None of
        Inr (Some m, _) \<Rightarrow> serialized_size Len m \<le> BGP_MAX_MESSAGE_LENGTH
      | _ \<Rightarrow> True)"

definition prefix_in_range :: "Path \<Rightarrow> bool" where
  "prefix_in_range path =
     (case GetNlri path of Inr (IPAddrPrefix l _) \<Rightarrow> unat l \<le> 32 | _ \<Rightarrow> True)"

definition open_message_ok :: "BGPUpdate \<Rightarrow> bool" where
  "open_message_ok u = (WithdrawnRoutes u = [] \<and> (\<forall>n \<in> set (NLRI u). nlri_len n \<le> 5))"

definition bucket_paths :: "(uint32 \<times> bucket list) list \<Rightarrow> Path set" where
  "bucket_paths pathByAttrs = (\<Union>b \<in> set (concat (map snd pathByAttrs)). set (snd b))"

section \<open>The reconciler as the specification words it\<close>

text \<open>
  The following definitions follow the words of the specification, not the code; the
  theorems compare them with the functions above. A legacy segment has \<open>AS_TRANS\<close> in the
  place of every AS above 65535; an AS4_PATH is needed when some AS was substituted; a
  confederation segment is one of type AS_CONFED_SEQUENCE or AS_CONFED_SET; the length of
  a path adds up the lengths of its segments; the ASes of a path are those of its segments
  in order.
\<close>

definition legacy_as :: "uint32 \<Rightarrow> uint16" where
  "legacy_as as = (if 65535 < as then AS_TRANS else ucast as)"

definition legacy_segment :: "As4PathParam \<Rightarrow> AsPathParam" where
  "legacy_segment seg =
     AsPathParam (as4_Type seg) (of_nat (length (as4_AS seg))) (map legacy_as (as4_AS seg))"

definition needs_AS4_PATH :: "As4PathParam list \<Rightarrow> bool" where
  "needs_AS4_PATH segs = (\<exists>seg \<in> set segs. \<exists>as \<in> set (as4_AS seg). 65535 < as)"

definition confed_segment :: "As4PathParam \<Rightarrow> bool" where
  "confed_segment seg =
     (as4_Type seg = BGP_ASPATH_ATTR_TYPE_CONFED_SEQ \<or> as4_Type seg = BGP_ASPATH_ATTR_TYPE_CONFED_SET)"

definition path_length :: "As4PathParam list \<Rightarrow> int" where
  "path_length segs = sum_list (map ASLen segs)"

definition confed_length :: "As4PathParam list \<Rightarrow> int" where
  "confed_length segs =
     sum_list (map (\<lambda>seg. if as4_Type seg = BGP_ASPATH_ATTR_TYPE_CONFED_SET then 1
                          else if as4_Type seg = BGP_ASPATH_ATTR_TYPE_CONFED_SEQ
                          then int (length (as4_AS seg)) else 0) segs)"

definition path_ases :: "As4PathParam list \<Rightarrow> uint32 list" where
  "path_ases segs = concat (map as4_AS segs)"

fun is_AsPath :: "PathAttributeInterface \<Rightarrow> bool" where
  "is_AsPath (PathAttributeAsPath _) = True"
| "is_AsPath _ = False"

fun is_As4Path :: "PathAttributeInterface \<Rightarrow> bool" where
  "is_As4Path (PathAttributeAs4Path _) = True"
| "is_As4Path _ = False"

definition widen_attr :: "PathAttributeInterface \<Rightarrow> PathAttributeInterface" where
  "widen_attr a =
     (case a of PathAttributeAsPath v \<Rightarrow> PathAttributeAsPath (map (P4 \<circ> widen_param) v) | _ \<Rightarrow> a)"

text \<open>The composition: reconcile, then downgrade what was obtained.\<close>

definition downgrade_after_reconcile :: "BGPUpdate \<Rightarrow> error + BGPUpdate" where
  "downgrade_after_reconcile msg =
     (case UpdatePathAttrs4ByteAs msg of Inl e \<Rightarrow> Inl e | Inr m \<Rightarrow> UpdatePathAttrs2ByteAs m)"

section \<open>Concrete inputs used to instantiate the theorems\<close>

definition wit_path :: Path where
  "wit_path = Path None False [PathAttributeMultiExitDisc 7, PathAttributeLocalPref 100] [] None [] Map.empty"

definition wit_src :: PeerInfo where
  "wit_src = \<lparr>AS = 65002, LocalAS = 65001, ID = ''192.0.2.2'', Address = Some ''192.0.2.2''\<rparr>"

definition wit_nlri :: AddrPrefixInterface where
  "wit_nlri = IPAddrPrefix 24 ''10.0.0.0''"

definition zero_counters :: MessageCounters where
  "zero_counters = \<lparr>Total = 0, Open = 0, Update = 0, Notification = 0, Keepalive = 0,
     Refresh = 0, Discarded = 0\<rparr>"

definition wit_pConf :: Neighbor where
  "wit_pConf = \<lparr>Config_NeighborAddress = ''192.0.2.2'', Config_PeerAs = 65002,
     Config_PeerType = PEER_TYPE_EXTERNAL, Transport_Config_LocalAddress = ''192.0.2.1'',
     RouteServer_Config_RouteServerClient = False,
     RouteReflector_Config_RouteReflectorClient = False,
     RouteReflector_Config_RouteReflectorClusterId = [],
     Timers_Config_ConnectRetry = 30, Timers_Config_HoldTime = 90,
     Timers_Config_KeepaliveInterval = 30, Timers_State_NegotiatedHoldTime = 0,
     Timers_State_KeepaliveInterval = 0, Timers_State_UpdateRecvTime = 0,
     State_Messages_Sent = zero_counters, State_Messages_Received = zero_counters\<rparr>"

definition wit_update4 :: BGPUpdate where
  "wit_update4 = \<lparr>WithdrawnRoutes = [],
     PathAttributes =
       [PathAttributeNextHop ''192.0.2.1'',
        PathAttributeAsPath [P4 (As4PathParam 2 3 [131073, 300, 400]), P4 (As4PathParam 3 1 [70000])],
        PathAttributeMultiExitDisc 10],
     NLRI = [wit_nlri]\<rparr>"

definition wit_update2 :: BGPUpdate where
  "wit_update2 = \<lparr>WithdrawnRoutes = [],
     PathAttributes =
       [PathAttributeNextHop ''192.0.2.1'',
        PathAttributeAsPath [P2 (AsPathParam 2 3 [23456, 300, 400]), P2 (AsPathParam 1 2 [7, 8])],
        PathAttributeMultiExitDisc 10],
     NLRI = [wit_nlri]\<rparr>"

definition cex_update2 :: BGPUpdate where
  "cex_update2 = \<lparr>WithdrawnRoutes = [],
     PathAttributes =
       [PathAttributeAsPath [P2 (AsPathParam 2 2 [100, 200])],
        PathAttributeAs4Path [As4PathParam 2 1 [200]]],
     NLRI = [wit_nlri]\<rparr>"

definition cex_update1 :: BGPUpdate where
  "cex_update1 = \<lparr>WithdrawnRoutes = [],
     PathAttributes =
       [PathAttributeAsPath [P2 (AsPathParam 3 2 [65001, 65002]), P2 (AsPathParam 2 1 [23456])],
        PathAttributeAs4Path [As4PathParam 2 2 [70000, 70001]]],
     NLRI = [wit_nlri]\<rparr>"

definition wit_update_merge :: BGPUpdate where
  "wit_update_merge = \<lparr>WithdrawnRoutes = [],
     PathAttributes =
       [PathAttributeNextHop ''192.0.2.1'',
        PathAttributeAsPath [P2 (AsPathParam 2 3 [23456, 300, 400])],
        PathAttributeMultiExitDisc 10,
        PathAttributeAs4Path [As4PathParam 3 1 [65001], As4PathParam 2 2 [131073, 400]]],
     NLRI = [wit_nlri]\<rparr>"

definition wit_update_discard :: BGPUpdate where
  "wit_update_discard = \<lparr>WithdrawnRoutes = [],
     PathAttributes =
       [PathAttributeAsPath [P2 (AsPathParam 2 1 [23456])],
        PathAttributeAs4Path [As4PathParam 2 3 [1, 2, 3]]],
     NLRI = [wit_nlri]\<rparr>"

definition update_as4_first :: BGPUpdate where
  "update_as4_first = \<lparr>WithdrawnRoutes = [],
     PathAttributes =
       [PathAttributeAs4Path [As4PathParam 2 1 [131073]],
        PathAttributeAsPath [P2 (AsPathParam 2 3 [23456, 300, 400]), P2 (AsPathParam 1 2 [7, 8])],
        PathAttributeNextHop ''192.0.2.1''],
     NLRI = [wit_nlri]\<rparr>"

definition update_two_as4 :: BGPUpdate where
  "update_two_as4 = \<lparr>WithdrawnRoutes = [],
     PathAttributes =
       [PathAttributeAsPath [P2 (AsPathParam 2 1 [23456])],
        PathAttributeAs4Path [As4PathParam 2 1 [64496]],
        PathAttributeAs4Path [As4PathParam 2 1 [70000]]],
     NLRI = [wit_nlri]\<rparr>"

definition update_long_merge :: BGPUpdate where
  "update_long_merge = \<lparr>WithdrawnRoutes = [],
     PathAttributes =
       [PathAttributeAsPath [P4 (As4PathParam 2 250 (replicate 250 64512)),
                             P4 (As4PathParam 2 10 (replicate 10 23456))],
        PathAttributeAs4Path [As4PathParam 2 10 (replicate 10 131073)]],
     NLRI = [wit_nlri]\<rparr>"

definition wit_global :: Global where
  "wit_global = \<lparr>Config_As = 65001\<rparr>"

definition no_confederation :: "Global \<Rightarrow> Neighbor \<Rightarrow> bool" where
  "no_confederation g n = False"

definition wit_info :: originInfo where
  "wit_info = \<lparr>nlri = wit_nlri, source = wit_src, timestamp = 5, noImplicitWithdraw = False,
     validation = [], isFromZebra = False, key = [], uuid = []\<rparr>"

definition wit_route :: Path where
  "wit_route = Path (Some wit_info) False
     [PathAttributeNextHop ''198.51.100.7'',
      PathAttributeAsPath [P4 (As4PathParam 2 1 [65002])],
      PathAttributeMultiExitDisc 10]
     [] None [] Map.empty"

definition cex_withdraw :: Path where
  "cex_withdraw = Path (Some wit_info) True [] [] None [] Map.empty"

definition nexthop_after_update :: "Neighbor \<Rightarrow> Path \<Rightarrow> error + ip" where
  "nexthop_after_update peer path =
     (case UpdatePathAttrs no_confederation wit_global peer path of
        Inl e \<Rightarrow> Inl e
      | Inr path' \<Rightarrow> GetNexthop path')"

text \<open>
  Stand-ins for the codec on the concrete inputs below: the wire length of an attribute
  (three octets of flags, type and length, four when the value is longer than 255 octets,
  and the value: four octets for a next hop, a MED or a local preference) and octets that
  tell attributes apart.
\<close>

definition wit_Len :: "PathAttributeInterface \<Rightarrow> nat" where
  "wit_Len a =
     (case a of
        PathAttributeUnknown t v \<Rightarrow> (if length v > 255 then 4 else 3) + length v
      | _ \<Rightarrow> 7)"

definition wit_ser :: "PathAttributeInterface \<Rightarrow> uint8 list" where
  "wit_ser a = GetType a # (case a of PathAttributeUnknown t v \<Rightarrow> v | _ \<Rightarrow> [])"

definition wit_announce1 :: Path where
  "wit_announce1 = Path (Some wit_info) False [PathAttributeNextHop ''198.51.100.7''] [] None []
     Map.empty"

definition wit_announce2 :: Path where
  "wit_announce2 = Path (Some (wit_info\<lparr>nlri := IPAddrPrefix 16 ''172.16.0.0''\<rparr>)) False
     [PathAttributeNextHop ''198.51.100.7''] [] None [] Map.empty"

definition cex_big_path :: Path where
  "cex_big_path = Path (Some wit_info) False
     [PathAttributeNextHop ''198.51.100.7'', PathAttributeUnknown 8 (replicate 4400 0)]
     [] None [] Map.empty"

definition cex_big_msg :: BGPUpdate where
  "cex_big_msg = \<lparr>WithdrawnRoutes = [],
     PathAttributes = [PathAttributeNextHop ''198.51.100.7'', PathAttributeUnknown 8 (replicate 4400 0)],
     NLRI = [wit_nlri]\<rparr>"

section \<open>Properties of the Path value\<close>

lemma Flag_length: "Flag b i = Inr b' \<Longrightarrow> length b' = length b"
  by (auto simp: Flag_def split: if_splits)

lemma bit_pos: "((w::uint64) AND 2 ^ n > 0) = bit w n"
  using and_exp_eq_0_iff_not_bit [of w n] by (auto simp: word_greater_zero_iff)

lemma GetFlag_Flag_same: "Flag b i = Inr b' \<Longrightarrow> GetFlag b' i = Inr True"
  by (auto simp: Flag_def GetFlag_def bit_pos bit_simps split: if_splits)

lemma GetFlag_Flag_mono: "Flag b j = Inr b' \<Longrightarrow> GetFlag b i = Inr True \<Longrightarrow> GetFlag b' i = Inr True"
  by (auto simp: Flag_def GetFlag_def bit_pos bit_simps nth_list_update split: if_splits)

lemma unat8_div64: "unat (t::uint8) div 64 < 4"
proof -
  have "unat t < 2 ^ 8" using unsigned_less [of t] by simp
  then show ?thesis by simp
qed

lemma Flag_ok: "length b = 4 \<Longrightarrow> \<exists>b'. Flag b (unat (t::uint8)) = Inr b' \<and> length b' = 4"
  using unat8_div64 [of t] by (simp add: Flag_def)

lemma GetFlag_ok: "length b = 4 \<Longrightarrow> \<exists>v. GetFlag b (unat (t::uint8)) = Inr v"
  using unat8_div64 [of t] by (simp add: GetFlag_def)

lemma flag_dels_ok: "length seen = 4 \<Longrightarrow> \<exists>s. flag_dels seen ds = Inr s \<and> length s = 4"
proof (induction ds arbitrary: seen)
  case Nil then show ?case by simp
next
  case (Cons t ts)
  obtain b' where b': "Flag seen (unat t) = Inr b'" "length b' = 4"
    using Flag_ok [OF Cons.prems] by blast
  from Cons.IH [OF b'(2)] b'(1) show ?case by simp
qed

lemma flag_dels_mono:
  "flag_dels seen ds = Inr s \<Longrightarrow> GetFlag seen i = Inr True \<Longrightarrow> GetFlag s i = Inr True"
  by (induction ds arbitrary: seen) (auto split: sum.splits dest: GetFlag_Flag_mono)

lemma flag_dels_flags:
  "flag_dels seen ds = Inr s \<Longrightarrow> t \<in> set ds \<Longrightarrow> GetFlag s (unat t) = Inr True"
  by (induction ds arbitrary: seen) (auto split: sum.splits dest: GetFlag_Flag_same flag_dels_mono)

lemma collect_attrs_ok:
  "length seen = 4 \<Longrightarrow> \<exists>s l. collect_attrs seen acc as = Inr (s, l) \<and> length s = 4"
proof (induction as arbitrary: seen acc)
  case Nil then show ?case by simp
next
  case (Cons a as)
  obtain v where v: "GetFlag seen (unat (GetType a)) = Inr v"
    using GetFlag_ok [OF Cons.prems] by blast
  obtain b' where b': "Flag seen (unat (GetType a)) = Inr b'" "length b' = 4"
    using Flag_ok [OF Cons.prems] by blast
  show ?case
  proof (cases v)
    case True
    with v Cons.IH [OF Cons.prems] show ?thesis by simp
  next
    case False
    with v b' Cons.IH [OF b'(2)] show ?thesis by simp
  qed
qed

lemma collect_attrs_shadow:
  "collect_attrs seen acc as = Inr (s, l) \<Longrightarrow> GetFlag seen (unat t) = Inr True \<Longrightarrow>
   \<forall>b \<in> set acc. GetType b \<noteq> t \<Longrightarrow>
   GetFlag s (unat t) = Inr True \<and> (\<forall>b \<in> set l. GetType b \<noteq> t)"
proof (induction as arbitrary: seen acc)
  case Nil then show ?case by simp
next
  case (Cons a as)
  show ?case
  proof (cases "GetType a = t")
    case True
    with Cons.prems have "collect_attrs seen acc as = Inr (s, l)" by simp
    from Cons.IH [OF this Cons.prems(2,3)] show ?thesis .
  next
    case False
    show ?thesis
    proof (cases "GetFlag seen (unat (GetType a))")
      case (Inl e) with Cons.prems show ?thesis by simp
    next
      case (Inr v)
      show ?thesis
      proof (cases v)
        case True
        with Inr Cons.prems have "collect_attrs seen acc as = Inr (s, l)" by simp
        from Cons.IH [OF this Cons.prems(2,3)] show ?thesis .
      next
        case notflagged: False
        with Inr Cons.prems obtain seen' where
          f: "Flag seen (unat (GetType a)) = Inr seen'" and
          c: "collect_attrs seen' (acc @ [a]) as = Inr (s, l)"
          by (auto split: sum.splits)
        have g: "GetFlag seen' (unat t) = Inr True"
          using GetFlag_Flag_mono [OF f Cons.prems(2)] .
        have "\<forall>b \<in> set (acc @ [a]). GetType b \<noteq> t" using Cons.prems(3) False by simp
        from Cons.IH [OF c g this] show ?thesis .
      qed
    qed
  qed
qed

lemma GetPathAttrs_walk_ok:
  "length seen = 4 \<Longrightarrow> \<exists>l. GetPathAttrs_walk seen acc p = Inr l"
proof (induction seen acc p rule: GetPathAttrs_walk.induct)
  case (1 seen acc i w attrs r par ds f)
  obtain s1 where s1: "flag_dels seen ds = Inr s1" "length s1 = 4"
    using flag_dels_ok [OF "1.prems"] by blast
  obtain s2 l2 where s2: "collect_attrs s1 acc attrs = Inr (s2, l2)" "length s2 = 4"
    using collect_attrs_ok [OF s1(2)] by blast
  show ?case
  proof (cases par)
    case None with s1 s2 show ?thesis by simp
  next
    case (Some q)
    from "1.IH" [OF s1(1) s2(1) refl Some s2(2)] s1 s2 Some show ?thesis by simp
  qed
qed

lemma GetPathAttrs_walk_shadow:
  "GetPathAttrs_walk seen acc p = Inr l \<Longrightarrow>
   GetFlag seen (unat t) = Inr True \<or> t \<in> set (dels p) \<Longrightarrow>
   \<forall>b \<in> set acc. GetType b \<noteq> t \<Longrightarrow> \<forall>b \<in> set l. GetType b \<noteq> t"
proof (induction seen acc p arbitrary: l rule: GetPathAttrs_walk.induct)
  case (1 seen acc i w attrs r par ds f)
  from "1.prems"(1) obtain s1 s2 l2 where
    s1: "flag_dels seen ds = Inr s1" and s2: "collect_attrs s1 acc attrs = Inr (s2, l2)"
    by (auto split: sum.splits)
  have g1: "GetFlag s1 (unat t) = Inr True"
    using "1.prems"(2) flag_dels_mono [OF s1] flag_dels_flags [OF s1] by auto
  from collect_attrs_shadow [OF s2 g1 "1.prems"(3)]
  have g2: "GetFlag s2 (unat t) = Inr True" and n2: "\<forall>b \<in> set l2. GetType b \<noteq> t" by auto
  show ?case
  proof (cases par)
    case None with s1 s2 "1.prems"(1) n2 show ?thesis by simp
  next
    case (Some q)
    with s1 s2 "1.prems"(1) have w: "GetPathAttrs_walk s2 l2 q = Inr l" by simp
    from "1.IH" [OF s1 s2 refl Some w _ n2] g2 show ?thesis by blast
  qed
qed

lemma GetPathAttrs_total: "\<exists>l. GetPathAttrs p = Inr l"
  unfolding GetPathAttrs_def by (rule GetPathAttrs_walk_ok) (simp add: NewBitmap_def)

lemma GetPathAttrs_dels:
  "GetPathAttrs p = Inr l \<Longrightarrow> t \<in> set (dels p) \<Longrightarrow> \<forall>b \<in> set l. GetType b \<noteq> t"
  unfolding GetPathAttrs_def using GetPathAttrs_walk_shadow [of "NewBitmap 255" "[]" p l t] by simp

lemma getPathAttr_dels: "t \<in> set (dels p) \<Longrightarrow> getPathAttr p t = None"
  by (cases p) simp

lemma dels_setPathAttr: "dels (setPathAttr a p) = dels p"
  by (cases p) (simp add: setPathAttr_def split: option.splits)

lemma dels_delPathAttr: "dels (delPathAttr t p) = dels p @ [t]"
  by (cases p) (simp add: delPathAttr_def)

text \<open>
  Claim C10. On a single Path node, deleting attribute type \<open>t\<close> and then setting an
  attribute \<open>a\<close> of type \<open>t\<close> on the same node leaves the attribute invisible: the lookup
  \<open>getPathAttr\<close> of \<open>t\<close> returns nothing and the list \<open>GetPathAttrs\<close> (which always
  returns) has no attribute of type \<open>t\<close>, since the node's deletes are consulted before its
  own attributes and \<open>setPathAttr\<close> never clears them.
\<close>

theorem del_shadows_set:
  "GetType a = t \<Longrightarrow>
   getPathAttr (setPathAttr a (delPathAttr t p)) t = None \<and>
   (\<exists>l. GetPathAttrs (setPathAttr a (delPathAttr t p)) = Inr l \<and> (\<forall>b \<in> set l. GetType b \<noteq> t))"
proof -
  let ?q = "setPathAttr a (delPathAttr t p)"
  have d: "t \<in> set (dels ?q)" by (simp add: dels_setPathAttr dels_delPathAttr)
  obtain l where l: "GetPathAttrs ?q = Inr l" using GetPathAttrs_total by blast
  from getPathAttr_dels [OF d] l GetPathAttrs_dels [OF l d] show ?thesis by blast
qed


theorem del_shadows_set_witness:
  "GetType (PathAttributeMultiExitDisc 9) = BGP_ATTR_TYPE_MULTI_EXIT_DISC \<and>
   getPathAttr (setPathAttr (PathAttributeMultiExitDisc 9)
      (delPathAttr BGP_ATTR_TYPE_MULTI_EXIT_DISC wit_path)) BGP_ATTR_TYPE_MULTI_EXIT_DISC = None \<and>
   GetPathAttrs (setPathAttr (PathAttributeMultiExitDisc 9)
      (delPathAttr BGP_ATTR_TYPE_MULTI_EXIT_DISC wit_path)) = Inr [PathAttributeLocalPref 100]"
  using del_shadows_set [of "PathAttributeMultiExitDisc 9" BGP_ATTR_TYPE_MULTI_EXIT_DISC wit_path]
  by (simp add: wit_path_def setPathAttr_def delPathAttr_def GetPathAttrs_def NewBitmap_def
      attr_type_defs Flag_def GetFlag_def)

text \<open>
  Claim C9. \<open>NewPath\<close> returns nil exactly when the path is not a withdraw and the attribute
  list is nil; otherwise the returned path has no parent, is its own root, and the identity
  fields read through the root are the source, NLRI, timestamp and no-implicit-withdraw flag
  given to the constructor.
\<close>

theorem NewPath_nil_iff:
  "(NewPath src n w pattrs ts ni = None \<longleftrightarrow> (\<not> w \<and> pattrs = None)) \<and>
   (\<forall>p. NewPath src n w pattrs ts ni = Some p \<longrightarrow>
      parent p = None \<and> root p = p \<and> IsWithdraw p = w \<and>
      GetSource p = Inr src \<and> GetNlri p = Inr n \<and> GetTimestamp p = Inr ts \<and>
      NoImplicitWithdraw p = Inr ni)"
  by (auto simp: NewPath_def OriginInfo_def GetSource_def GetNlri_def GetTimestamp_def
      NoImplicitWithdraw_def)

theorem NewPath_nil_iff_witness:
  "NewPath wit_src wit_nlri False None 5 True = None \<and>
   (\<exists>p. NewPath wit_src wit_nlri True None 5 True = Some p \<and>
      parent p = None \<and> root p = p \<and> IsWithdraw p = True \<and>
      GetSource p = Inr wit_src \<and> GetNlri p = Inr wit_nlri \<and> GetTimestamp p = Inr 5 \<and>
      NoImplicitWithdraw p = Inr True)"
  using NewPath_nil_iff [of wit_src wit_nlri True None 5 True]
    NewPath_nil_iff [of wit_src wit_nlri False None 5 True]
  by (simp add: NewPath_def)

section \<open>Properties of the session state machine\<close>

lemma send_counts_on_success:
  "send t False False False now pConf = (r, e, pConf') \<Longrightarrow>
   Total (State_Messages_Sent pConf') = Total (State_Messages_Sent pConf) + 1"
  by (auto simp: send_def bgpMessageStateUpdate_def count_type_def Let_def split: if_splits)

lemma send_counts_notification:
  "Notification (State_Messages_Sent (snd (snd (send BGP_MSG_NOTIFICATION False False False now pConf))))
     = Notification (State_Messages_Sent pConf) + 1"
  by (simp add: send_def bgpMessageStateUpdate_def count_type_def Let_def msg_type_defs)

lemma recv_header_failure_discarded:
  "State_Messages_Received (recv_accounting HeaderDecodeFailed now pConf)
     = (State_Messages_Received pConf)
         \<lparr>Total := Total (State_Messages_Received pConf) + 1,
          Discarded := Discarded (State_Messages_Received pConf) + 1\<rparr>"
  by (simp add: recv_accounting_def bgpMessageStateUpdate_def count_type_def Let_def msg_type_defs)

lemma recv_update_stamps:
  "Timers_State_UpdateRecvTime (recv_accounting (BodyParsed BGP_MSG_UPDATE) now pConf) = now \<and>
   Update (State_Messages_Received (recv_accounting (BodyParsed BGP_MSG_UPDATE) now pConf))
     = Update (State_Messages_Received pConf) + 1"
  by (simp add: recv_accounting_def bgpMessageStateUpdate_def count_type_def Let_def msg_type_defs)

text \<open>
  Claim C7. Outbound messages are to be counted when they are sent, and this is claimed in
  particular for the NOTIFICATION written directly by \<open>sendNotificatonFromErrorMsg\<close>. The
  function calls \<open>bgpMessageStateUpdate\<close> only when the write returned an error: after a
  successful write the counters are unchanged (neither Total nor Notification moves), while
  the same NOTIFICATION is counted when the write failed, and the \<open>send\<close> closure of
  \<open>sendMessageloop\<close> counts it after a successful write.
\<close>

theorem notification_write_not_counted:
  "sendNotificatonFromErrorMsg False now pConf = pConf \<and>
   Notification (State_Messages_Sent (sendNotificatonFromErrorMsg False now wit_pConf)) = 0 \<and>
   Total (State_Messages_Sent (sendNotificatonFromErrorMsg False now wit_pConf)) = 0 \<and>
   Notification (State_Messages_Sent (sendNotificatonFromErrorMsg True now wit_pConf)) = 1 \<and>
   Notification (State_Messages_Sent
      (snd (snd (send BGP_MSG_NOTIFICATION False False False now wit_pConf)))) = 1"
  by (simp add: sendNotificatonFromErrorMsg_def send_def bgpMessageStateUpdate_def count_type_def
      Let_def msg_type_defs wit_pConf_def zero_counters_def)

lemma negotiated_is_min:
  "Timers_State_NegotiatedHoldTime (snd (snd (opensent_recv_open True wfl r now pConf)))
     = min (Timers_Config_HoldTime pConf) (real (unat r))"
  by (simp add: opensent_recv_open_def Let_def bgpMessageStateUpdate_def min_def)

lemma keepalive_interval_rule:
  "Timers_State_KeepaliveInterval (snd (snd (opensent_recv_open True wfl r now pConf)))
     = (if min (Timers_Config_HoldTime pConf) (real (unat r)) < Timers_Config_HoldTime pConf
        then min (Timers_Config_HoldTime pConf) (real (unat r)) / 3
        else Timers_Config_KeepaliveInterval pConf)"
  by (simp add: opensent_recv_open_def Let_def bgpMessageStateUpdate_def min_def)

lemma keepaliveTicker_inert_iff:
  "keepaliveTicker pConf = Inr None \<longleftrightarrow> Timers_State_NegotiatedHoldTime pConf = 0"
  by (simp add: keepaliveTicker_def Let_def)

lemma keepaliveTicker_whole_seconds:
  "Timers_State_NegotiatedHoldTime pConf \<noteq> 0 \<Longrightarrow> 1 \<le> Timers_State_KeepaliveInterval pConf \<Longrightarrow>
   \<exists>d. keepaliveTicker pConf = Inr (Some d) \<and> Second \<le> d"
proof -
  assume n: "Timers_State_NegotiatedHoldTime pConf \<noteq> 0" and k: "1 \<le> Timers_State_KeepaliveInterval pConf"
  have "1 \<le> go_int (Timers_State_KeepaliveInterval pConf)"
    using k by (simp add: go_int_def le_floor_iff)
  then have "Second * 1 \<le> Second * go_int (Timers_State_KeepaliveInterval pConf)"
    by (intro mult_left_mono) (simp_all add: Second_def)
  then show ?thesis using n by (simp add: keepaliveTicker_def Let_def Second_def)
qed

text \<open>
  Claim C4. The period of an armed keepalive ticker is claimed never to be below one
  second, a zero interval being clamped to one second. With a configured hold time of 90,
  a configured keepalive interval of 0.5 and a received hold time of 90, the negotiated
  hold time is 90, the keepalive interval 0.5 truncates to a zero duration, and the ticker
  is armed with the period 1, that is one nanosecond.
\<close>

theorem keepalive_clamped_to_one_nanosecond:
  "keepaliveTicker (snd (snd (opensent_recv_open True False 90 0
       (wit_pConf\<lparr>Timers_Config_KeepaliveInterval := 1 / 2\<rparr>)))) = Inr (Some 1) \<and>
   (1::int) < Second"
  by (simp add: keepaliveTicker_def opensent_recv_open_def Let_def bgpMessageStateUpdate_def
      wit_pConf_def go_int_def Second_def)

text \<open>
  Claim C8, as stated, fails: with a configured connect-retry of 30 seconds the ticker
  period is 30 seconds, yet a dial uses a timeout of 4 seconds (not 29), and on the
  activate signal the loop sleeps 5 + 3 = 8 seconds for the random draw 3, which is below
  the claimed lower bound of 30 seconds.
\<close>

theorem dial_timeout_counterexample:
  "tick wit_pConf = 30 \<and>
   connectLoop_step RetryTick BGP_FSM_ACTIVE True 3 wit_pConf
     = ([Dial ''192.0.2.2'' 179 (Some ''192.0.2.1'') (4 * Second)], True) \<and>
   4 * Second \<noteq> (tick wit_pConf - 1) * Second \<and>
   connectLoop_step GetActive BGP_FSM_ACTIVE True 3 wit_pConf
     = ([Sleep (8 * Second), Dial ''192.0.2.2'' 179 (Some ''192.0.2.1'') (4 * Second),
         NewTicker (30 * Second)], True) \<and>
   \<not> (tick wit_pConf * Second \<le> 8 * Second)"
  by (simp add: connectLoop_step_def connect_def tick_def wit_pConf_def go_int_def
      MIN_CONNECT_RETRY_def BGP_PORT_def Second_def)

text \<open>
  Claim C8, amended. Whatever the configured connect-retry, every dial of the connect loop
  uses the timeout \<open>MIN_CONNECT_RETRY - 1\<close> = 4 seconds, and a dial to the neighbor's
  address and port 179 is made when the state is ACTIVE and the local address is empty or
  resolves. On the activate signal the loop sleeps \<open>MIN_CONNECT_RETRY + rnd\<close> seconds,
  which lies in [5, 10) for a draw \<open>rnd\<close> from [0, 5), then dials, then arms the retry
  ticker with the period max(configured connect-retry, 5) seconds; on a retry tick it only
  dials.
\<close>

theorem connect_timing:
  "0 \<le> rnd \<and> rnd < MIN_CONNECT_RETRY \<longrightarrow>
   (\<forall>a p l t. Dial a p l t \<in> set (fst (connectLoop_step ev state resolved rnd pConf))
       \<longrightarrow> t = 4 * Second) \<and>
   (state = BGP_FSM_ACTIVE \<and> (Transport_Config_LocalAddress pConf = [] \<or> resolved)
       \<longrightarrow> (\<exists>l. connect state resolved pConf
               = [Dial (Config_NeighborAddress pConf) 179 l (4 * Second)])) \<and>
   (\<exists>d. connectLoop_step GetActive state resolved rnd pConf
          = (Sleep d # connect state resolved pConf
               @ [NewTicker (max (go_int (Timers_Config_ConnectRetry pConf)) 5 * Second)], True)
        \<and> 5 * Second \<le> d \<and> d < 10 * Second) \<and>
   connectLoop_step RetryTick state resolved rnd pConf = (connect state resolved pConf, True)"
  by (cases ev)
     (auto simp: connectLoop_step_def connect_def tick_def MIN_CONNECT_RETRY_def BGP_PORT_def
       Second_def max_def Let_def)

theorem connect_timing_witness:
  "(0::int) \<le> 3 \<and> 3 < MIN_CONNECT_RETRY \<and>
   connectLoop_step GetActive BGP_FSM_ACTIVE True 3 wit_pConf
     = ([Sleep (8 * Second), Dial ''192.0.2.2'' 179 (Some ''192.0.2.1'') (4 * Second),
         NewTicker (30 * Second)], True)"
  using connect_timing [of 3 GetActive BGP_FSM_ACTIVE True wit_pConf]
  by (simp add: connectLoop_step_def connect_def tick_def wit_pConf_def go_int_def
      MIN_CONNECT_RETRY_def BGP_PORT_def Second_def)

section \<open>Properties of the AS_PATH reconciler\<close>


lemma find_AsPath_none:
  "\<forall>a \<in> set attrs. \<not> is_AsPath a \<Longrightarrow> find_AsPath attrs i = None"
  by (induction attrs i rule: find_AsPath.induct) auto

lemma find_AsPath_first:
  "\<forall>a \<in> set pre. \<not> is_AsPath a \<Longrightarrow>
   find_AsPath (pre @ PathAttributeAsPath v # post) i = Some (i + length pre, v)"
  by (induction pre i rule: find_AsPath.induct) auto

lemma push16: "push_bit 16 (1::uint32) - 1 = 65535"
  by simp

lemma as2Path_loop_eq:
  "as2Path_loop as mk acc = (mk \<or> (\<exists>a \<in> set as. 65535 < a), acc @ map legacy_as as)"
  by (induction as arbitrary: mk acc) (auto simp: legacy_as_def)

lemma as2Params_loop_eq:
  "as2Params_loop (map P4 segs) as4 as2 mk =
     Inr (as4 @ filter (\<lambda>seg. \<not> confed_segment seg) segs,
          as2 @ map (P2 \<circ> legacy_segment) segs,
          mk \<or> needs_AS4_PATH segs)"
  by (induction segs arbitrary: as4 as2 mk)
     (auto simp: as2Path_loop_eq legacy_segment_def NewAsPathParam_def needs_AS4_PATH_def
        confed_segment_def)

lemma as2Params_loop_panic:
  "P2 q \<in> set v \<Longrightarrow> as2Params_loop v as4 as2 mk = Inl TypeAssertion"
  by (induction v as4 as2 mk rule: as2Params_loop.induct) (auto split: prod.splits)

lemma UpdatePathAttrs2ByteAs_no_AsPath:
  "\<forall>a \<in> set (PathAttributes msg). \<not> is_AsPath a \<Longrightarrow> UpdatePathAttrs2ByteAs msg = Inr msg"
  by (simp add: UpdatePathAttrs2ByteAs_def find_AsPath_none)

lemma UpdatePathAttrs2ByteAs_first_AsPath:
  "PathAttributes msg = pre @ PathAttributeAsPath (map P4 segs) # post \<Longrightarrow>
   \<forall>a \<in> set pre. \<not> is_AsPath a \<Longrightarrow>
   UpdatePathAttrs2ByteAs msg =
     Inr (msg\<lparr>PathAttributes :=
            pre @ PathAttributeAsPath (map (P2 \<circ> legacy_segment) segs) # post
              @ (if needs_AS4_PATH segs
                 then [PathAttributeAs4Path (filter (\<lambda>seg. \<not> confed_segment seg) segs)]
                 else [])\<rparr>)"
  by (auto simp: UpdatePathAttrs2ByteAs_def find_AsPath_first as2Params_loop_eq list_update_append)

text \<open>
  Claim C6. An UPDATE without an AS_PATH attribute is returned unchanged. Otherwise, with
  the segments of the first AS_PATH in 4-byte form, \<open>UpdatePathAttrs2ByteAs\<close> replaces
  that attribute by the legacy segments, in which every AS above 65535 is \<open>AS_TRANS\<close> and
  every other AS is kept, leaves the other attributes as they are, and appends an AS4_PATH
  attribute exactly when some AS was substituted; the AS4_PATH holds the original 4-byte
  segments without the AS_CONFED_SEQUENCE and AS_CONFED_SET ones.
\<close>

theorem downgrade_to_2byte:
  "(\<not> (\<exists>a \<in> set (PathAttributes msg). is_AsPath a)
      \<longrightarrow> UpdatePathAttrs2ByteAs msg = Inr msg) \<and>
   (PathAttributes msg = pre @ PathAttributeAsPath (map P4 segs) # post
      \<and> (\<forall>a \<in> set pre. \<not> is_AsPath a)
      \<longrightarrow> UpdatePathAttrs2ByteAs msg =
            Inr (msg\<lparr>PathAttributes :=
                   pre @ PathAttributeAsPath (map (P2 \<circ> legacy_segment) segs) # post
                     @ (if needs_AS4_PATH segs
                        then [PathAttributeAs4Path (filter (\<lambda>seg. \<not> confed_segment seg) segs)]
                        else [])\<rparr>))"
  using UpdatePathAttrs2ByteAs_no_AsPath [of msg] UpdatePathAttrs2ByteAs_first_AsPath [of msg pre segs post]
  by blast

theorem downgrade_to_2byte_witness:
  "UpdatePathAttrs2ByteAs wit_update4 =
     Inr \<lparr>WithdrawnRoutes = [],
          PathAttributes =
            [PathAttributeNextHop ''192.0.2.1'',
             PathAttributeAsPath [P2 (AsPathParam 2 3 [23456, 300, 400]), P2 (AsPathParam 3 1 [23456])],
             PathAttributeMultiExitDisc 10,
             PathAttributeAs4Path [As4PathParam 2 3 [131073, 300, 400]]],
          NLRI = [wit_nlri]\<rparr> \<and>
   UpdatePathAttrs2ByteAs (wit_update4\<lparr>PathAttributes := [PathAttributeNextHop ''192.0.2.1'']\<rparr>)
     = Inr (wit_update4\<lparr>PathAttributes := [PathAttributeNextHop ''192.0.2.1'']\<rparr>)"
  using downgrade_to_2byte [of wit_update4 "[PathAttributeNextHop ''192.0.2.1'']"
      "[As4PathParam 2 3 [131073, 300, 400], As4PathParam 3 1 [70000]]"
      "[PathAttributeMultiExitDisc 10]"]
    downgrade_to_2byte [of "wit_update4\<lparr>PathAttributes := [PathAttributeNextHop ''192.0.2.1'']\<rparr>"]
  by (simp add: wit_update4_def legacy_segment_def legacy_as_def needs_AS4_PATH_def
      confed_segment_def seg_type_defs AS_TRANS_def)

lemma ucast16_roundtrip: "ucast (ucast (a::uint16) :: uint32) = a"
  by (rule ucast_up_ucast_id) (simp add: is_up)

lemma ucast16_small: "\<not> 65535 < (ucast (a::uint16) :: uint32)"
proof -
  have lt: "unat a < 65536" using unsigned_less [of a] by simp
  have "unat (ucast a :: uint32) = take_bit 32 (unat a)" by (simp add: unsigned_ucast_eq)
  also have "\<dots> = unat a" using lt by (simp add: take_bit_nat_eq_self)
  finally show ?thesis using lt by (simp add: word_less_nat_alt)
qed

lemma legacy_as_ucast: "legacy_as (ucast (a::uint16)) = a"
  by (simp add: legacy_as_def ucast16_small ucast16_roundtrip)

lemma legacy_segment_widen:
  "as2_Num s = of_nat (length (as2_AS s)) \<Longrightarrow> legacy_segment (widen_param (P2 s)) = s"
  by (cases s) (simp add: legacy_segment_def NewAs4PathParam_def comp_def legacy_as_ucast)

lemma needs_AS4_PATH_widen: "\<not> needs_AS4_PATH (map (widen_param \<circ> P2) segs)"
  by (auto simp: needs_AS4_PATH_def NewAs4PathParam_def ucast16_small)

lemma scan_attrs_append:
  "scan_attrs (xs @ ys) i a ap b bp d =
     (case scan_attrs xs i a ap b bp d of
        (d', a', ap', b', bp') \<Rightarrow> scan_attrs ys (i + length xs) a' ap' b' bp' d')"
  by (induction xs i a ap b bp d rule: scan_attrs.induct) simp_all

lemma scan_attrs_plain:
  "\<forall>x \<in> set xs. \<not> is_AsPath x \<and> \<not> is_As4Path x \<Longrightarrow>
   scan_attrs xs i a ap b bp d = (d @ xs, a, ap, b, bp)"
  by (induction xs i a ap b bp d rule: scan_attrs.induct) simp_all

lemma scan_attrs_no_As4Path:
  "\<forall>x \<in> set xs. \<not> is_As4Path x \<Longrightarrow>
   \<exists>a' ap'. scan_attrs xs i a ap b bp d = (d @ map widen_attr xs, a', ap', b, bp)"
  by (induction xs i a ap b bp d rule: scan_attrs.induct) (simp_all add: widen_attr_def)

lemma UpdatePathAttrs4ByteAs_no_As4Path:
  assumes "\<forall>x \<in> set (PathAttributes msg). \<not> is_As4Path x"
  shows "UpdatePathAttrs4ByteAs msg = Inr (msg\<lparr>PathAttributes := map widen_attr (PathAttributes msg)\<rparr>)"
proof -
  obtain a' ap' where
    "scan_attrs (PathAttributes msg) 0 None 0 None 0 [] = (map widen_attr (PathAttributes msg), a', ap', None, 0)"
    using scan_attrs_no_As4Path [OF assms, of 0 None 0 None 0 "[]"] by auto
  then show ?thesis by (cases a') (simp_all add: UpdatePathAttrs4ByteAs_def Let_def)
qed

lemma map_widen_attr_plain: "\<forall>x \<in> set xs. \<not> is_AsPath x \<Longrightarrow> map widen_attr xs = xs"
proof (induction xs)
  case Nil then show ?case by simp
next
  case (Cons x xs)
  then show ?case by (cases x) (simp_all add: widen_attr_def)
qed

lemma roundtrip_no_AsPath:
  assumes "\<forall>a \<in> set (PathAttributes msg). \<not> is_As4Path a"
    and "\<forall>a \<in> set (PathAttributes msg). \<not> is_AsPath a"
  shows "downgrade_after_reconcile msg = Inr msg"
  using assms
  by (simp add: downgrade_after_reconcile_def UpdatePathAttrs4ByteAs_no_As4Path
      map_widen_attr_plain UpdatePathAttrs2ByteAs_no_AsPath)

lemma roundtrip_one_AsPath:
  assumes no4: "\<forall>a \<in> set (PathAttributes msg). \<not> is_As4Path a"
    and dec: "PathAttributes msg = pre @ PathAttributeAsPath (map P2 segs) # post"
    and one: "\<forall>a \<in> set (pre @ post). \<not> is_AsPath a"
    and num: "\<forall>s \<in> set segs. as2_Num s = of_nat (length (as2_AS s))"
  shows "downgrade_after_reconcile msg = Inr msg"
proof -
  let ?m = "msg\<lparr>PathAttributes := map widen_attr (PathAttributes msg)\<rparr>"
  have pre: "map widen_attr pre = pre" and post: "map widen_attr post = post"
    using one by (simp_all add: map_widen_attr_plain)
  have w: "PathAttributes ?m = pre @ PathAttributeAsPath (map P4 (map (widen_param \<circ> P2) segs)) # post"
    using dec pre post by (simp add: widen_attr_def)
  have p: "\<forall>a \<in> set pre. \<not> is_AsPath a" using one by simp
  have rt: "map (P2 \<circ> legacy_segment) (map (widen_param \<circ> P2) segs) = map P2 segs"
    using num legacy_segment_widen by (simp del: widen_param.simps)
  have "UpdatePathAttrs2ByteAs ?m = Inr (?m\<lparr>PathAttributes := pre @ PathAttributeAsPath (map P2 segs) # post\<rparr>)"
    using UpdatePathAttrs2ByteAs_first_AsPath [OF w p] rt needs_AS4_PATH_widen [of segs] by simp
  also have "?m\<lparr>PathAttributes := pre @ PathAttributeAsPath (map P2 segs) # post\<rparr> = msg"
    using dec by simp
  finally show ?thesis
    using no4 by (simp add: downgrade_after_reconcile_def UpdatePathAttrs4ByteAs_no_As4Path)
qed

text \<open>
  Claim C2, amended. On an UPDATE that has no AS4_PATH attribute and at most one AS_PATH
  attribute, whose segments are in the 2-byte wire form (so that every AS is at most 65535)
  with the segment count equal to the number of ASes, reconciling and then downgrading
  returns the UPDATE itself.
\<close>

theorem roundtrip_identity_without_AS4_PATH:
  "(\<forall>a \<in> set (PathAttributes msg). \<not> is_As4Path a) \<and>
   ((\<forall>a \<in> set (PathAttributes msg). \<not> is_AsPath a) \<or>
    (PathAttributes msg = pre @ PathAttributeAsPath (map P2 segs) # post
       \<and> (\<forall>a \<in> set (pre @ post). \<not> is_AsPath a)
       \<and> (\<forall>s \<in> set segs. as2_Num s = of_nat (length (as2_AS s)))))
   \<longrightarrow> downgrade_after_reconcile msg = Inr msg"
  using roundtrip_no_AsPath [of msg] roundtrip_one_AsPath [of msg pre segs post] by blast

theorem roundtrip_identity_witness:
  "downgrade_after_reconcile wit_update2 = Inr wit_update2"
  using roundtrip_identity_without_AS4_PATH [of wit_update2 "[PathAttributeNextHop ''192.0.2.1'']"
      "[AsPathParam 2 3 [23456, 300, 400], AsPathParam 1 2 [7, 8]]" "[PathAttributeMultiExitDisc 10]"]
  by (simp add: wit_update2_def)

text \<open>
  Claim C2, as stated, fails: the UPDATE with AS_PATH = SEQ[100, 200] (2-byte form) and
  AS4_PATH = SEQ[200], which has no confederation segment, comes back from the
  reconciliation with AS_PATH = SEQ[100, 200] alone, and the downgrade, finding no AS above
  65535, does not produce an AS4_PATH: the result lacks the AS4_PATH of the original.
\<close>

theorem roundtrip_counterexample:
  "\<not> confed_segment (As4PathParam 2 1 [200]) \<and>
   PathAttributes cex_update2 =
     [PathAttributeAsPath [P2 (AsPathParam 2 2 [100, 200])],
      PathAttributeAs4Path [As4PathParam 2 1 [200]]] \<and>
   downgrade_after_reconcile cex_update2 =
     Inr (cex_update2\<lparr>PathAttributes := [PathAttributeAsPath [P2 (AsPathParam 2 2 [100, 200])]]\<rparr>) \<and>
   downgrade_after_reconcile cex_update2 \<noteq> Inr cex_update2"
  by (simp add: cex_update2_def downgrade_after_reconcile_def UpdatePathAttrs4ByteAs_def
      UpdatePathAttrs2ByteAs_def ASLen_def NewAs4PathParam_def NewAsPathParam_def
      confed_segment_def seg_type_defs AS_TRANS_def)


lemma asLen_loop_eq:
  "asLen_loop ps a c = (a + path_length ps, c + confed_length ps)"
  by (induction ps arbitrary: a c) (simp_all add: path_length_def confed_length_def)

lemma as4Len_loop_eq:
  "as4Len_loop qs l acc =
     (l + path_length (filter (\<lambda>s. \<not> confed_segment s) qs),
      acc @ filter (\<lambda>s. \<not> confed_segment s) qs)"
  by (induction qs arbitrary: l acc) (simp_all add: path_length_def confed_segment_def)

lemma ASLen_nonneg: "0 \<le> ASLen p"
  by (simp add: ASLen_def)

lemma ASLen_le_length: "ASLen p \<le> 1 + int (length (as4_AS p))"
  by (simp add: ASLen_def)

lemma path_length_nonneg: "0 \<le> path_length ps"
  by (induction ps) (simp_all add: path_length_def ASLen_nonneg)

lemma path_length_Cons: "path_length (p # ps) = ASLen p + path_length ps"
  by (simp add: path_length_def)

lemma path_length_append: "path_length (xs @ ys) = path_length xs + path_length ys"
  by (simp add: path_length_def)

lemma path_ases_Cons: "path_ases (p # ps) = as4_AS p @ path_ases ps"
  by (simp add: path_ases_def)

lemma path_ases_append: "path_ases (xs @ ys) = path_ases xs @ path_ases ys"
  by (simp add: path_ases_def)

lemma keep_loop_ok:
  "0 \<le> k \<Longrightarrow>
   \<exists>kept rest. keep_loop ps k acc = Inr (acc @ kept, rest) \<and> (ps \<noteq> [] \<longrightarrow> kept \<noteq> []) \<and>
     (\<exists>j. path_ases kept = take j (path_ases ps))"
proof (induction ps k acc rule: keep_loop.induct)
  case (1 keepNum newParams)
  then show ?case by (simp add: path_ases_def)
next
  case (2 param rest keepNum newParams)
  show ?case
  proof (cases "keepNum - ASLen param \<ge> 0")
    case whole: True
    show ?thesis
    proof (cases "keepNum - ASLen param \<le> 0")
      case True
      have "path_ases [param] = take (length (as4_AS param)) (path_ases (param # rest))"
        by (simp add: path_ases_def)
      with whole True show ?thesis by auto
    next
      case False
      then have "0 \<le> keepNum - ASLen param" by simp
      from "2.IH" [OF whole False this] obtain kept r j where
        k: "keep_loop rest (keepNum - ASLen param) (newParams @ [param]) = Inr ((newParams @ [param]) @ kept, r)"
        and j: "path_ases kept = take j (path_ases rest)" by blast
      have "path_ases (param # kept) = take (length (as4_AS param) + j) (path_ases (param # rest))"
        using j by (simp add: path_ases_Cons)
      with whole False k show ?thesis by auto
    qed
  next
    case cut: False
    then have lt: "keepNum < ASLen param" by simp
    have le: "keepNum \<le> int (length (as4_AS param))"
      using lt "2.prems" by (auto simp: ASLen_def split: if_splits)
    have "path_ases [As4PathParam (as4_Type param) (as4_Num param) (take (nat keepNum) (as4_AS param))]
        = take (nat keepNum) (path_ases (param # rest))"
      using le "2.prems" by (simp add: path_ases_def)
    with cut le "2.prems" show ?thesis by auto
  qed
qed

lemma keep_loop_length:
  "0 < k \<Longrightarrow> k \<le> path_length ps \<Longrightarrow> keep_loop ps k acc = Inr (acc @ kept, rest) \<Longrightarrow>
   path_length kept = k"
proof (induction ps k acc arbitrary: kept rule: keep_loop.induct)
  case (1 keepNum newParams)
  then show ?case by (simp add: path_length_def)
next
  case (2 param ps keepNum newParams)
  show ?case
  proof (cases "keepNum - ASLen param \<ge> 0")
    case whole: True
    show ?thesis
    proof (cases "keepNum - ASLen param \<le> 0")
      case True
      with whole "2.prems" have "kept = [param]" by simp
      with whole True show ?thesis by (simp add: path_length_def)
    next
      case False
      with whole "2.prems"(3) have
        k: "keep_loop ps (keepNum - ASLen param) (newParams @ [param]) = Inr (newParams @ kept, rest)"
        by simp
      obtain kept' r where k': "keep_loop ps (keepNum - ASLen param) (newParams @ [param]) = Inr ((newParams @ [param]) @ kept', r)"
        using keep_loop_ok [of "keepNum - ASLen param" ps "newParams @ [param]"] whole by blast
      with k have kept: "kept = param # kept'" and r: "r = rest" by simp_all
      have "path_length kept' = keepNum - ASLen param"
        using "2.IH" [OF whole False _ _ k' [unfolded r]] False "2.prems"(2)
        by (simp add: path_length_Cons)
      with kept show ?thesis by (simp add: path_length_Cons)
    qed
  next
    case cut: False
    then have lt: "keepNum < ASLen param" by simp
    with "2.prems"(1) have seq: "as4_Type param = BGP_ASPATH_ATTR_TYPE_SEQ" and
      le: "keepNum < int (length (as4_AS param))"
      by (auto simp: ASLen_def split: if_splits)
    with cut "2.prems" have
      "kept = [As4PathParam (as4_Type param) (as4_Num param) (take (nat keepNum) (as4_AS param))]"
      by (simp split: if_splits)
    with seq le "2.prems"(1) show ?thesis by (simp add: path_length_def ASLen_def)
  qed
qed

lemma keep_loop_zero:
  "ps \<noteq> [] \<Longrightarrow> as4_Type (hd ps) \<noteq> BGP_ASPATH_ATTR_TYPE_SET \<Longrightarrow>
   keep_loop ps 0 acc = Inr (acc @ kept, rest) \<Longrightarrow> path_length kept = 0"
proof (cases ps)
  case Nil
  assume "ps \<noteq> []" with Nil show ?thesis by simp
next
  case (Cons p ps')
  assume "as4_Type (hd ps) \<noteq> BGP_ASPATH_ATTR_TYPE_SET" and "keep_loop ps 0 acc = Inr (acc @ kept, rest)"
  with Cons show ?thesis
    using ASLen_nonneg [of p]
    by (auto simp: path_length_def ASLen_def split: if_splits)
qed

lemma graft_loop_ok:
  "new \<noteq> [] \<Longrightarrow> length (path_ases new) + length (path_ases qs) \<le> 255 \<Longrightarrow>
   \<exists>r. graft_loop qs new = Inr r \<and> path_ases r = path_ases new @ path_ases qs \<and>
        path_length r = path_length new + path_length qs"
proof (induction qs arbitrary: new)
  case Nil
  then show ?case by (simp add: path_ases_def path_length_def)
next
  case (Cons q qs)
  from Cons.prems(1) obtain bs lp where new: "new = bs @ [lp]"
    by (cases new rule: rev_cases) auto
  show ?case
  proof (cases "as4_Type q = as4_Type lp \<and> as4_Type q = BGP_ASPATH_ATTR_TYPE_SEQ")
    case True
    let ?lp' = "As4PathParam (as4_Type lp) (as4_Num lp) (as4_AS lp @ as4_AS q)"
    let ?new' = "bs @ [?lp']"
    have fit: "\<not> length (as4_AS lp) + length (as4_AS q) > 255"
      using Cons.prems(2) by (simp add: new path_ases_def)
    have step: "graft_loop (q # qs) new = graft_loop qs ?new'"
      using True fit by (auto simp: new Let_def)
    have ases: "path_ases ?new' = path_ases new @ as4_AS q"
      by (simp add: new path_ases_def)
    have seq: "as4_Type lp = BGP_ASPATH_ATTR_TYPE_SEQ" "as4_Type q = BGP_ASPATH_ATTR_TYPE_SEQ"
      using True by auto
    have len: "path_length ?new' = path_length new + ASLen q"
      by (simp add: new path_length_def ASLen_def seq)
    have "length (path_ases ?new') + length (path_ases qs) \<le> 255"
      using Cons.prems(2) by (simp only: ases) (simp add: path_ases_def)
    from Cons.IH [OF _ this] obtain r where
      "graft_loop qs ?new' = Inr r" "path_ases r = path_ases ?new' @ path_ases qs"
      "path_length r = path_length ?new' + path_length qs" by auto
    then show ?thesis
      by (simp only: step ases len) (simp add: path_ases_def path_length_def)
  next
    case False
    have step: "graft_loop (q # qs) new = graft_loop qs (new @ [q])"
      using False by (auto simp: new Let_def)
    have "length (path_ases (new @ [q])) + length (path_ases qs) \<le> 255"
      using Cons.prems(2) by (simp add: path_ases_def)
    from Cons.IH [OF _ this] obtain r where
      "graft_loop qs (new @ [q]) = Inr r" "path_ases r = path_ases (new @ [q]) @ path_ases qs"
      "path_length r = path_length (new @ [q]) + path_length qs" by auto
    then show ?thesis
      by (simp only: step) (simp add: path_ases_def path_length_def)
  qed
qed

lemma scan_attrs_decomposed:
  assumes "\<forall>a \<in> set (pre @ mid @ post). \<not> is_AsPath a \<and> \<not> is_As4Path a"
  shows "scan_attrs (pre @ PathAttributeAsPath ps # mid @ PathAttributeAs4Path qs # post)
           0 None 0 None 0 [] =
         (pre @ PathAttributeAsPath (map (P4 \<circ> widen_param) ps) # mid
            @ PathAttributeAs4Path qs # post,
          Some (map widen_param ps), length pre, Some qs, length pre + 1 + length mid)"
proof -
  have p: "\<forall>x \<in> set pre. \<not> is_AsPath x \<and> \<not> is_As4Path x"
    and m: "\<forall>x \<in> set mid. \<not> is_AsPath x \<and> \<not> is_As4Path x"
    and q: "\<forall>x \<in> set post. \<not> is_AsPath x \<and> \<not> is_As4Path x"
    using assms by auto
  show ?thesis
    by (simp add: scan_attrs_append [of pre] scan_attrs_append [of mid]
        scan_attrs_plain [OF p] scan_attrs_plain [OF m] scan_attrs_plain [OF q])
qed

lemma remove_at: "take (length pre + 1 + length mid) (pre @ a # mid @ b # post)
    @ drop (length pre + 1 + length mid + 1) (pre @ a # mid @ b # post) = pre @ a # mid @ post"
  by simp

lemma UpdatePathAttrs4ByteAs_decomposed:
  assumes dec: "PathAttributes msg = pre @ PathAttributeAsPath ps # mid @ PathAttributeAs4Path qs # post"
    and plain: "\<forall>a \<in> set (pre @ mid @ post). \<not> is_AsPath a \<and> \<not> is_As4Path a"
    and segs: "segs = map widen_param ps"
    and as4: "as4 = filter (\<lambda>s. \<not> confed_segment s) qs"
  shows "UpdatePathAttrs4ByteAs msg =
     (if path_length segs + confed_length segs < path_length as4
      then Inr (msg\<lparr>PathAttributes := pre @ PathAttributeAsPath (map P4 segs) # mid @ post\<rparr>)
      else (case keep_loop segs (path_length segs + confed_length segs - path_length as4) [] of
              Inl e \<Rightarrow> Inl e
            | Inr (kept, unreached) \<Rightarrow>
                (case graft_loop as4 kept of
                   Inl e \<Rightarrow> Inl e
                 | Inr new \<Rightarrow>
                     Inr (msg\<lparr>PathAttributes := pre @ PathAttributeAsPath (map P4 new) # mid @ post\<rparr>))))"
  unfolding UpdatePathAttrs4ByteAs_def dec scan_attrs_decomposed [OF plain]
  by (simp add: asLen_loop_eq as4Len_loop_eq segs as4 remove_at Let_def list_update_append
      split: sum.splits prod.splits)

lemma plain_no_As4Path:
  "\<forall>a \<in> set (pre @ mid @ post). \<not> is_AsPath a \<and> \<not> is_As4Path a \<Longrightarrow>
   \<forall>a \<in> set (pre @ PathAttributeAsPath v # mid @ post). \<not> is_As4Path a"
  by auto


lemma no_As4Path_update:
  "\<forall>a \<in> set xs. \<not> is_As4Path a \<Longrightarrow> \<not> is_As4Path x \<Longrightarrow> \<forall>a \<in> set (xs[i := x]). \<not> is_As4Path a"
  using set_update_subset_insert [of xs i x] by auto

lemma widen_attr_As4Path: "is_As4Path (widen_attr a) = is_As4Path a"
  by (cases a) (simp_all add: widen_attr_def)

lemma single_As4Path:
  assumes "length (filter is_As4Path xs) \<le> 1" and "\<exists>a \<in> set xs. is_As4Path a"
  shows "\<exists>pre v post. xs = pre @ PathAttributeAs4Path v # post \<and>
           (\<forall>a \<in> set pre. \<not> is_As4Path a) \<and> (\<forall>a \<in> set post. \<not> is_As4Path a)"
proof -
  from assms(2) obtain pre a post where
    xs: "xs = pre @ a # post" and a: "is_As4Path a" and pre: "\<forall>b \<in> set pre. \<not> is_As4Path b"
    using split_list_first_prop [of xs is_As4Path] by blast
  from a obtain v where v: "a = PathAttributeAs4Path v" by (cases a) simp_all
  have "filter is_As4Path post = []"
    using assms(1) a by (simp add: xs)
  then have "\<forall>b \<in> set post. \<not> is_As4Path b" by (simp add: filter_empty_conv)
  with xs v pre show ?thesis by blast
qed

lemma scan_attrs_single_As4Path:
  assumes pre: "\<forall>a \<in> set pre. \<not> is_As4Path a" and post: "\<forall>a \<in> set post. \<not> is_As4Path a"
  shows "\<exists>a' ap'. scan_attrs (pre @ PathAttributeAs4Path v # post) 0 None 0 None 0 [] =
     (map widen_attr pre @ PathAttributeAs4Path v # map widen_attr post, a', ap', Some v, length pre)"
proof -
  from scan_attrs_no_As4Path [OF pre, of 0 None 0 None 0 "[]"] obtain a1 ap1 where
    s1: "scan_attrs pre 0 None 0 None 0 [] = (map widen_attr pre, a1, ap1, None, 0)" by auto
  from scan_attrs_no_As4Path [OF post, of "Suc (length pre)" a1 ap1 "Some v" "length pre"
      "map widen_attr pre @ [PathAttributeAs4Path v]"] obtain a2 ap2 where
    s2: "scan_attrs post (Suc (length pre)) a1 ap1 (Some v) (length pre)
           (map widen_attr pre @ [PathAttributeAs4Path v]) =
         ((map widen_attr pre @ [PathAttributeAs4Path v]) @ map widen_attr post, a2, ap2, Some v, length pre)"
    by auto
  show ?thesis
    by (simp add: scan_attrs_append [of pre] s1 s2)
qed

lemma UpdatePathAttrs4ByteAs_removes_As4Path:
  assumes one: "length (filter is_As4Path (PathAttributes msg)) \<le> 1"
    and res: "UpdatePathAttrs4ByteAs msg = Inr r"
  shows "\<forall>a \<in> set (PathAttributes r). \<not> is_As4Path a"
proof (cases "\<exists>a \<in> set (PathAttributes msg). is_As4Path a")
  case False
  then have "UpdatePathAttrs4ByteAs msg = Inr (msg\<lparr>PathAttributes := map widen_attr (PathAttributes msg)\<rparr>)"
    by (intro UpdatePathAttrs4ByteAs_no_As4Path) simp
  with res False show ?thesis by (auto simp: widen_attr_As4Path)
next
  case True
  from single_As4Path [OF one True] obtain pre v post where
    dec: "PathAttributes msg = pre @ PathAttributeAs4Path v # post"
    and pre: "\<forall>a \<in> set pre. \<not> is_As4Path a" and post: "\<forall>a \<in> set post. \<not> is_As4Path a" by blast
  from scan_attrs_single_As4Path [OF pre post, of v] obtain a' ap' where
    sc: "scan_attrs (PathAttributes msg) 0 None 0 None 0 [] =
     (map widen_attr pre @ PathAttributeAs4Path v # map widen_attr post, a', ap', Some v, length pre)"
    by (auto simp: dec)
  let ?X = "map widen_attr pre @ map widen_attr post"
  have X: "\<forall>a \<in> set ?X. \<not> is_As4Path a"
    using pre post by (auto simp: widen_attr_As4Path)
  have rm: "take (length pre) (map widen_attr pre @ PathAttributeAs4Path v # map widen_attr post)
      @ drop (length pre + 1) (map widen_attr pre @ PathAttributeAs4Path v # map widen_attr post) = ?X"
    by simp
  have upd1: "\<forall>a \<in> set (?X[i := PathAttributeAsPath w]). \<not> is_As4Path a" for i w
    by (rule no_As4Path_update [OF X]) simp
  have upd2: "\<forall>a \<in> set (?X[i := PathAttributeAsPath w, j := PathAttributeAsPath w']). \<not> is_As4Path a"
    for i w j w'
    by (rule no_As4Path_update [OF upd1]) simp
  have X': "\<not> is_As4Path a" if "a \<in> set ?X" for a using X that by blast
  have upd1': "\<not> is_As4Path a" if "a \<in> set (?X[i := PathAttributeAsPath w])" for a i w
    using upd1 [of i w] that by blast
  have upd2': "\<not> is_As4Path a"
    if "a \<in> set (?X[i := PathAttributeAsPath w, j := PathAttributeAsPath w'])" for a i w j w'
    using upd2 [of i w j w'] that by blast
  from res show ?thesis
    unfolding UpdatePathAttrs4ByteAs_def sc
    by (simp only: prod.case option.simps rm Let_def if_True)
       (auto split: option.splits prod.splits if_splits sum.splits dest: X' upd1' upd2'
          simp: widen_attr_As4Path pre post)
qed

lemma reconcile_decomposed:
  "PathAttributes msg = pre @ PathAttributeAsPath ps # mid @ PathAttributeAs4Path qs # post \<and>
   (\<forall>a \<in> set (pre @ mid @ post). \<not> is_AsPath a \<and> \<not> is_As4Path a) \<and>
   segs = map widen_param ps \<and> as4 = filter (\<lambda>s. \<not> confed_segment s) qs
   \<longrightarrow>
   (\<forall>r. UpdatePathAttrs4ByteAs msg = Inr r \<longrightarrow> (\<forall>a \<in> set (PathAttributes r). \<not> is_As4Path a)) \<and>
   (path_length segs + confed_length segs < path_length as4 \<longrightarrow>
      UpdatePathAttrs4ByteAs msg =
        Inr (msg\<lparr>PathAttributes := pre @ PathAttributeAsPath (map P4 segs) # mid @ post\<rparr>)) \<and>
   (path_length as4 \<le> path_length segs + confed_length segs \<and> ps \<noteq> [] \<and>
    length (path_ases segs) + length (path_ases as4) \<le> 255 \<longrightarrow>
      (\<exists>new j. UpdatePathAttrs4ByteAs msg =
            Inr (msg\<lparr>PathAttributes := pre @ PathAttributeAsPath (map P4 new) # mid @ post\<rparr>) \<and>
          path_ases new = take j (path_ases segs) @ path_ases as4 \<and>
          (confed_length segs = 0 \<and>
           \<not> (path_length as4 = path_length segs \<and> as4_Type (hd segs) = BGP_ASPATH_ATTR_TYPE_SET)
           \<longrightarrow> path_length new = max (path_length segs) (path_length as4))))"
proof (intro impI, elim conjE)
  assume dec: "PathAttributes msg = pre @ PathAttributeAsPath ps # mid @ PathAttributeAs4Path qs # post"
    and plain: "\<forall>a \<in> set (pre @ mid @ post). \<not> is_AsPath a \<and> \<not> is_As4Path a"
    and segs: "segs = map widen_param ps"
    and as4: "as4 = filter (\<lambda>s. \<not> confed_segment s) qs"
  note U = UpdatePathAttrs4ByteAs_decomposed [OF dec plain segs as4]
  let ?K = "path_length segs + confed_length segs - path_length as4"
  have no4: "\<forall>r. UpdatePathAttrs4ByteAs msg = Inr r \<longrightarrow> (\<forall>a \<in> set (PathAttributes r). \<not> is_As4Path a)"
  proof (intro allI impI)
    fix r assume r: "UpdatePathAttrs4ByteAs msg = Inr r"
    then obtain v where "PathAttributes r = pre @ PathAttributeAsPath v # mid @ post"
      unfolding U by (auto split: if_splits sum.splits prod.splits)
    then show "\<forall>a \<in> set (PathAttributes r). \<not> is_As4Path a"
      using plain_no_As4Path [OF plain, of v] by simp
  qed
  have discard: "path_length segs + confed_length segs < path_length as4 \<longrightarrow>
      UpdatePathAttrs4ByteAs msg =
        Inr (msg\<lparr>PathAttributes := pre @ PathAttributeAsPath (map P4 segs) # mid @ post\<rparr>)"
    unfolding U by simp
  have merge: "path_length as4 \<le> path_length segs + confed_length segs \<and> ps \<noteq> [] \<and>
    length (path_ases segs) + length (path_ases as4) \<le> 255 \<longrightarrow>
      (\<exists>new j. UpdatePathAttrs4ByteAs msg =
            Inr (msg\<lparr>PathAttributes := pre @ PathAttributeAsPath (map P4 new) # mid @ post\<rparr>) \<and>
          path_ases new = take j (path_ases segs) @ path_ases as4 \<and>
          (confed_length segs = 0 \<and>
           \<not> (path_length as4 = path_length segs \<and> as4_Type (hd segs) = BGP_ASPATH_ATTR_TYPE_SET)
           \<longrightarrow> path_length new = max (path_length segs) (path_length as4)))"
  proof (intro impI, elim conjE)
    assume le: "path_length as4 \<le> path_length segs + confed_length segs"
      and ne: "ps \<noteq> []"
      and short: "length (path_ases segs) + length (path_ases as4) \<le> 255"
    have K0: "0 \<le> ?K" using le by simp
    have sne: "segs \<noteq> []" using ne segs by simp
    from keep_loop_ok [OF K0, of segs "[]"] sne obtain kept unreached j where
      keep: "keep_loop segs ?K [] = Inr (kept, unreached)" and kne: "kept \<noteq> []"
      and pre_ases: "path_ases kept = take j (path_ases segs)" by auto
    have "length (path_ases kept) + length (path_ases as4) \<le> 255"
      using short by (simp add: pre_ases)
    from graft_loop_ok [OF kne this] obtain new where
      graft: "graft_loop as4 kept = Inr new"
      and ases: "path_ases new = path_ases kept @ path_ases as4"
      and len: "path_length new = path_length kept + path_length as4" by blast
    have res: "UpdatePathAttrs4ByteAs msg =
        Inr (msg\<lparr>PathAttributes := pre @ PathAttributeAsPath (map P4 new) # mid @ post\<rparr>)"
      unfolding U using le keep graft by simp
    have lenprop: "confed_length segs = 0 \<and>
           \<not> (path_length as4 = path_length segs \<and> as4_Type (hd segs) = BGP_ASPATH_ATTR_TYPE_SET)
           \<longrightarrow> path_length new = max (path_length segs) (path_length as4)"
    proof (intro impI, elim conjE)
      assume c0: "confed_length segs = 0"
        and noset: "\<not> (path_length as4 = path_length segs \<and> as4_Type (hd segs) = BGP_ASPATH_ATTR_TYPE_SET)"
      have keep': "keep_loop segs ?K [] = Inr ([] @ kept, unreached)" using keep by simp
      have "path_length kept = ?K"
      proof (cases "0 < ?K")
        case True
        have "?K \<le> path_length segs" using c0 path_length_nonneg [of as4] by simp
        from keep_loop_length [OF True this keep'] show ?thesis .
      next
        case False
        with K0 have z: "?K = 0" by simp
        with c0 have "path_length as4 = path_length segs" by simp
        with noset have "as4_Type (hd segs) \<noteq> BGP_ASPATH_ATTR_TYPE_SET" by simp
        from keep_loop_zero [OF sne this keep' [unfolded z]] z show ?thesis by simp
      qed
      with len c0 le show "path_length new = max (path_length segs) (path_length as4)"
        by simp
    qed
    from res ases pre_ases lenprop show "\<exists>new j. UpdatePathAttrs4ByteAs msg =
            Inr (msg\<lparr>PathAttributes := pre @ PathAttributeAsPath (map P4 new) # mid @ post\<rparr>) \<and>
          path_ases new = take j (path_ases segs) @ path_ases as4 \<and>
          (confed_length segs = 0 \<and>
           \<not> (path_length as4 = path_length segs \<and> as4_Type (hd segs) = BGP_ASPATH_ATTR_TYPE_SET)
           \<longrightarrow> path_length new = max (path_length segs) (path_length as4))"
      by auto
  qed
  from no4 discard merge show "(\<forall>r. UpdatePathAttrs4ByteAs msg = Inr r \<longrightarrow> (\<forall>a \<in> set (PathAttributes r). \<not> is_As4Path a)) \<and>
   (path_length segs + confed_length segs < path_length as4 \<longrightarrow>
      UpdatePathAttrs4ByteAs msg =
        Inr (msg\<lparr>PathAttributes := pre @ PathAttributeAsPath (map P4 segs) # mid @ post\<rparr>)) \<and>
   (path_length as4 \<le> path_length segs + confed_length segs \<and> ps \<noteq> [] \<and>
    length (path_ases segs) + length (path_ases as4) \<le> 255 \<longrightarrow>
      (\<exists>new j. UpdatePathAttrs4ByteAs msg =
            Inr (msg\<lparr>PathAttributes := pre @ PathAttributeAsPath (map P4 new) # mid @ post\<rparr>) \<and>
          path_ases new = take j (path_ases segs) @ path_ases as4 \<and>
          (confed_length segs = 0 \<and>
           \<not> (path_length as4 = path_length segs \<and> as4_Type (hd segs) = BGP_ASPATH_ATTR_TYPE_SET)
           \<longrightarrow> path_length new = max (path_length segs) (path_length as4))))"
    by blast
qed


text \<open>
  Claim C1, amended. On an UPDATE with at most one AS4_PATH attribute, no AS4_PATH
  attribute is left whenever \<open>UpdatePathAttrs4ByteAs\<close> returns. Take further an UPDATE with
  one AS_PATH attribute and, later in the list, one AS4_PATH attribute; let \<open>segs\<close> be the
  AS_PATH segments widened to 4-byte form and \<open>as4\<close> the AS4_PATH segments without the
  confederation segments, which are dropped before anything is merged. If \<open>as4\<close> is longer
  than the whole AS_PATH, its confederation segments counted (\<open>asLen + asConfedLen\<close>), the
  AS4_PATH is discarded and the AS_PATH is only widened. Otherwise, for a non-empty
  AS_PATH and as long as the ASes of both attributes together do not exceed 255 (so that
  no merged segment overflows), the function returns with the AS_PATH replaced by a path
  whose ASes are a prefix of the ASes of the AS_PATH followed by all the ASes of \<open>as4\<close>;
  and when the AS_PATH has no confederation segment and no leading AS_SET has to be cut to
  nothing, the length of the combined path is the maximum of the lengths of the original
  AS_PATH and of \<open>as4\<close>.
\<close>

theorem reconcile_4byte:
  "(length (filter is_As4Path (PathAttributes msg)) \<le> 1 \<longrightarrow>
      (\<forall>r. UpdatePathAttrs4ByteAs msg = Inr r \<longrightarrow> (\<forall>a \<in> set (PathAttributes r). \<not> is_As4Path a))) \<and>
   (PathAttributes msg = pre @ PathAttributeAsPath ps # mid @ PathAttributeAs4Path qs # post \<and>
    (\<forall>a \<in> set (pre @ mid @ post). \<not> is_AsPath a \<and> \<not> is_As4Path a) \<and>
    segs = map widen_param ps \<and> as4 = filter (\<lambda>s. \<not> confed_segment s) qs
    \<longrightarrow>
    (path_length segs + confed_length segs < path_length as4 \<longrightarrow>
       UpdatePathAttrs4ByteAs msg =
         Inr (msg\<lparr>PathAttributes := pre @ PathAttributeAsPath (map P4 segs) # mid @ post\<rparr>)) \<and>
    (path_length as4 \<le> path_length segs + confed_length segs \<and> ps \<noteq> [] \<and>
     length (path_ases segs) + length (path_ases as4) \<le> 255 \<longrightarrow>
       (\<exists>new j. UpdatePathAttrs4ByteAs msg =
             Inr (msg\<lparr>PathAttributes := pre @ PathAttributeAsPath (map P4 new) # mid @ post\<rparr>) \<and>
           path_ases new = take j (path_ases segs) @ path_ases as4 \<and>
           (confed_length segs = 0 \<and>
            \<not> (path_length as4 = path_length segs \<and> as4_Type (hd segs) = BGP_ASPATH_ATTR_TYPE_SET)
            \<longrightarrow> path_length new = max (path_length segs) (path_length as4)))))"
  using UpdatePathAttrs4ByteAs_removes_As4Path [of msg]
    reconcile_decomposed [of msg pre ps mid qs post segs as4]
  by blast

lemmas eval_defs = UpdatePathAttrs4ByteAs_def ASLen_def NewAs4PathParam_def
  path_length_def confed_length_def path_ases_def confed_segment_def seg_type_defs

text \<open>
  Claim C1, as stated, fails: with AS_PATH = CONFED_SEQ[65001, 65002] SEQ[23456] and
  AS4_PATH = SEQ[70000, 70001] the AS4_PATH (length 2) is longer than the non-confed part
  of the AS_PATH (length 1), yet it is not discarded: the code compares with
  \<open>asLen + asConfedLen\<close> = 3, keeps both AS_PATH segments and merges, and the combined
  path has length 3, not max(1, 2).
\<close>

theorem reconcile_counterexample:
  "path_length [As4PathParam 2 2 [70000, 70001]] = 2 \<and>
   path_length (map widen_param [P2 (AsPathParam 3 2 [65001, 65002]), P2 (AsPathParam 2 1 [23456])]) = 1 \<and>
   UpdatePathAttrs4ByteAs cex_update1 =
     Inr (cex_update1\<lparr>PathAttributes :=
            [PathAttributeAsPath [P4 (As4PathParam 3 2 [65001, 65002]),
                                  P4 (As4PathParam 2 1 [23456, 70000, 70001])]]\<rparr>) \<and>
   UpdatePathAttrs4ByteAs cex_update1 \<noteq>
     Inr (cex_update1\<lparr>PathAttributes :=
            [PathAttributeAsPath [P4 (As4PathParam 3 2 [65001, 65002]),
                                  P4 (As4PathParam 2 1 [23456])]]\<rparr>) \<and>
   path_length [As4PathParam 3 2 [65001, 65002], As4PathParam 2 1 [23456, 70000, 70001]] = 3"
  by (simp add: cex_update1_def eval_defs)

theorem reconcile_4byte_witness:
  "UpdatePathAttrs4ByteAs wit_update_merge =
     Inr (wit_update_merge\<lparr>PathAttributes :=
            [PathAttributeNextHop ''192.0.2.1'',
             PathAttributeAsPath [P4 (As4PathParam 2 3 [23456, 131073, 400])],
             PathAttributeMultiExitDisc 10]\<rparr>) \<and>
   UpdatePathAttrs4ByteAs wit_update_discard =
     Inr (wit_update_discard\<lparr>PathAttributes :=
            [PathAttributeAsPath [P4 (As4PathParam 2 1 [23456])]]\<rparr>)"
  using reconcile_4byte [of wit_update_merge "[PathAttributeNextHop ''192.0.2.1'']"
      "[P2 (AsPathParam 2 3 [23456, 300, 400])]" "[PathAttributeMultiExitDisc 10]"
      "[As4PathParam 3 1 [65001], As4PathParam 2 2 [131073, 400]]" "[]"
      "[As4PathParam 2 3 [23456, 300, 400]]" "[As4PathParam 2 2 [131073, 400]]"]
    reconcile_4byte [of wit_update_discard "[]" "[P2 (AsPathParam 2 1 [23456])]" "[]"
      "[As4PathParam 2 3 [1, 2, 3]]" "[]" "[As4PathParam 2 1 [23456]]" "[As4PathParam 2 3 [1, 2, 3]]"]
  by (simp add: wit_update_merge_def wit_update_discard_def eval_defs)

text \<open>
  Two further behaviours, outside the amended claim. When the AS4_PATH stands before the
  AS_PATH, the new AS_PATH is stored at the index taken before the removal: it overwrites
  the attribute after the AS_PATH (here the NEXT_HOP), and the old AS_PATH stays, with the
  segment that was merged in place.
\<close>

lemma reconcile_as4_first:
  "UpdatePathAttrs4ByteAs update_as4_first =
     Inr (update_as4_first\<lparr>PathAttributes :=
            [PathAttributeAsPath [P4 (As4PathParam 2 3 [23456, 300, 400, 131073]),
                                  P4 (As4PathParam 1 2 [7, 8])],
             PathAttributeAsPath [P4 (As4PathParam 2 3 [23456, 300, 400, 131073])]]\<rparr>)"
  by (simp add: update_as4_first_def eval_defs)

text \<open>
  When a merged sequence would exceed 255 ASes, the AS4_PATH segment is split, but the
  second part is cut at \<open>255 - len(lastParam.AS)\<close> after \<open>lastParam.AS\<close> has grown to 255,
  that is at 0: the ASes already appended are appended again, and the combined path of an
  AS_PATH of 260 ASes and an AS4_PATH of 10 ASes has 265 ASes.
\<close>

lemma reconcile_long_merge:
  "UpdatePathAttrs4ByteAs update_long_merge =
     Inr (update_long_merge\<lparr>PathAttributes :=
            [PathAttributeAsPath
               [P4 (As4PathParam 2 250 (replicate 250 64512 @ replicate 5 131073)),
                P4 (As4PathParam 2 10 (replicate 10 131073))]]\<rparr>) \<and>
   path_length [As4PathParam 2 250 (replicate 250 64512 @ replicate 5 131073),
                As4PathParam 2 10 (replicate 10 131073)] = 265"
  by (simp add: update_long_merge_def eval_defs)

text \<open>
  Of several AS4_PATH attributes only the last is merged and removed; the others stay.
\<close>

lemma reconcile_two_as4:
  "UpdatePathAttrs4ByteAs update_two_as4 =
     Inr (update_two_as4\<lparr>PathAttributes :=
            [PathAttributeAsPath [P4 (As4PathParam 2 1 [70000])],
             PathAttributeAs4Path [As4PathParam 2 1 [64496]]]\<rparr>)"
  by (simp add: update_two_as4_def eval_defs)

section \<open>Properties of the egress rewrites\<close>


lemma find_replace_same_type:
  "replace_same_type a bs = Some bs' \<Longrightarrow>
   find (\<lambda>x. GetType x = t) bs' = (if GetType a = t then Some a else find (\<lambda>x. GetType x = t) bs)"
  by (induction bs arbitrary: bs') (auto split: if_splits)

lemma replace_same_type_None:
  "replace_same_type a bs = None \<Longrightarrow> find (\<lambda>x. GetType x = GetType a) bs = None"
  by (induction bs) (auto split: if_splits)

lemma find_snoc:
  "find P (xs @ [a]) = (case find P xs of Some x \<Rightarrow> Some x | None \<Rightarrow> if P a then Some a else None)"
  by (induction xs) auto

lemma getPathAttr_setPathAttr:
  "getPathAttr (setPathAttr a p) t =
     (if t \<in> set (dels p) then None else if GetType a = t then Some a else getPathAttr p t)"
proof (cases p)
  case (Path i w attrs r par ds f)
  show ?thesis
  proof (cases "replace_same_type a attrs")
    case None
    from replace_same_type_None [OF None] show ?thesis
      by (auto simp: Path setPathAttr_def None find_snoc split: option.splits)
  next
    case (Some attrs')
    from find_replace_same_type [OF Some, of t] Some show ?thesis
      by (cases attrs) (auto simp: Path setPathAttr_def split: option.splits)
  qed
qed

lemma getPathAttr_delPathAttr:
  "getPathAttr (delPathAttr d p) t = (if t = d then None else getPathAttr p t)"
  by (cases p) (simp add: delPathAttr_def)

lemma OriginInfo_setPathAttr: "OriginInfo (setPathAttr a p) = OriginInfo p"
  by (cases p) (simp add: OriginInfo_def setPathAttr_def split: option.splits)

lemma OriginInfo_delPathAttr: "OriginInfo (delPathAttr d p) = OriginInfo p"
  by (cases p) (simp add: OriginInfo_def delPathAttr_def split: option.splits)

lemma IsLocal_setPathAttr: "IsLocal (setPathAttr a p) = IsLocal p"
  by (simp add: IsLocal_def GetSource_def OriginInfo_setPathAttr)

lemma IsLocal_delPathAttr: "IsLocal (delPathAttr d p) = IsLocal p"
  by (simp add: IsLocal_def GetSource_def OriginInfo_delPathAttr)

lemma getPathAttr_Some_not_deleted: "getPathAttr p t = Some x \<Longrightarrow> t \<notin> set (dels p)"
  by (cases p) (auto split: if_splits)

lemma collect_attrs_absent:
  "collect_attrs seen acc as = Inr (s, l) \<Longrightarrow> \<forall>a \<in> set as. GetType a \<noteq> t \<Longrightarrow>
   \<forall>b \<in> set acc. GetType b \<noteq> t \<Longrightarrow> \<forall>b \<in> set l. GetType b \<noteq> t"
proof (induction as arbitrary: seen acc)
  case Nil then show ?case by simp
next
  case (Cons a as)
  have rest: "\<forall>a \<in> set as. GetType a \<noteq> t" and a: "GetType a \<noteq> t" using Cons.prems(2) by simp_all
  show ?case
  proof (cases "GetFlag seen (unat (GetType a))")
    case (Inl e) with Cons.prems(1) show ?thesis by simp
  next
    case (Inr v)
    show ?thesis
    proof (cases v)
      case True
      with Inr Cons.prems(1) have "collect_attrs seen acc as = Inr (s, l)" by simp
      from Cons.IH [OF this rest Cons.prems(3)] show ?thesis .
    next
      case False
      show ?thesis
      proof (cases "Flag seen (unat (GetType a))")
        case (Inl e) with Inr False Cons.prems(1) show ?thesis by simp
      next
        case fl: (Inr seen')
        with Inr False Cons.prems(1) have c: "collect_attrs seen' (acc @ [a]) as = Inr (s, l)"
          by simp
        have "\<forall>b \<in> set (acc @ [a]). GetType b \<noteq> t" using Cons.prems(3) a by simp
        from Cons.IH [OF c rest this] show ?thesis .
      qed
    qed
  qed
qed

lemma find_None_types: "find (\<lambda>a. GetType a = t) as = None \<Longrightarrow> \<forall>a \<in> set as. GetType a \<noteq> t"
  by (simp add: find_None_iff)

lemma GetPathAttrs_walk_absent:
  "GetPathAttrs_walk seen acc p = Inr l \<Longrightarrow> getPathAttr p t = None \<Longrightarrow>
   \<forall>b \<in> set acc. GetType b \<noteq> t \<Longrightarrow> \<forall>b \<in> set l. GetType b \<noteq> t"
proof (induction seen acc p arbitrary: l rule: GetPathAttrs_walk.induct)
  case (1 seen acc i w attrs r par ds f)
  show ?case
  proof (cases "t \<in> set ds")
    case True
    then have "t \<in> set (dels (Path i w attrs r par ds f))" by simp
    from GetPathAttrs_walk_shadow [OF "1.prems"(1) disjI2 [OF this] "1.prems"(3)] show ?thesis .
  next
    case False
    from "1.prems"(1) obtain s1 s2 l2 where
      s1: "flag_dels seen ds = Inr s1" and s2: "collect_attrs s1 acc attrs = Inr (s2, l2)"
      by (auto split: sum.splits)
    from "1.prems"(2) False have nf: "find (\<lambda>a. GetType a = t) attrs = None"
      by (auto split: option.splits)
    from collect_attrs_absent [OF s2 find_None_types [OF nf] "1.prems"(3)]
    have n2: "\<forall>b \<in> set l2. GetType b \<noteq> t" .
    show ?thesis
    proof (cases par)
      case None with s1 s2 "1.prems"(1) n2 show ?thesis by simp
    next
      case (Some q)
      with s1 s2 "1.prems"(1) have w: "GetPathAttrs_walk s2 l2 q = Inr l" by simp
      from "1.prems"(2) False nf Some have "getPathAttr q t = None" by simp
      from "1.IH" [OF s1 s2 refl Some w this n2] show ?thesis .
    qed
  qed
qed

lemma GetPathAttrs_absent:
  "getPathAttr p t = None \<Longrightarrow> \<exists>l. GetPathAttrs p = Inr l \<and> (\<forall>b \<in> set l. GetType b \<noteq> t)"
proof -
  assume n: "getPathAttr p t = None"
  obtain l where l: "GetPathAttrs p = Inr l" using GetPathAttrs_total by blast
  then have "GetPathAttrs_walk (NewBitmap 255) [] p = Inr l" by (simp add: GetPathAttrs_def)
  from GetPathAttrs_walk_absent [OF this n] l show ?thesis by simp
qed

lemma getPathAttr_deleted: "t \<in> set (dels p) \<Longrightarrow> getPathAttr p t = None"
  by (cases p) simp

lemma path_ases_clone:
  "path_ases (map (\<lambda>s. NewAs4PathParam (as4_Type s) (as4_AS s)) segs) = path_ases segs"
  by (induction segs) (simp_all add: path_ases_def NewAs4PathParam_def)

lemma getPathAttr_setPathAttr_other:
  "GetType a \<noteq> t \<Longrightarrow> getPathAttr (setPathAttr a p) t = getPathAttr p t"
  by (simp add: getPathAttr_setPathAttr getPathAttr_deleted)

lemma getPathAttr_setPathAttr_same:
  "GetType a = t \<Longrightarrow> t \<notin> set (dels p) \<Longrightarrow> getPathAttr (setPathAttr a p) t = Some a"
  by (simp add: getPathAttr_setPathAttr)

lemma getPathAttr_delPathAttr_other:
  "t \<noteq> d \<Longrightarrow> getPathAttr (delPathAttr d p) t = getPathAttr p t"
  by (simp add: getPathAttr_delPathAttr)

lemma type_NextHop: "GetType (PathAttributeNextHop a) = BGP_ATTR_TYPE_NEXT_HOP"
  and type_MpReach: "GetType (PathAttributeMpReachNLRI a v) = BGP_ATTR_TYPE_MP_REACH_NLRI"
  and type_AsPath: "GetType (PathAttributeAsPath ps) = BGP_ATTR_TYPE_AS_PATH"
  by simp_all

lemma types_distinct:
  "BGP_ATTR_TYPE_NEXT_HOP \<noteq> BGP_ATTR_TYPE_MP_REACH_NLRI"
  "BGP_ATTR_TYPE_MP_REACH_NLRI \<noteq> BGP_ATTR_TYPE_NEXT_HOP"
  "BGP_ATTR_TYPE_AS_PATH \<noteq> BGP_ATTR_TYPE_NEXT_HOP"
  "BGP_ATTR_TYPE_AS_PATH \<noteq> BGP_ATTR_TYPE_MP_REACH_NLRI"
  "BGP_ATTR_TYPE_AS_PATH \<noteq> BGP_ATTR_TYPE_MULTI_EXIT_DISC"
  "BGP_ATTR_TYPE_AS_PATH \<noteq> BGP_ATTR_TYPE_LOCAL_PREF"
  "BGP_ATTR_TYPE_MULTI_EXIT_DISC \<noteq> BGP_ATTR_TYPE_NEXT_HOP"
  "BGP_ATTR_TYPE_MULTI_EXIT_DISC \<noteq> BGP_ATTR_TYPE_MP_REACH_NLRI"
  "BGP_ATTR_TYPE_MULTI_EXIT_DISC \<noteq> BGP_ATTR_TYPE_AS_PATH"
  "BGP_ATTR_TYPE_MULTI_EXIT_DISC \<noteq> BGP_ATTR_TYPE_LOCAL_PREF"
  "BGP_ATTR_TYPE_LOCAL_PREF \<noteq> BGP_ATTR_TYPE_NEXT_HOP"
  "BGP_ATTR_TYPE_LOCAL_PREF \<noteq> BGP_ATTR_TYPE_MP_REACH_NLRI"
  "BGP_ATTR_TYPE_LOCAL_PREF \<noteq> BGP_ATTR_TYPE_AS_PATH"
  "BGP_ATTR_TYPE_LOCAL_PREF \<noteq> BGP_ATTR_TYPE_MULTI_EXIT_DISC"
  "BGP_ATTR_TYPE_NEXT_HOP \<noteq> BGP_ATTR_TYPE_AS_PATH"
  "BGP_ATTR_TYPE_NEXT_HOP \<noteq> BGP_ATTR_TYPE_MULTI_EXIT_DISC"
  "BGP_ATTR_TYPE_NEXT_HOP \<noteq> BGP_ATTR_TYPE_LOCAL_PREF"
  "BGP_ATTR_TYPE_MP_REACH_NLRI \<noteq> BGP_ATTR_TYPE_AS_PATH"
  "BGP_ATTR_TYPE_MP_REACH_NLRI \<noteq> BGP_ATTR_TYPE_MULTI_EXIT_DISC"
  "BGP_ATTR_TYPE_MP_REACH_NLRI \<noteq> BGP_ATTR_TYPE_LOCAL_PREF"
  by (simp_all add: attr_type_defs)

lemma SetNexthop_eq:
  assumes mp: "getPathAttr p BGP_ATTR_TYPE_MP_REACH_NLRI = None \<or>
      (\<exists>nh v. getPathAttr p BGP_ATTR_TYPE_MP_REACH_NLRI = Some (PathAttributeMpReachNLRI nh v))"
  shows "SetNexthop a p = Inr (nexthop_set a p)"
proof -
  have keep: "getPathAttr (setPathAttr (PathAttributeNextHop a) p) BGP_ATTR_TYPE_MP_REACH_NLRI
      = getPathAttr p BGP_ATTR_TYPE_MP_REACH_NLRI"
    by (rule getPathAttr_setPathAttr_other) (simp add: types_distinct)
  from mp show ?thesis
  proof
    assume m: "getPathAttr p BGP_ATTR_TYPE_MP_REACH_NLRI = None"
    show ?thesis
      by (cases "getPathAttr p BGP_ATTR_TYPE_NEXT_HOP")
         (simp_all add: SetNexthop_def nexthop_set_def keep m)
  next
    assume "\<exists>nh v. getPathAttr p BGP_ATTR_TYPE_MP_REACH_NLRI = Some (PathAttributeMpReachNLRI nh v)"
    then obtain nh v where m: "getPathAttr p BGP_ATTR_TYPE_MP_REACH_NLRI = Some (PathAttributeMpReachNLRI nh v)"
      by blast
    show ?thesis
      by (cases "getPathAttr p BGP_ATTR_TYPE_NEXT_HOP")
         (simp_all add: SetNexthop_def nexthop_set_def keep m)
  qed
qed

lemma dels_nexthop_set: "dels (nexthop_set a p) = dels p"
  by (simp add: nexthop_set_def Let_def dels_setPathAttr
      split: option.splits PathAttributeInterface.splits)

lemma OriginInfo_nexthop_set: "OriginInfo (nexthop_set a p) = OriginInfo p"
  by (simp add: nexthop_set_def Let_def OriginInfo_setPathAttr
      split: option.splits PathAttributeInterface.splits)

lemma getPathAttr_nexthop_set_other:
  "t \<noteq> BGP_ATTR_TYPE_NEXT_HOP \<Longrightarrow> t \<noteq> BGP_ATTR_TYPE_MP_REACH_NLRI \<Longrightarrow>
   getPathAttr (nexthop_set a p) t = getPathAttr p t"
  by (simp add: nexthop_set_def Let_def getPathAttr_setPathAttr_other
      split: option.splits PathAttributeInterface.splits)

lemma getPathAttr_nexthop_set_nh:
  "getPathAttr (nexthop_set a p) BGP_ATTR_TYPE_NEXT_HOP =
     (if getPathAttr p BGP_ATTR_TYPE_NEXT_HOP = None then None else Some (PathAttributeNextHop a))"
proof (cases "getPathAttr p BGP_ATTR_TYPE_NEXT_HOP")
  case None
  then show ?thesis
    by (simp add: nexthop_set_def Let_def getPathAttr_setPathAttr_other types_distinct
        split: option.splits PathAttributeInterface.splits)
next
  case (Some x)
  note nd = getPathAttr_Some_not_deleted [OF Some]
  have s: "getPathAttr (setPathAttr (PathAttributeNextHop a) p) BGP_ATTR_TYPE_NEXT_HOP
      = Some (PathAttributeNextHop a)"
    by (rule getPathAttr_setPathAttr_same) (simp_all add: nd)
  show ?thesis
    using Some
    by (simp add: nexthop_set_def Let_def getPathAttr_setPathAttr_other types_distinct s
        split: option.splits PathAttributeInterface.splits)
qed

lemma getPathAttr_nexthop_set_mp:
  "getPathAttr p BGP_ATTR_TYPE_MP_REACH_NLRI = Some (PathAttributeMpReachNLRI nh v) \<Longrightarrow>
   getPathAttr (nexthop_set a p) BGP_ATTR_TYPE_MP_REACH_NLRI = Some (PathAttributeMpReachNLRI a v)"
proof -
  assume m: "getPathAttr p BGP_ATTR_TYPE_MP_REACH_NLRI = Some (PathAttributeMpReachNLRI nh v)"
  note nd = getPathAttr_Some_not_deleted [OF m]
  have "getPathAttr (setPathAttr (PathAttributeMpReachNLRI a v) q) BGP_ATTR_TYPE_MP_REACH_NLRI
      = Some (PathAttributeMpReachNLRI a v)" if "dels q = dels p" for q
    by (rule getPathAttr_setPathAttr_same) (simp_all add: nd that)
  then show ?thesis
    using m by (simp add: nexthop_set_def Let_def dels_setPathAttr)
qed

lemma getPathAttr_nexthop_set_mp_None:
  "getPathAttr p BGP_ATTR_TYPE_MP_REACH_NLRI = None \<Longrightarrow>
   getPathAttr (nexthop_set a p) BGP_ATTR_TYPE_MP_REACH_NLRI = None"
  by (simp add: nexthop_set_def Let_def getPathAttr_setPathAttr_other types_distinct)

lemma cloneAsPath_P4:
  "cloneAsPath (map P4 segs) = Inr (map (\<lambda>s. NewAs4PathParam (as4_Type s) (as4_AS s)) segs)"
  by (induction segs) simp_all

lemma prepend_one:
  assumes "segs \<noteq> [] \<longrightarrow> length (as4_AS (hd segs)) \<le> 255"
  shows "\<exists>asPath1 asns1 new rest.
     prepend_first (map (\<lambda>s. NewAs4PathParam (as4_Type s) (as4_AS s)) segs) (replicate (unat (1::uint8)) asn) 1
       = Inr (asPath1, asns1) \<and>
     new = (if length asns1 > 0 then NewAs4PathParam BGP_ASPATH_ATTR_TYPE_SEQ asns1 # asPath1 else asPath1) \<and>
     path_ases new = asn # path_ases segs \<and> new \<noteq> [] \<and> as4_AS (hd new) = asn # rest"
proof (cases segs)
  case Nil
  then show ?thesis by (simp add: prepend_first_def NewAs4PathParam_def path_ases_def)
next
  case (Cons s ss)
  with assms have le: "length (as4_AS s) \<le> 255" by simp
  let ?c = "map (\<lambda>s. NewAs4PathParam (as4_Type s) (as4_AS s))"
  have pc: "path_ases (?c ss) = path_ases ss" by (rule path_ases_clone)
  have u1: "unat (1::uint8) = 1" "uint (1::uint8) = 1" by simp_all
  show ?thesis
  proof (cases "as4_Type s = BGP_ASPATH_ATTR_TYPE_SEQ")
    case False
    have "prepend_first (?c segs) (replicate (unat (1::uint8)) asn) 1 = Inr (?c segs, [asn])"
      using False by (simp add: Cons prepend_first_def NewAs4PathParam_def u1)
    moreover have "path_ases (NewAs4PathParam BGP_ASPATH_ATTR_TYPE_SEQ [asn] # ?c segs) = asn # path_ases segs"
      using path_ases_clone [of segs] by (simp add: path_ases_def NewAs4PathParam_def)
    ultimately show ?thesis by (simp add: NewAs4PathParam_def)
  next
    case True
    show ?thesis
    proof (cases "length (as4_AS s) = 255")
      case full: True
      have w0: "(word_of_int (255 - int (length (as4_AS s))) :: uint8) = 0" using full by simp
      have "prepend_first (?c segs) (replicate (unat (1::uint8)) asn) 1
          = Inr (As4PathParam (as4_Type s) (of_nat (length (as4_AS s)) + 0) (as4_AS s) # ?c ss, [asn])"
        using True full by (simp add: Cons prepend_first_def NewAs4PathParam_def u1 Let_def)
      moreover have "path_ases (NewAs4PathParam BGP_ASPATH_ATTR_TYPE_SEQ [asn]
            # As4PathParam (as4_Type s) (of_nat (length (as4_AS s)) + 0) (as4_AS s) # ?c ss) = asn # path_ases segs"
        using pc by (simp add: Cons path_ases_def NewAs4PathParam_def)
      ultimately show ?thesis by (simp add: NewAs4PathParam_def)
    next
      case False
      with le have lt: "length (as4_AS s) < 255" by simp
      have "prepend_first (?c segs) (replicate (unat (1::uint8)) asn) 1
          = Inr (As4PathParam (as4_Type s) (of_nat (length (as4_AS s)) + 1) (asn # as4_AS s) # ?c ss, [])"
        using True lt by (simp add: Cons prepend_first_def NewAs4PathParam_def u1 Let_def)
      moreover have "path_ases (As4PathParam (as4_Type s) (of_nat (length (as4_AS s)) + 1) (asn # as4_AS s) # ?c ss)
          = asn # path_ases segs"
        using pc by (simp add: Cons path_ases_def NewAs4PathParam_def)
      ultimately show ?thesis by simp
    qed
  qed
qed

lemma PrependAsn_one:
  assumes as: "getPathAttr p BGP_ATTR_TYPE_AS_PATH = None \<and> segs = [] \<or>
      getPathAttr p BGP_ATTR_TYPE_AS_PATH = Some (PathAttributeAsPath (map P4 segs))"
    and le: "segs \<noteq> [] \<longrightarrow> length (as4_AS (hd segs)) \<le> 255"
  shows "\<exists>new rest. PrependAsn asn 1 p = Inr (setPathAttr (PathAttributeAsPath (map P4 new)) p) \<and>
     path_ases new = asn # path_ases segs \<and> new \<noteq> [] \<and> as4_AS (hd new) = asn # rest"
proof -
  from prepend_one [OF le, of asn] obtain asPath1 asns1 new rest where
    pf: "prepend_first (map (\<lambda>s. NewAs4PathParam (as4_Type s) (as4_AS s)) segs) (replicate (unat (1::uint8)) asn) 1
       = Inr (asPath1, asns1)"
    and new: "new = (if length asns1 > 0 then NewAs4PathParam BGP_ASPATH_ATTR_TYPE_SEQ asns1 # asPath1 else asPath1)"
    and props: "path_ases new = asn # path_ases segs" "new \<noteq> []" "as4_AS (hd new) = asn # rest"
    by blast
  from as have "PrependAsn asn 1 p = Inr (setPathAttr (PathAttributeAsPath (map P4 new)) p)"
  proof
    assume "getPathAttr p BGP_ATTR_TYPE_AS_PATH = None \<and> segs = []"
    with pf new show ?thesis by (simp add: PrependAsn_def GetAsPath_def)
  next
    assume "getPathAttr p BGP_ATTR_TYPE_AS_PATH = Some (PathAttributeAsPath (map P4 segs))"
    with pf new show ?thesis by (simp add: PrependAsn_def GetAsPath_def cloneAsPath_P4)
  qed
  with props show ?thesis by blast
qed

lemma GetNexthop_cong:
  "getPathAttr q BGP_ATTR_TYPE_NEXT_HOP = getPathAttr p BGP_ATTR_TYPE_NEXT_HOP \<Longrightarrow>
   getPathAttr q BGP_ATTR_TYPE_MP_REACH_NLRI = getPathAttr p BGP_ATTR_TYPE_MP_REACH_NLRI \<Longrightarrow>
   GetNexthop q = GetNexthop p"
  unfolding GetNexthop_def by (erule ssubst, erule ssubst) (rule refl)

lemma GetNexthop_nexthop_set:
  assumes mp: "getPathAttr p BGP_ATTR_TYPE_MP_REACH_NLRI = None \<or>
      (\<exists>nh v. getPathAttr p BGP_ATTR_TYPE_MP_REACH_NLRI = Some (PathAttributeMpReachNLRI nh v))"
  shows "GetNexthop (nexthop_set a p) =
     (if getPathAttr p BGP_ATTR_TYPE_NEXT_HOP \<noteq> None \<or> getPathAttr p BGP_ATTR_TYPE_MP_REACH_NLRI \<noteq> None
      then Inr a else Inr [])"
  using mp
  by (auto simp: GetNexthop_def getPathAttr_nexthop_set_nh getPathAttr_nexthop_set_mp
      getPathAttr_nexthop_set_mp_None)

lemma getPathAttr_drop_local_pref:
  "t \<noteq> BGP_ATTR_TYPE_LOCAL_PREF \<Longrightarrow> getPathAttr (drop_local_pref c p) t = getPathAttr p t"
  by (simp add: drop_local_pref_def getPathAttr_delPathAttr_other)

lemma IsLocal_total: "OriginInfo p \<noteq> None \<Longrightarrow> \<exists>b. IsLocal p = Inr b"
  by (auto simp: IsLocal_def GetSource_def)

lemma drop_med_ok:
  assumes "IsLocal p = Inr b"
  shows "\<exists>q. drop_med p = Inr q \<and>
     (\<forall>t. t \<noteq> BGP_ATTR_TYPE_MULTI_EXIT_DISC \<longrightarrow> getPathAttr q t = getPathAttr p t) \<and>
     getPathAttr q BGP_ATTR_TYPE_MULTI_EXIT_DISC =
       (if b then getPathAttr p BGP_ATTR_TYPE_MULTI_EXIT_DISC else None)"
proof (cases "getPathAttr p BGP_ATTR_TYPE_MULTI_EXIT_DISC")
  case None
  then show ?thesis by (simp add: drop_med_def)
next
  case (Some x)
  with assms show ?thesis
    by (simp add: drop_med_def getPathAttr_delPathAttr)
qed

text \<open>
  Claim C5, amended. Let the peer be external and not a route-server client, and let the
  path have an origin info at its root, an MP_REACH_NLRI (if any) and an AS_PATH (if any)
  of their proper Go types, the AS_PATH in 4-byte form with at most 255 ASes in its first
  segment. Then \<open>UpdatePathAttrs\<close> returns a path on which
  (a) the next hop is the peer's configured local address when the path carried a NEXT_HOP
  or an MP_REACH_NLRI attribute, and stays empty when it carried neither;
  (b) unless AS_PATH is among the deletes of the node, the AS_PATH is present, its first
  segment starts with the local AS, and its ASes are the local AS followed by the ASes of
  the original AS_PATH, so that the local AS appears once more than before;
  (c) there is no MED attribute, in the lookup and in the attribute list, when the path is
  not locally originated, and the MED is untouched when it is.
\<close>

theorem update_for_ebgp_peer:
  "\<not> RouteServer_Config_RouteServerClient peer \<and> Config_PeerType peer = PEER_TYPE_EXTERNAL \<and>
   (getPathAttr P BGP_ATTR_TYPE_MP_REACH_NLRI = None \<or>
    (\<exists>nh v. getPathAttr P BGP_ATTR_TYPE_MP_REACH_NLRI = Some (PathAttributeMpReachNLRI nh v))) \<and>
   (getPathAttr P BGP_ATTR_TYPE_AS_PATH = None \<and> segs = [] \<or>
    getPathAttr P BGP_ATTR_TYPE_AS_PATH = Some (PathAttributeAsPath (map P4 segs))) \<and>
   (segs \<noteq> [] \<longrightarrow> length (as4_AS (hd segs)) \<le> 255) \<and>
   OriginInfo P \<noteq> None
   \<longrightarrow>
   (\<exists>P'. UpdatePathAttrs IsConfederationMember global peer P = Inr P' \<and>
      (getPathAttr P BGP_ATTR_TYPE_NEXT_HOP \<noteq> None \<or> getPathAttr P BGP_ATTR_TYPE_MP_REACH_NLRI \<noteq> None
         \<longrightarrow> GetNexthop P' = Inr (Transport_Config_LocalAddress peer)) \<and>
      (getPathAttr P BGP_ATTR_TYPE_NEXT_HOP = None \<and> getPathAttr P BGP_ATTR_TYPE_MP_REACH_NLRI = None
         \<longrightarrow> GetNexthop P' = Inr []) \<and>
      (BGP_ATTR_TYPE_AS_PATH \<notin> set (dels P)
         \<longrightarrow> (\<exists>new rest. GetAsPath P' = Inr (Some (map P4 new)) \<and> new \<noteq> [] \<and>
                as4_AS (hd new) = Config_As global # rest \<and>
                path_ases new = Config_As global # path_ases segs)) \<and>
      (IsLocal P = Inr False
         \<longrightarrow> getPathAttr P' BGP_ATTR_TYPE_MULTI_EXIT_DISC = None \<and>
             (\<exists>l. GetPathAttrs P' = Inr l \<and> (\<forall>b \<in> set l. GetType b \<noteq> BGP_ATTR_TYPE_MULTI_EXIT_DISC))) \<and>
      (IsLocal P = Inr True
         \<longrightarrow> getPathAttr P' BGP_ATTR_TYPE_MULTI_EXIT_DISC = getPathAttr P BGP_ATTR_TYPE_MULTI_EXIT_DISC))"
proof (intro impI, elim conjE)
  assume rs: "\<not> RouteServer_Config_RouteServerClient peer"
    and ext: "Config_PeerType peer = PEER_TYPE_EXTERNAL"
    and mp: "getPathAttr P BGP_ATTR_TYPE_MP_REACH_NLRI = None \<or>
      (\<exists>nh v. getPathAttr P BGP_ATTR_TYPE_MP_REACH_NLRI = Some (PathAttributeMpReachNLRI nh v))"
    and asp: "getPathAttr P BGP_ATTR_TYPE_AS_PATH = None \<and> segs = [] \<or>
      getPathAttr P BGP_ATTR_TYPE_AS_PATH = Some (PathAttributeAsPath (map P4 segs))"
    and le: "segs \<noteq> [] \<longrightarrow> length (as4_AS (hd segs)) \<le> 255"
    and oi: "OriginInfo P \<noteq> None"
  let ?L = "Transport_Config_LocalAddress peer"
  let ?P1 = "nexthop_set ?L P"
  have s1: "SetNexthop ?L P = Inr ?P1" by (rule SetNexthop_eq [OF mp])
  have as1: "getPathAttr ?P1 BGP_ATTR_TYPE_AS_PATH = getPathAttr P BGP_ATTR_TYPE_AS_PATH"
    by (rule getPathAttr_nexthop_set_other) (simp_all add: types_distinct)
  from asp have asp1: "getPathAttr ?P1 BGP_ATTR_TYPE_AS_PATH = None \<and> segs = [] \<or>
      getPathAttr ?P1 BGP_ATTR_TYPE_AS_PATH = Some (PathAttributeAsPath (map P4 segs))"
    by (simp only: as1)
  from PrependAsn_one [OF asp1 le, of "Config_As global"] obtain new rest where
    s2: "PrependAsn (Config_As global) 1 ?P1 = Inr (setPathAttr (PathAttributeAsPath (map P4 new)) ?P1)"
    and ases: "path_ases new = Config_As global # path_ases segs"
    and nne: "new \<noteq> []" and hd: "as4_AS (hd new) = Config_As global # rest" by blast
  let ?P2 = "setPathAttr (PathAttributeAsPath (map P4 new)) ?P1"
  have oi2: "OriginInfo ?P2 = OriginInfo P"
    by (simp add: OriginInfo_setPathAttr OriginInfo_nexthop_set)
  have loc2: "IsLocal ?P2 = IsLocal P"
    by (simp add: IsLocal_def GetSource_def oi2)
  from IsLocal_total [OF oi] obtain b where b: "IsLocal P = Inr b" by blast
  from drop_med_ok [of ?P2 b] b loc2 obtain P3 where
    s3: "drop_med ?P2 = Inr P3"
    and o3: "\<forall>t. t \<noteq> BGP_ATTR_TYPE_MULTI_EXIT_DISC \<longrightarrow> getPathAttr P3 t = getPathAttr ?P2 t"
    and m3: "getPathAttr P3 BGP_ATTR_TYPE_MULTI_EXIT_DISC =
       (if b then getPathAttr ?P2 BGP_ATTR_TYPE_MULTI_EXIT_DISC else None)" by auto
  let ?P4 = "drop_local_pref (IsConfederationMember global peer) P3"
  have res: "UpdatePathAttrs IsConfederationMember global peer P = Inr ?P4"
    using rs ext s1 s2 s3 by (simp add: UpdatePathAttrs_def)
  have nh4: "getPathAttr ?P4 BGP_ATTR_TYPE_NEXT_HOP = getPathAttr ?P1 BGP_ATTR_TYPE_NEXT_HOP"
    using o3 by (simp add: getPathAttr_drop_local_pref getPathAttr_setPathAttr_other types_distinct)
  have mp4: "getPathAttr ?P4 BGP_ATTR_TYPE_MP_REACH_NLRI = getPathAttr ?P1 BGP_ATTR_TYPE_MP_REACH_NLRI"
    using o3 by (simp add: getPathAttr_drop_local_pref getPathAttr_setPathAttr_other types_distinct)
  have gn: "GetNexthop ?P4 =
     (if getPathAttr P BGP_ATTR_TYPE_NEXT_HOP \<noteq> None \<or> getPathAttr P BGP_ATTR_TYPE_MP_REACH_NLRI \<noteq> None
      then Inr ?L else Inr [])"
    using GetNexthop_cong [OF nh4 mp4] GetNexthop_nexthop_set [OF mp, of ?L] by simp
  have as4: "getPathAttr ?P4 BGP_ATTR_TYPE_AS_PATH = getPathAttr ?P2 BGP_ATTR_TYPE_AS_PATH"
    using o3 by (simp add: getPathAttr_drop_local_pref types_distinct)
  have asres: "BGP_ATTR_TYPE_AS_PATH \<notin> set (dels P) \<longrightarrow>
      (\<exists>new rest. GetAsPath ?P4 = Inr (Some (map P4 new)) \<and> new \<noteq> [] \<and>
                as4_AS (hd new) = Config_As global # rest \<and>
                path_ases new = Config_As global # path_ases segs)"
  proof
    assume nd: "BGP_ATTR_TYPE_AS_PATH \<notin> set (dels P)"
    have "getPathAttr ?P2 BGP_ATTR_TYPE_AS_PATH = Some (PathAttributeAsPath (map P4 new))"
      by (rule getPathAttr_setPathAttr_same) (simp_all add: dels_nexthop_set nd)
    then have "GetAsPath ?P4 = Inr (Some (map P4 new))"
      by (simp add: GetAsPath_def as4)
    with nne hd ases show "\<exists>new rest. GetAsPath ?P4 = Inr (Some (map P4 new)) \<and> new \<noteq> [] \<and>
                as4_AS (hd new) = Config_As global # rest \<and>
                path_ases new = Config_As global # path_ases segs" by blast
  qed
  have med2: "getPathAttr ?P2 BGP_ATTR_TYPE_MULTI_EXIT_DISC = getPathAttr P BGP_ATTR_TYPE_MULTI_EXIT_DISC"
    by (simp add: getPathAttr_setPathAttr_other getPathAttr_nexthop_set_other types_distinct)
  have med4: "getPathAttr ?P4 BGP_ATTR_TYPE_MULTI_EXIT_DISC =
      (if b then getPathAttr P BGP_ATTR_TYPE_MULTI_EXIT_DISC else None)"
    using m3 med2 by (simp add: getPathAttr_drop_local_pref types_distinct)
  have medF: "IsLocal P = Inr False \<longrightarrow> getPathAttr ?P4 BGP_ATTR_TYPE_MULTI_EXIT_DISC = None \<and>
      (\<exists>l. GetPathAttrs ?P4 = Inr l \<and> (\<forall>b \<in> set l. GetType b \<noteq> BGP_ATTR_TYPE_MULTI_EXIT_DISC))"
  proof
    assume "IsLocal P = Inr False"
    with b med4 have n: "getPathAttr ?P4 BGP_ATTR_TYPE_MULTI_EXIT_DISC = None" by simp
    from n GetPathAttrs_absent [OF n]
    show "getPathAttr ?P4 BGP_ATTR_TYPE_MULTI_EXIT_DISC = None \<and>
      (\<exists>l. GetPathAttrs ?P4 = Inr l \<and> (\<forall>b \<in> set l. GetType b \<noteq> BGP_ATTR_TYPE_MULTI_EXIT_DISC))"
      by blast
  qed
  have medT: "IsLocal P = Inr True \<longrightarrow>
      getPathAttr ?P4 BGP_ATTR_TYPE_MULTI_EXIT_DISC = getPathAttr P BGP_ATTR_TYPE_MULTI_EXIT_DISC"
    using b med4 by simp
  show "\<exists>P'. UpdatePathAttrs IsConfederationMember global peer P = Inr P' \<and>
      (getPathAttr P BGP_ATTR_TYPE_NEXT_HOP \<noteq> None \<or> getPathAttr P BGP_ATTR_TYPE_MP_REACH_NLRI \<noteq> None
         \<longrightarrow> GetNexthop P' = Inr (Transport_Config_LocalAddress peer)) \<and>
      (getPathAttr P BGP_ATTR_TYPE_NEXT_HOP = None \<and> getPathAttr P BGP_ATTR_TYPE_MP_REACH_NLRI = None
         \<longrightarrow> GetNexthop P' = Inr []) \<and>
      (BGP_ATTR_TYPE_AS_PATH \<notin> set (dels P)
         \<longrightarrow> (\<exists>new rest. GetAsPath P' = Inr (Some (map P4 new)) \<and> new \<noteq> [] \<and>
                as4_AS (hd new) = Config_As global # rest \<and>
                path_ases new = Config_As global # path_ases segs)) \<and>
      (IsLocal P = Inr False
         \<longrightarrow> getPathAttr P' BGP_ATTR_TYPE_MULTI_EXIT_DISC = None \<and>
             (\<exists>l. GetPathAttrs P' = Inr l \<and> (\<forall>b \<in> set l. GetType b \<noteq> BGP_ATTR_TYPE_MULTI_EXIT_DISC))) \<and>
      (IsLocal P = Inr True
         \<longrightarrow> getPathAttr P' BGP_ATTR_TYPE_MULTI_EXIT_DISC = getPathAttr P BGP_ATTR_TYPE_MULTI_EXIT_DISC)"
    apply (rule exI [of _ ?P4])
    apply (intro conjI)
         apply (rule res)
        apply (simp add: gn)
       apply (simp add: gn)
      apply (rule asres)
     apply (rule medF)
    apply (rule medT)
    done
qed


lemmas update_eval = UpdatePathAttrs_def SetNexthop_def PrependAsn_def GetAsPath_def GetNexthop_def
  prepend_first_def setPathAttr_def delPathAttr_def drop_med_def drop_local_pref_def
  NewAs4PathParam_def IsLocal_def GetSource_def OriginInfo_def attr_type_defs seg_type_defs
  wit_pConf_def wit_global_def wit_info_def wit_src_def no_confederation_def Let_def

text \<open>
  Claim C5, as stated, fails in (a): a withdraw path as \<open>NewPath\<close> builds it from a nil
  attribute list has neither NEXT_HOP nor MP_REACH_NLRI; \<open>SetNexthop\<close> sets an attribute
  only where one exists, so after \<open>UpdatePathAttrs\<close> for an external peer the next hop is
  still empty and not the peer's local address.
\<close>

theorem update_for_ebgp_peer_counterexample:
  "NewPath wit_src wit_nlri True None 5 False = Some cex_withdraw \<and>
   Config_PeerType wit_pConf = PEER_TYPE_EXTERNAL \<and>
   \<not> RouteServer_Config_RouteServerClient wit_pConf \<and>
   Transport_Config_LocalAddress wit_pConf = ''192.0.2.1'' \<and>
   nexthop_after_update wit_pConf cex_withdraw = Inr [] \<and>
   nexthop_after_update wit_pConf cex_withdraw \<noteq> Inr (Transport_Config_LocalAddress wit_pConf)"
  by (simp add: NewPath_def cex_withdraw_def nexthop_after_update_def update_eval)

theorem update_for_ebgp_peer_witness:
  "\<exists>P'. UpdatePathAttrs no_confederation wit_global wit_pConf wit_route = Inr P' \<and>
      GetNexthop P' = Inr ''192.0.2.1'' \<and>
      GetAsPath P' = Inr (Some [P4 (As4PathParam 2 2 [65001, 65002])]) \<and>
      getPathAttr P' BGP_ATTR_TYPE_MULTI_EXIT_DISC = None"
  using update_for_ebgp_peer [of wit_pConf wit_route "[As4PathParam 2 1 [65002]]" no_confederation wit_global]
  by (simp add: wit_route_def update_eval)

section \<open>Properties of the UPDATE batcher\<close>


lemma ipv4_announce_True:
  "ipv4_announce p = Inr True \<Longrightarrow> GetRouteFamily p = Inr RF_IPv4_UC \<and> \<not> IsWithdraw p"
  by (auto simp: ipv4_announce_def split: sum.splits if_splits)

lemma open_alone:
  assumes "ipv4_announce p = Inr True" and "createUpdateMsgFromPath p None = Inr (r, x)"
  shows "\<exists>attrs l q. r = Some (NewBGPUpdateMessage [] attrs [IPAddrPrefix l q]) \<and> x = None \<and>
           GetNlri p = Inr (IPAddrPrefix l q)"
  using assms(2) ipv4_announce_True [OF assms(1)]
  by (auto simp: createUpdateMsgFromPath_def split: sum.splits AddrPrefixInterface.splits if_splits)

lemma append_to_open:
  assumes "ipv4_announce p = Inr True" and "createUpdateMsgFromPath p (Some u) = Inr (r, x)"
  shows "\<exists>l q. x = Some (u\<lparr>NLRI := NLRI u @ [IPAddrPrefix l q]\<rparr>) \<and> GetNlri p = Inr (IPAddrPrefix l q)"
  using assms(2) ipv4_announce_True [OF assms(1)]
  by (auto simp: createUpdateMsgFromPath_def split: sum.splits AddrPrefixInterface.splits if_splits)

lemma nlri_len_in_range: "unat l \<le> 32 \<Longrightarrow> nlri_len (IPAddrPrefix l q) \<le> 5"
  by simp

lemma sum_nlri_len_bound: "\<forall>n \<in> set ns. nlri_len n \<le> 5 \<Longrightarrow> sum_list (map nlri_len ns) \<le> 5 * length ns"
  by (induction ns) auto

lemma appended_fits:
  assumes ok: "open_message_ok u" and chk: "\<not> msgLen Len u + 32 > BGP_MAX_MESSAGE_LENGTH"
    and n: "nlri_len n \<le> 5"
  shows "serialized_size Len (u\<lparr>NLRI := NLRI u @ [n]\<rparr>) \<le> BGP_MAX_MESSAGE_LENGTH
         \<and> open_message_ok (u\<lparr>NLRI := NLRI u @ [n]\<rparr>)"
proof -
  have "sum_list (map nlri_len (NLRI u)) \<le> 5 * length (NLRI u)"
    using ok by (simp add: open_message_ok_def sum_nlri_len_bound)
  then show ?thesis
    using ok chk n
    by (simp add: serialized_size_def msgLen_def open_message_ok_def BGP_MAX_MESSAGE_LENGTH_def)
qed

lemma opened_ok:
  assumes y: "ipv4_announce p = Inr True" and f: "fits_alone Len p" and r: "prefix_in_range p"
    and c: "createUpdateMsgFromPath p None = Inr (msg, x)"
  shows "\<exists>m. msg = Some m \<and> serialized_size Len m \<le> BGP_MAX_MESSAGE_LENGTH \<and> open_message_ok m"
proof -
  from open_alone [OF y c] obtain attrs l q where
    m: "msg = Some (NewBGPUpdateMessage [] attrs [IPAddrPrefix l q])" and x: "x = None"
    and n: "GetNlri p = Inr (IPAddrPrefix l q)" by blast
  from f c m have "serialized_size Len (NewBGPUpdateMessage [] attrs [IPAddrPrefix l q]) \<le> BGP_MAX_MESSAGE_LENGTH"
    by (simp add: fits_alone_def)
  moreover from r n have "unat l \<le> 32" by (simp add: prefix_in_range_def)
  then have "open_message_ok (NewBGPUpdateMessage [] attrs [IPAddrPrefix l q])"
    by (simp add: open_message_ok_def NewBGPUpdateMessage_def)
  ultimately show ?thesis using m by blast
qed

lemma bucket_loop_bound:
  "bucket_loop Len paths i msgs = Inr msgs' \<Longrightarrow>
   \<forall>p \<in> set paths. ipv4_announce p = Inr True \<and> fits_alone Len p \<and> prefix_in_range p \<Longrightarrow>
   \<forall>m. Some m \<in> set msgs \<longrightarrow> serialized_size Len m \<le> BGP_MAX_MESSAGE_LENGTH \<Longrightarrow>
   (i > 0 \<longrightarrow> msgs \<noteq> [] \<and> (\<forall>u. last msgs = Some u \<longrightarrow> open_message_ok u)) \<Longrightarrow>
   \<forall>m. Some m \<in> set msgs' \<longrightarrow> serialized_size Len m \<le> BGP_MAX_MESSAGE_LENGTH"
proof (induction paths arbitrary: i msgs)
  case Nil
  then show ?case by simp
next
  case (Cons path rest)
  have y: "ipv4_announce path = Inr True" and f: "fits_alone Len path" and r: "prefix_in_range path"
    and restok: "\<forall>p \<in> set rest. ipv4_announce p = Inr True \<and> fits_alone Len p \<and> prefix_in_range p"
    using Cons.prems(2) by simp_all
  have opens: ?case
    if c: "createUpdateMsgFromPath path None = Inr (msg, x)"
      and l: "bucket_loop Len rest (Suc i) (msgs @ [msg]) = Inr msgs'" for msg x
  proof -
    from opened_ok [OF y f r c] obtain m where
      m: "msg = Some m" "serialized_size Len m \<le> BGP_MAX_MESSAGE_LENGTH" "open_message_ok m" by blast
    have a: "\<forall>m'. Some m' \<in> set (msgs @ [msg]) \<longrightarrow> serialized_size Len m' \<le> BGP_MAX_MESSAGE_LENGTH"
      using Cons.prems(3) m by auto
    have b: "Suc i > 0 \<longrightarrow> msgs @ [msg] \<noteq> [] \<and> (\<forall>u. last (msgs @ [msg]) = Some u \<longrightarrow> open_message_ok u)"
      using m by simp
    from Cons.IH [OF l restok a b] show ?thesis .
  qed
  show ?case
  proof (cases "i = 0")
    case True
    with Cons.prems(1) obtain msg x where
      "createUpdateMsgFromPath path None = Inr (msg, x)"
      "bucket_loop Len rest (Suc i) (msgs @ [msg]) = Inr msgs'"
      by (auto split: sum.splits)
    then show ?thesis by (rule opens)
  next
    case False
    with Cons.prems(4) have ne: "msgs \<noteq> []" and lastok: "\<forall>u. last msgs = Some u \<longrightarrow> open_message_ok u"
      by simp_all
    from False ne Cons.prems(1) obtain u where u: "last msgs = Some u"
      by (auto split: option.splits)
    show ?thesis
    proof (cases "msgLen Len u + 32 > BGP_MAX_MESSAGE_LENGTH")
      case True
      with False ne u Cons.prems(1) obtain msg x where
        "createUpdateMsgFromPath path None = Inr (msg, x)"
        "bucket_loop Len rest (Suc i) (msgs @ [msg]) = Inr msgs'"
        by (auto split: sum.splits)
      then show ?thesis by (rule opens)
    next
      case chk: False
      with False ne u Cons.prems(1) obtain r0 msg' where
        c: "createUpdateMsgFromPath path (Some u) = Inr (r0, msg')"
        and l: "bucket_loop Len rest (Suc i) (butlast msgs @ [msg']) = Inr msgs'"
        by (auto split: sum.splits)
      from append_to_open [OF y c] obtain l0 q where
        m': "msg' = Some (u\<lparr>NLRI := NLRI u @ [IPAddrPrefix l0 q]\<rparr>)"
        and n: "GetNlri path = Inr (IPAddrPrefix l0 q)" by blast
      from r n have "unat l0 \<le> 32" by (simp add: prefix_in_range_def)
      then have n5: "nlri_len (IPAddrPrefix l0 q) \<le> 5" by simp
      from lastok u have uok: "open_message_ok u" by simp
      note fit = appended_fits [OF uok chk n5]
      have sub: "set (butlast msgs) \<subseteq> set msgs" by (auto dest: in_set_butlastD)
      have a: "\<forall>m. Some m \<in> set (butlast msgs @ [msg']) \<longrightarrow> serialized_size Len m \<le> BGP_MAX_MESSAGE_LENGTH"
        using Cons.prems(3) sub fit m' by auto
      have b: "Suc i > 0 \<longrightarrow> butlast msgs @ [msg'] \<noteq> [] \<and>
          (\<forall>u. last (butlast msgs @ [msg']) = Some u \<longrightarrow> open_message_ok u)"
        using fit m' by simp
      from Cons.IH [OF l restok a b] show ?thesis .
    qed
  qed
qed

lemma buckets_loop_bound:
  "buckets_loop Len bs msgs = Inr msgs' \<Longrightarrow>
   \<forall>b \<in> set bs. \<forall>p \<in> set (snd b). ipv4_announce p = Inr True \<and> fits_alone Len p \<and> prefix_in_range p \<Longrightarrow>
   \<forall>m. Some m \<in> set msgs \<longrightarrow> serialized_size Len m \<le> BGP_MAX_MESSAGE_LENGTH \<Longrightarrow>
   \<forall>m. Some m \<in> set msgs' \<longrightarrow> serialized_size Len m \<le> BGP_MAX_MESSAGE_LENGTH"
proof (induction bs arbitrary: msgs)
  case Nil
  then show ?case by simp
next
  case (Cons b bs)
  from Cons.prems(1) obtain msgs1 where
    b1: "bucket_loop Len (snd b) 0 msgs = Inr msgs1" and b2: "buckets_loop Len bs msgs1 = Inr msgs'"
    by (auto split: sum.splits)
  have pb: "\<forall>p \<in> set (snd b). ipv4_announce p = Inr True \<and> fits_alone Len p \<and> prefix_in_range p"
    and pbs: "\<forall>b \<in> set bs. \<forall>p \<in> set (snd b). ipv4_announce p = Inr True \<and> fits_alone Len p \<and> prefix_in_range p"
    using Cons.prems(2) by simp_all
  have "0 < (0::nat) \<longrightarrow> msgs \<noteq> [] \<and> (\<forall>u. last msgs = Some u \<longrightarrow> open_message_ok u)" by simp
  from bucket_loop_bound [OF b1 pb Cons.prems(3) this]
  have "\<forall>m. Some m \<in> set msgs1 \<longrightarrow> serialized_size Len m \<le> BGP_MAX_MESSAGE_LENGTH" .
  from Cons.IH [OF b2 pbs this] show ?case .
qed

lemma add_to_bucket_paths:
  "add_to_bucket a p bl = Some bl' \<Longrightarrow>
   (\<Union>b \<in> set bl'. set (snd b)) \<subseteq> insert p (\<Union>b \<in> set bl. set (snd b))"
proof (induction bl arbitrary: bl')
  case Nil
  then show ?case by simp
next
  case (Cons b bl)
  show ?case
  proof (cases "fst b = a")
    case True
    with Cons.prems have "bl' = (fst b, snd b @ [p]) # bl" by simp
    then show ?thesis by auto
  next
    case False
    with Cons.prems obtain z where z: "add_to_bucket a p bl = Some z" and bl': "bl' = b # z"
      by auto
    from Cons.IH [OF z] bl' show ?thesis by auto
  qed
qed

lemma update_key_paths:
  "bucket_paths (update_key k v m) \<subseteq> (\<Union>b \<in> set v. set (snd b)) \<union> bucket_paths m"
  by (induction m) (auto simp: bucket_paths_def)

lemma map_of_paths:
  "map_of m k = Some bl \<Longrightarrow> (\<Union>b \<in> set bl. set (snd b)) \<subseteq> bucket_paths m"
  by (induction m) (auto simp: bucket_paths_def split: if_splits)

lemma insert_path_paths: "bucket_paths (insert_path k a p m) \<subseteq> insert p (bucket_paths m)"
proof (cases "map_of m k")
  case None
  then show ?thesis using update_key_paths [of k "[(a, [p])]" m] by (auto simp: insert_path_def)
next
  case (Some bl)
  note sub = map_of_paths [OF Some]
  show ?thesis
  proof (cases "add_to_bucket a p bl")
    case None
    have "bucket_paths (update_key k (bl @ [(a, [p])]) m) \<subseteq> insert p (bucket_paths m)"
      using update_key_paths [of k "bl @ [(a, [p])]" m] sub by auto
    with Some None show ?thesis by (simp add: insert_path_def)
  next
    case found: (Some bl')
    have "bucket_paths (update_key k bl' m) \<subseteq> insert p (bucket_paths m)"
      using update_key_paths [of k bl' m] sub add_to_bucket_paths [OF found] by blast
    with Some found show ?thesis by (simp add: insert_path_def)
  qed
qed

lemma collect_loop_inv:
  "collect_loop ser pl msgs m = Inr (msgs', m') \<Longrightarrow>
   \<forall>x. Some x \<in> set msgs \<longrightarrow> serialized_size Len x \<le> BGP_MAX_MESSAGE_LENGTH \<Longrightarrow>
   \<forall>p \<in> bucket_paths m. ipv4_announce p = Inr True \<and> fits_alone Len p \<and> prefix_in_range p \<Longrightarrow>
   \<forall>path. Some path \<in> set pl \<longrightarrow> fits_alone Len path \<and> prefix_in_range path \<Longrightarrow>
   (\<forall>x. Some x \<in> set msgs' \<longrightarrow> serialized_size Len x \<le> BGP_MAX_MESSAGE_LENGTH) \<and>
   (\<forall>p \<in> bucket_paths m'. ipv4_announce p = Inr True \<and> fits_alone Len p \<and> prefix_in_range p)"
proof (induction pl arbitrary: msgs m)
  case Nil
  then show ?case by simp
next
  case (Cons po rest)
  have restok: "\<forall>path. Some path \<in> set rest \<longrightarrow> fits_alone Len path \<and> prefix_in_range path"
    using Cons.prems(4) by simp
  show ?case
  proof (cases po)
    case None
    with Cons.prems(1) have "collect_loop ser rest msgs m = Inr (msgs', m')" by simp
    from Cons.IH [OF this Cons.prems(2,3) restok] show ?thesis .
  next
    case (Some path)
    then have pok: "fits_alone Len path" "prefix_in_range path" using Cons.prems(4) by simp_all
    from Some Cons.prems(1) obtain y where y: "ipv4_announce path = Inr y"
      by (auto split: sum.splits)
    show ?thesis
    proof (cases y)
      case True
      with Some y Cons.prems(1) obtain as where
        c: "collect_loop ser rest msgs
              (insert_path (fnv32 (concat (map ser as))) (concat (map ser as)) path m) = Inr (msgs', m')"
        by (auto simp: Let_def split: sum.splits)
      have "\<forall>p \<in> bucket_paths (insert_path (fnv32 (concat (map ser as))) (concat (map ser as)) path m).
          ipv4_announce p = Inr True \<and> fits_alone Len p \<and> prefix_in_range p"
        using insert_path_paths [of "fnv32 (concat (map ser as))" "concat (map ser as)" path m]
          Cons.prems(3) pok y True by auto
      from Cons.IH [OF c Cons.prems(2) this restok] show ?thesis .
    next
      case False
      with Some y Cons.prems(1) obtain msg x where
        cr: "createUpdateMsgFromPath path None = Inr (msg, x)"
        and c: "collect_loop ser rest (msgs @ [msg]) m = Inr (msgs', m')"
        by (auto split: sum.splits)
      have "\<forall>x. Some x \<in> set (msgs @ [msg]) \<longrightarrow> serialized_size Len x \<le> BGP_MAX_MESSAGE_LENGTH"
        using Cons.prems(2) pok(1) cr by (auto simp: fits_alone_def)
      from Cons.IH [OF c this Cons.prems(3) restok] show ?thesis .
    qed
  qed
qed

lemma batcher_bound:
  assumes res: "CreateUpdateMsgFromPaths ser Len pathList = Inr msgs"
    and ok: "\<forall>path. Some path \<in> set pathList \<longrightarrow> fits_alone Len path \<and> prefix_in_range path"
  shows "\<forall>m. Some m \<in> set msgs \<longrightarrow> serialized_size Len m \<le> BGP_MAX_MESSAGE_LENGTH"
proof -
  from res obtain msgs0 m0 where
    c: "collect_loop ser pathList [] [] = Inr (msgs0, m0)"
    and b: "buckets_loop Len (concat (map snd m0)) msgs0 = Inr msgs"
    by (auto simp: CreateUpdateMsgFromPaths_def split: sum.splits)
  have e1: "\<forall>x. Some x \<in> set [] \<longrightarrow> serialized_size Len x \<le> BGP_MAX_MESSAGE_LENGTH" by simp
  have e2: "\<forall>p \<in> bucket_paths []. ipv4_announce p = Inr True \<and> fits_alone Len p \<and> prefix_in_range p"
    by (simp add: bucket_paths_def)
  from collect_loop_inv [OF c e1 e2 ok] have
    q: "\<forall>x. Some x \<in> set msgs0 \<longrightarrow> serialized_size Len x \<le> BGP_MAX_MESSAGE_LENGTH"
    and r: "\<forall>p \<in> bucket_paths m0. ipv4_announce p = Inr True \<and> fits_alone Len p \<and> prefix_in_range p"
    by simp_all
  from r have "\<forall>b \<in> set (concat (map snd m0)). \<forall>p \<in> set (snd b).
      ipv4_announce p = Inr True \<and> fits_alone Len p \<and> prefix_in_range p"
    by (auto simp: bucket_paths_def)
  from buckets_loop_bound [OF b this q] show ?thesis .
qed

lemma bucket_loop_check:
  "bucket_loop Len (path # rest) (Suc i) (ms @ [Some u]) =
     (if 19 + 2 + 2 + sum_list (map Len (PathAttributes u)) + (length (NLRI u) + 1) * 5 + 32 > 4096
      then (case createUpdateMsgFromPath path None of
              Inl e \<Rightarrow> Inl e
            | Inr (msg, _) \<Rightarrow> bucket_loop Len rest (Suc (Suc i)) (ms @ [Some u, msg]))
      else (case createUpdateMsgFromPath path (Some u) of
              Inl e \<Rightarrow> Inl e
            | Inr (_, msg') \<Rightarrow> bucket_loop Len rest (Suc (Suc i)) (ms @ [msg'])))"
  by (simp add: msgLen_def BGP_MAX_MESSAGE_LENGTH_def split: sum.splits prod.splits)

text \<open>
  Claim C3, amended. Whenever \<open>CreateUpdateMsgFromPaths\<close> returns, every message it
  produced has a serialized size of at most 4096 octets, provided that every path of the
  list fits alone (the message opened for that path alone is within 4096 octets) and
  carries, if it is an IPv4 prefix, one of at most 32 bits. Moreover, before a further
  path of a bucket is appended to the open message \<open>u\<close>, the batcher tests
  19 + 2 + 2 + sum of \<open>Len\<close> over the attributes of \<open>u\<close> + (number of NLRI of \<open>u\<close> + 1) * 5
  + 32 > 4096; when the test trips it opens a new message for the path, and otherwise it
  appends the path to \<open>u\<close>.
\<close>

theorem batcher_size_bound:
  "(CreateUpdateMsgFromPaths ser Len pathList = Inr msgs \<and>
    (\<forall>path. Some path \<in> set pathList \<longrightarrow> fits_alone Len path \<and> prefix_in_range path)
    \<longrightarrow> (\<forall>m. Some m \<in> set msgs \<longrightarrow> serialized_size Len m \<le> 4096)) \<and>
   bucket_loop Len (path # rest) (Suc i) (ms @ [Some u]) =
     (if 19 + 2 + 2 + sum_list (map Len (PathAttributes u)) + (length (NLRI u) + 1) * 5 + 32 > 4096
      then (case createUpdateMsgFromPath path None of
              Inl e \<Rightarrow> Inl e
            | Inr (msg, _) \<Rightarrow> bucket_loop Len rest (Suc (Suc i)) (ms @ [Some u, msg]))
      else (case createUpdateMsgFromPath path (Some u) of
              Inl e \<Rightarrow> Inl e
            | Inr (_, msg') \<Rightarrow> bucket_loop Len rest (Suc (Suc i)) (ms @ [msg'])))"
  using batcher_bound [of ser Len pathList msgs] bucket_loop_check [of Len path rest i ms u]
  by (simp add: BGP_MAX_MESSAGE_LENGTH_def)

lemmas batch_eval = CreateUpdateMsgFromPaths_def createUpdateMsgFromPath_def ipv4_announce_def
  GetRouteFamily_def GetNlri_def OriginInfo_def RF_IPv4_UC_def AfiSafiToRouteFamily_def AFI_IP_def
  SAFI_UNICAST_def GetPathAttrs_def NewBitmap_def Flag_def GetFlag_def attr_type_defs
  NewBGPUpdateMessage_def insert_path_def msgLen_def BGP_MAX_MESSAGE_LENGTH_def
  serialized_size_def wit_Len_def wit_ser_def wit_info_def wit_nlri_def Let_def
  fits_alone_def prefix_in_range_def

text \<open>
  Claim C3, as stated, fails: the message opened for the first path of a bucket is never
  measured. A single IPv4 announcement whose attributes take 4411 octets (a next hop and
  an attribute with a value of 4400 octets) comes out as one message of 4438 octets.
\<close>

theorem batcher_size_counterexample:
  "CreateUpdateMsgFromPaths wit_ser wit_Len [Some cex_big_path] = Inr [Some cex_big_msg] \<and>
   serialized_size wit_Len cex_big_msg = 4438 \<and> \<not> serialized_size wit_Len cex_big_msg \<le> 4096"
  by (simp add: cex_big_path_def cex_big_msg_def batch_eval)

theorem batcher_size_bound_witness:
  "CreateUpdateMsgFromPaths wit_ser wit_Len [Some wit_announce1, None, Some cex_withdraw, Some wit_announce2]
     = Inr [Some \<lparr>WithdrawnRoutes = [wit_nlri], PathAttributes = [], NLRI = []\<rparr>,
            Some \<lparr>WithdrawnRoutes = [], PathAttributes = [PathAttributeNextHop ''198.51.100.7''],
                  NLRI = [wit_nlri, IPAddrPrefix 16 ''172.16.0.0'']\<rparr>] \<and>
   serialized_size wit_Len \<lparr>WithdrawnRoutes = [wit_nlri], PathAttributes = [], NLRI = []\<rparr> = 27 \<and>
   serialized_size wit_Len \<lparr>WithdrawnRoutes = [], PathAttributes = [PathAttributeNextHop ''198.51.100.7''],
                  NLRI = [wit_nlri, IPAddrPrefix 16 ''172.16.0.0'']\<rparr> = 37"
  using batcher_size_bound [of wit_ser wit_Len
      "[Some wit_announce1, None, Some cex_withdraw, Some wit_announce2]"
      "[Some \<lparr>WithdrawnRoutes = [wit_nlri], PathAttributes = [], NLRI = []\<rparr>,
        Some \<lparr>WithdrawnRoutes = [], PathAttributes = [PathAttributeNextHop ''198.51.100.7''],
              NLRI = [wit_nlri, IPAddrPrefix 16 ''172.16.0.0'']\<rparr>]"
      wit_announce2 "[]" 0 "[]"
      "\<lparr>WithdrawnRoutes = [], PathAttributes = [PathAttributeNextHop ''198.51.100.7''], NLRI = [wit_nlri]\<rparr>"]
  by (simp add: wit_announce1_def wit_announce2_def cex_withdraw_def batch_eval)

end
